(* ===== verification/Kernel_Prelude.thy ===== *)
theory Kernel_Prelude
  imports Main
begin

text \<open>
  Shared vocabulary of the development: the result type of fallible operations, the
  \<open>while i < len\<close> index loop in which all traversals of the kernel are written, the
  fact collections the component theories fill, and generic lemmas on folds, association
  lists and options.

  A Rust \<open>Result<T, E>\<close> is the sum \<open>'e + 'a\<close> with \<^const>\<open>Inl\<close> for \<open>Err\<close> and
  \<^const>\<open>Inr\<close> for \<open>Ok\<close>.
\<close>

named_theorems vec_simps \<open>observations of the Vec-backed collections after each operation\<close>
named_theorems wf_intros \<open>operations that keep keys and elements unique\<close>
named_theorems check_simps \<open>the gate helpers, read as quantified conditions\<close>
named_theorems abs_simps \<open>how the abstraction function reads each state operation\<close>
named_theorems spec_defs \<open>definitions of the abstract operations\<close>

subsection \<open>Results\<close>

definition and_then :: "'e + 'a \<Rightarrow> ('a \<Rightarrow> 'e + 'b) \<Rightarrow> 'e + 'b" where
  "and_then r f = (case r of Inl e \<Rightarrow> Inl e | Inr x \<Rightarrow> f x)"

definition map_ok :: "('a \<Rightarrow> 'b) \<Rightarrow> 'e + 'a \<Rightarrow> 'e + 'b" where
  "map_ok f r = (case r of Inl e \<Rightarrow> Inl e | Inr x \<Rightarrow> Inr (f x))"

definition map_error :: "('e \<Rightarrow> 'f) \<Rightarrow> 'e + 'a \<Rightarrow> 'f + 'a" where
  "map_error f r = (case r of Inl e \<Rightarrow> Inl (f e) | Inr x \<Rightarrow> Inr x)"

lemma and_then_simps [simp]:
  "and_then (Inl e) f = Inl e" "and_then (Inr x) f = f x"
  by (simp_all add: and_then_def)

lemma and_then_Inr_iff: "and_then r f = Inr y \<longleftrightarrow> (\<exists>x. r = Inr x \<and> f x = Inr y)"
  by (cases r) auto

lemma map_ok_simps [simp]:
  "map_ok f (Inl e) = Inl e" "map_ok f (Inr x) = Inr (f x)"
  by (simp_all add: map_ok_def)

lemma map_ok_Inr_iff: "map_ok f r = Inr y \<longleftrightarrow> (\<exists>x. r = Inr x \<and> y = f x)"
  by (cases r) auto

lemma map_ok_if [simp]: "map_ok f (if b then x else y) = (if b then map_ok f x else map_ok f y)"
  by simp

lemma map_error_simps [simp]:
  "map_error f (Inl e) = Inl (f e)" "map_error f (Inr x) = Inr x"
  by (simp_all add: map_error_def)

lemma map_error_Inr_iff [simp]: "map_error f r = Inr y \<longleftrightarrow> r = Inr y"
  by (cases r) auto

lemma map_error_Inl_iff: "map_error f r = Inl y \<longleftrightarrow> (\<exists>e. r = Inl e \<and> y = f e)"
  by (cases r) auto

text \<open>\<open>for x in xs { .. ? }\<close>: a loop over a result, which returns the first error.\<close>

fun for_each :: "('a \<Rightarrow> 's \<Rightarrow> 'e + 's) \<Rightarrow> 'a list \<Rightarrow> 's \<Rightarrow> 'e + 's" where
  "for_each body [] acc = Inr acc"
| "for_each body (x # xs) acc = and_then (body x acc) (for_each body xs)"

lemma for_each_unit_Inr_iff:
  "for_each (\<lambda>x _. f x) xs () = Inr () \<longleftrightarrow> (\<forall>x \<in> set xs. f x = Inr ())"
  by (induction xs) (auto simp: and_then_Inr_iff)

subsection \<open>Index loops\<close>

text \<open>
  \<open>let mut i = 0; while i < n { acc = body(i, acc); i += 1; }\<close>: the only loop form of the
  extracted kernel. The bound is fixed while the loop runs, so the distance to it shrinks.
\<close>

function index_loop :: "nat \<Rightarrow> (nat \<Rightarrow> 'a \<Rightarrow> 'a) \<Rightarrow> nat \<Rightarrow> 'a \<Rightarrow> 'a" where
  "index_loop n body i acc =
     (if i < n then index_loop n body (Suc i) (body i acc) else acc)"
  by pat_completeness auto
termination
  by (relation "measure (\<lambda>(n, body, i, acc). n - i)") auto

declare index_loop.simps [simp del]

lemma index_loop_fold: "index_loop n body i acc = fold body [i..<n] acc"
proof (induction n body i acc rule: index_loop.induct)
  case (1 n body i acc)
  show ?case
  proof (cases "i < n")
    case True
    with 1 have "index_loop n body (Suc i) (body i acc) = fold body [Suc i..<n] (body i acc)"
      by simp
    with True show ?thesis
      by (subst index_loop.simps) (simp add: upt_conv_Cons)
  next
    case False
    then show ?thesis by (subst index_loop.simps) simp
  qed
qed

lemma fold_upt_nth: "fold (\<lambda>i. f (xs ! i)) [0..<length xs] acc = fold f xs acc"
proof -
  have "fold f xs acc = fold f (map ((!) xs) [0..<length xs]) acc"
    by (simp add: map_nth)
  also have "\<dots> = fold (\<lambda>i. f (xs ! i)) [0..<length xs] acc"
    by (simp add: fold_map comp_def)
  finally show ?thesis ..
qed

lemma index_loop_nth: "index_loop (length xs) (\<lambda>i. f (xs ! i)) 0 acc = fold f xs acc"
  by (simp add: index_loop_fold fold_upt_nth)

lemma fold_disj:
  assumes "\<And>x b. x \<in> set xs \<Longrightarrow> f x b \<longleftrightarrow> b \<or> P x"
  shows "fold f xs b \<longleftrightarrow> b \<or> (\<exists>x \<in> set xs. P x)"
  using assms by (induction xs arbitrary: b) auto

lemma fold_conj:
  assumes "\<And>x b. x \<in> set xs \<Longrightarrow> f x b \<longleftrightarrow> b \<and> P x"
  shows "fold f xs b \<longleftrightarrow> b \<and> (\<forall>x \<in> set xs. P x)"
  using assms by (induction xs arbitrary: b) auto

lemma fold_filter_snoc: "fold (\<lambda>x ys. if P x then ys @ [x] else ys) xs acc = acc @ filter P xs"
  by (induction xs arbitrary: acc) auto

lemma fold_invariant_elem:
  assumes "I acc" and "\<And>x a. x \<in> set xs \<Longrightarrow> I a \<Longrightarrow> I (f x a)"
  shows "I (fold f xs acc)"
  using assms by (induction xs arbitrary: acc) auto

subsection \<open>Association lists read from the back\<close>

lemma map_of_rev_eq_None: "map_of (rev es) k = None \<longleftrightarrow> k \<notin> fst ` set es"
  by (simp add: map_of_eq_None_iff)

lemma dom_map_of_rev: "dom (map_of (rev es)) = fst ` set es"
  by (simp add: dom_map_of_conv_image_fst)

lemma map_of_rev_filter:
  "map_of (rev (filter (\<lambda>e. fst e \<noteq> k) es)) = (map_of (rev es))(k := None)"
proof (rule ext)
  fix x
  show "map_of (rev (filter (\<lambda>e. fst e \<noteq> k) es)) x = ((map_of (rev es))(k := None)) x"
    by (induction es rule: rev_induct) (auto simp: map_of_eq_None_iff)
qed

end
