(* ===== verification/Vec_Collections.thy ===== *)
theory Vec_Collections
  imports Kernel_Prelude
begin

text \<open>
  The order-free finite maps and sets of \<open>argus-kernel/src/collections.rs\<close>: a \<open>VecMap\<close> is a
  vector of key/value pairs, a \<open>VecSet\<close> a vector of elements, and every operation is an index
  loop over it. A Rust \<open>Vec\<close> is a list; \<open>clone\<close> is the identity, and a \<open>&mut self\<close> method
  returns the new collection. The second half states the two interfaces the kernel relies on as
  locales (\<open>set_interface\<close>, \<open>map_interface\<close>), proves the traversal lemmas once inside
  them and interprets both on the vector code.
\<close>

subsection \<open>VecSet\<close>

datatype 'a vec_set = VecSet (items: "'a list")

definition vs_new :: "'a vec_set" where
  "vs_new = VecSet []"

definition vs_len :: "'a vec_set \<Rightarrow> nat" where
  "vs_len s = length (items s)"

definition vs_is_empty :: "'a vec_set \<Rightarrow> bool" where
  "vs_is_empty s \<longleftrightarrow> length (items s) = 0"

definition vs_contains :: "'a vec_set \<Rightarrow> 'a \<Rightarrow> bool" where
  "vs_contains s x =
     index_loop (length (items s)) (\<lambda>i found. if items s ! i = x then True else found) 0 False"

definition vs_insert :: "'a vec_set \<Rightarrow> 'a \<Rightarrow> 'a vec_set" where
  "vs_insert s x = (if \<not> vs_contains s x then VecSet (items s @ [x]) else s)"

definition vs_remove :: "'a vec_set \<Rightarrow> 'a \<Rightarrow> 'a vec_set" where
  "vs_remove s x = VecSet
     (index_loop (length (items s))
       (\<lambda>i kept. if items s ! i \<noteq> x then kept @ [items s ! i] else kept) 0 [])"

definition vs_at :: "'a vec_set \<Rightarrow> nat \<Rightarrow> 'a" where
  "vs_at s i = items s ! i"

definition vs_union_with :: "'a vec_set \<Rightarrow> 'a vec_set \<Rightarrow> 'a vec_set" where
  "vs_union_with s other =
     index_loop (length (items other)) (\<lambda>i s. vs_insert s (items other ! i)) 0 s"

definition vs_from_array :: "'a list \<Rightarrow> 'a vec_set" where
  "vs_from_array arr = fold (\<lambda>x s. vs_insert s x) arr vs_new"

definition vs_from_iter :: "'a list \<Rightarrow> 'a vec_set" where
  "vs_from_iter xs = fold (\<lambda>x s. vs_insert s x) xs vs_new"

text \<open>
  \<open>while i < s.len() { let x = s.at(i); ... }\<close>, the way the kernel walks a set; the index
  stays below the length, so \<^const>\<open>vs_at\<close> never reads out of range.
\<close>

definition vs_scan :: "'a vec_set \<Rightarrow> ('a \<Rightarrow> 'b \<Rightarrow> 'b) \<Rightarrow> 'b \<Rightarrow> 'b" where
  "vs_scan s body acc = index_loop (vs_len s) (\<lambda>i acc. body (vs_at s i) acc) 0 acc"

text \<open>The representation invariant: \<open>insert\<close> keeps elements unique.\<close>

definition vs_wf :: "'a vec_set \<Rightarrow> bool" where
  "vs_wf s \<longleftrightarrow> distinct (items s)"

lemma vs_contains_iff [vec_simps]: "vs_contains s x \<longleftrightarrow> x \<in> set (items s)"
  unfolding vs_contains_def
  by (subst index_loop_nth [where f = "\<lambda>y found. if y = x then True else found"])
    (subst fold_disj [where P = "\<lambda>y. y = x"], auto)

lemma vs_scan_fold: "vs_scan s f acc = fold f (items s) acc"
  by (simp add: vs_scan_def vs_at_def vs_len_def index_loop_nth)

lemma items_vs_insert: "items (vs_insert s x) = (if x \<in> set (items s) then items s else items s @ [x])"
  by (simp add: vs_insert_def vs_contains_iff)

lemma items_vs_remove: "items (vs_remove s x) = filter (\<lambda>y. y \<noteq> x) (items s)"
  unfolding vs_remove_def
  by (simp add: index_loop_nth [where f = "\<lambda>y kept. if y \<noteq> x then kept @ [y] else kept"]
      fold_filter_snoc)

lemma vs_union_with_fold: "vs_union_with s t = fold (\<lambda>x s. vs_insert s x) (items t) s"
  by (simp add: vs_union_with_def index_loop_nth [where f = "\<lambda>x s. vs_insert s x"])

lemma items_vs_new [simp]: "items vs_new = []"
  by (simp add: vs_new_def)

lemma vs_is_empty_iff [vec_simps]: "vs_is_empty s \<longleftrightarrow> set (items s) = {}"
  by (simp add: vs_is_empty_def)

lemma set_items_insert [vec_simps]: "set (items (vs_insert s x)) = insert x (set (items s))"
  by (auto simp: items_vs_insert)

lemma set_items_remove [vec_simps]: "set (items (vs_remove s x)) = set (items s) - {x}"
  by (auto simp: items_vs_remove)

lemma length_vs_insert_le: "length (items (vs_insert s x)) \<le> Suc (length (items s))"
  by (simp add: items_vs_insert)

lemma length_vs_remove_le: "length (items (vs_remove s x)) \<le> length (items s)"
  by (simp add: items_vs_remove)

subsection \<open>VecMap\<close>

datatype ('k, 'v) vec_map = VecMap (entries: "('k \<times> 'v) list")

definition vm_new :: "('k, 'v) vec_map" where
  "vm_new = VecMap []"

definition vm_len :: "('k, 'v) vec_map \<Rightarrow> nat" where
  "vm_len m = length (entries m)"

definition vm_is_empty :: "('k, 'v) vec_map \<Rightarrow> bool" where
  "vm_is_empty m \<longleftrightarrow> length (entries m) = 0"

definition vm_contains_key :: "('k, 'v) vec_map \<Rightarrow> 'k \<Rightarrow> bool" where
  "vm_contains_key m k =
     index_loop (length (entries m)) (\<lambda>i found. if fst (entries m ! i) = k then True else found) 0 False"

text \<open>
  The search shared by \<open>get\<close>, \<open>get_cloned\<close>, \<open>insert\<close>, \<open>insert_into\<close>,
  \<open>extend_into\<close> and \<open>remove_from\<close>: \<open>idx\<close> starts at the length and is overwritten at
  every match.
\<close>

definition vm_find :: "('k, 'v) vec_map \<Rightarrow> 'k \<Rightarrow> nat" where
  "vm_find m k =
     index_loop (length (entries m)) (\<lambda>i idx. if fst (entries m ! i) = k then i else idx) 0
       (length (entries m))"

definition vm_get :: "('k, 'v) vec_map \<Rightarrow> 'k \<Rightarrow> 'v option" where
  "vm_get m k = (let idx = vm_find m k in
     if idx < length (entries m) then Some (snd (entries m ! idx)) else None)"

definition vm_get_cloned :: "('k, 'v) vec_map \<Rightarrow> 'k \<Rightarrow> 'v option" where
  "vm_get_cloned m k = (let idx = vm_find m k in
     if idx < length (entries m) then Some (snd (entries m ! idx)) else None)"

definition vm_insert :: "('k, 'v) vec_map \<Rightarrow> 'k \<Rightarrow> 'v \<Rightarrow> ('k, 'v) vec_map" where
  "vm_insert m k v = (let idx = vm_find m k in
     if idx < length (entries m) then VecMap ((entries m)[idx := (k, v)])
     else VecMap (entries m @ [(k, v)]))"

definition vm_remove :: "('k, 'v) vec_map \<Rightarrow> 'k \<Rightarrow> ('k, 'v) vec_map" where
  "vm_remove m k = VecMap
     (index_loop (length (entries m))
       (\<lambda>i kept. if fst (entries m ! i) \<noteq> k then kept @ [entries m ! i] else kept) 0 [])"

definition vm_key_at :: "('k, 'v) vec_map \<Rightarrow> nat \<Rightarrow> 'k" where
  "vm_key_at m i = fst (entries m ! i)"

definition vm_val_at :: "('k, 'v) vec_map \<Rightarrow> nat \<Rightarrow> 'v" where
  "vm_val_at m i = snd (entries m ! i)"

definition vm_from_iter :: "('k \<times> 'v) list \<Rightarrow> ('k, 'v) vec_map" where
  "vm_from_iter kvs = fold (\<lambda>(k, v) m. vm_insert m k v) kvs vm_new"

text \<open>
  \<open>while i < m.len() { let k = m.key_at(i).clone(); if let Some(v) = m.get_cloned(&k) { ... } }\<close>,
  the way the kernel walks a map.
\<close>

definition vm_scan :: "('k, 'v) vec_map \<Rightarrow> ('k \<Rightarrow> 'v \<Rightarrow> 'b \<Rightarrow> 'b) \<Rightarrow> 'b \<Rightarrow> 'b" where
  "vm_scan m body acc =
     index_loop (vm_len m)
       (\<lambda>i acc. let k = vm_key_at m i in
          (case vm_get_cloned m k of Some v \<Rightarrow> body k v acc | None \<Rightarrow> acc)) 0 acc"

subsection \<open>Maps of sets\<close>

definition vm_insert_into :: "('k, 'a vec_set) vec_map \<Rightarrow> 'k \<Rightarrow> 'a \<Rightarrow> ('k, 'a vec_set) vec_map" where
  "vm_insert_into m k x = (let idx = vm_find m k in
     if idx < length (entries m)
     then (let s = vs_insert (snd (entries m ! idx)) x in VecMap ((entries m)[idx := (k, s)]))
     else (let s = vs_insert vs_new x in VecMap (entries m @ [(k, s)])))"

definition vm_extend_into ::
  "('k, 'a vec_set) vec_map \<Rightarrow> 'k \<Rightarrow> 'a vec_set \<Rightarrow> ('k, 'a vec_set) vec_map" where
  "vm_extend_into m k other = (let idx = vm_find m k in
     if idx < length (entries m)
     then (let s = vs_union_with (snd (entries m ! idx)) other in VecMap ((entries m)[idx := (k, s)]))
     else (let s = vs_union_with vs_new other in VecMap (entries m @ [(k, s)])))"

definition vm_get_set_or_empty :: "('k, 'a vec_set) vec_map \<Rightarrow> 'k \<Rightarrow> 'a vec_set" where
  "vm_get_set_or_empty m k = (case vm_get_cloned m k of Some s \<Rightarrow> s | None \<Rightarrow> vs_new)"

definition vm_set_contains :: "('k, 'a vec_set) vec_map \<Rightarrow> 'k \<Rightarrow> 'a \<Rightarrow> bool" where
  "vm_set_contains m k x = (case vm_get_cloned m k of Some s \<Rightarrow> vs_contains s x | None \<Rightarrow> False)"

definition vm_set_nonempty :: "('k, 'a vec_set) vec_map \<Rightarrow> 'k \<Rightarrow> bool" where
  "vm_set_nonempty m k = (case vm_get_cloned m k of Some s \<Rightarrow> \<not> vs_is_empty s | None \<Rightarrow> False)"

definition vm_any_value_contains :: "('k, 'a vec_set) vec_map \<Rightarrow> 'a \<Rightarrow> bool" where
  "vm_any_value_contains m x =
     index_loop (length (entries m))
       (\<lambda>i found. if vs_contains (snd (entries m ! i)) x then True else found) 0 False"

definition vm_remove_from :: "('k, 'a vec_set) vec_map \<Rightarrow> 'k \<Rightarrow> 'a \<Rightarrow> ('k, 'a vec_set) vec_map" where
  "vm_remove_from m k x = (let idx = vm_find m k in
     if idx < length (entries m)
     then (let k' = fst (entries m ! idx); s = vs_remove (snd (entries m ! idx)) x
           in VecMap ((entries m)[idx := (k', s)]))
     else m)"

text \<open>Keys are unique; in a map of sets each value is a set without repetitions.\<close>

definition vm_wf :: "('k, 'v) vec_map \<Rightarrow> bool" where
  "vm_wf m \<longleftrightarrow> distinct (map fst (entries m))"

definition vm_all_values :: "('v \<Rightarrow> bool) \<Rightarrow> ('k, 'v) vec_map \<Rightarrow> bool" where
  "vm_all_values P m \<longleftrightarrow> (\<forall>e \<in> set (entries m). P (snd e))"

definition vm_sets_wf :: "('k, 'a vec_set) vec_map \<Rightarrow> bool" where
  "vm_sets_wf m \<longleftrightarrow> vm_wf m \<and> vm_all_values vs_wf m"


subsection \<open>The search\<close>

text \<open>The search over a growing vector, with the start value left open.\<close>

definition last_match :: "('k \<times> 'v) list \<Rightarrow> 'k \<Rightarrow> nat \<Rightarrow> nat" where
  "last_match es k d = fold (\<lambda>i idx. if fst (es ! i) = k then i else idx) [0..<length es] d"

lemma last_match_Nil [simp]: "last_match [] k d = d"
  by (simp add: last_match_def)

lemma last_match_snoc [simp]:
  "last_match (es @ [e]) k d = (if fst e = k then length es else last_match es k d)"
proof -
  have "fold (\<lambda>i idx. if fst ((es @ [e]) ! i) = k then i else idx) [0..<length es] d =
      fold (\<lambda>i idx. if fst (es ! i) = k then i else idx) [0..<length es] d"
    by (rule fold_cong) (simp_all add: nth_append)
  then show ?thesis by (simp add: last_match_def)
qed

lemma last_match_absent: "k \<notin> fst ` set es \<Longrightarrow> last_match es k d = d"
  by (induction es rule: rev_induct) auto

lemma last_match_less: "k \<in> fst ` set es \<Longrightarrow> last_match es k d < length es"
  by (induction es rule: rev_induct) (auto simp: less_Suc_eq)

lemma last_match_nth:
  "k \<in> fst ` set es \<Longrightarrow> map_of (rev es) k = Some (snd (es ! last_match es k d))
     \<and> fst (es ! last_match es k d) = k"
proof (induction es rule: rev_induct)
  case Nil
  then show ?case by simp
next
  case (snoc e es)
  then show ?case
    using last_match_less [of k es d] by (cases e) (auto simp: nth_append)
qed

lemma last_match_update:
  "k \<in> fst ` set es \<Longrightarrow> map_of (rev (es[last_match es k d := (k, v)])) = (map_of (rev es))(k \<mapsto> v)"
proof (induction es rule: rev_induct)
  case Nil
  then show ?case by simp
next
  case (snoc e es)
  show ?case
  proof (cases "fst e = k")
    case True
    then show ?thesis by (cases e) (simp add: fun_eq_iff)
  next
    case False
    with snoc.prems have "k \<in> fst ` set es" by auto
    with False snoc.IH last_match_less [of k es d] show ?thesis
      by (cases e) (auto simp: list_update_append fun_upd_twist)
  qed
qed

lemma vm_find_last_match: "vm_find m k = last_match (entries m) k (length (entries m))"
  by (simp add: vm_find_def last_match_def index_loop_fold)

lemma vm_find_less_iff: "vm_find m k < length (entries m) \<longleftrightarrow> k \<in> fst ` set (entries m)"
proof (cases "k \<in> fst ` set (entries m)")
  case True
  then show ?thesis by (simp add: vm_find_last_match last_match_less)
next
  case False
  then show ?thesis by (simp add: vm_find_last_match last_match_absent)
qed

lemma vm_find_key: "k \<in> fst ` set (entries m) \<Longrightarrow> fst (entries m ! vm_find m k) = k"
  by (simp add: vm_find_last_match last_match_nth)

lemma map_fst_vm_find_update:
  "k \<in> fst ` set (entries m) \<Longrightarrow>
     map fst ((entries m)[vm_find m k := (k, v)]) = map fst (entries m)"
  by (metis list_update_id map_update nth_map fst_conv vm_find_key vm_find_less_iff)

subsection \<open>Lookup\<close>

lemma vm_get_map_of: "vm_get m k = map_of (rev (entries m)) k"
proof (cases "k \<in> fst ` set (entries m)")
  case True
  then show ?thesis
    using last_match_nth [of k "entries m" "length (entries m)"]
    by (simp add: vm_get_def vm_find_less_iff) (simp add: vm_find_last_match)
next
  case False
  then show ?thesis
    by (simp add: vm_get_def vm_find_less_iff map_of_rev_eq_None [THEN iffD2])
qed

lemma vm_get_cloned_eq [simp]: "vm_get_cloned = vm_get"
  by (intro ext) (simp add: vm_get_cloned_def vm_get_def)

lemma dom_vm_get: "dom (vm_get m) = fst ` set (entries m)"
  by (auto simp: dom_def vm_get_map_of map_of_eq_None_iff image_iff dest: map_of_SomeD
      intro: weak_map_of_SomeI)

lemma vm_get_entry: "vm_get m k = Some v \<Longrightarrow> (k, v) \<in> set (entries m)"
  by (auto simp: vm_get_map_of dest: map_of_SomeD)

lemma vm_get_wf_iff: "vm_wf m \<Longrightarrow> vm_get m k = Some v \<longleftrightarrow> (k, v) \<in> set (entries m)"
  by (simp add: vm_wf_def vm_get_map_of map_of_eq_Some_iff rev_map [symmetric])

lemma vm_get_new [vec_simps]: "vm_get vm_new = Map.empty"
  by (simp add: fun_eq_iff vm_get_map_of vm_new_def)

lemma vm_contains_key_iff [vec_simps]: "vm_contains_key m k \<longleftrightarrow> vm_get m k \<noteq> None"
proof -
  have "vm_contains_key m k \<longleftrightarrow> k \<in> fst ` set (entries m)"
    unfolding vm_contains_key_def
    by (subst index_loop_nth [where f = "\<lambda>e found. if fst e = k then True else found"])
      (subst fold_disj [where P = "\<lambda>e. fst e = k"], auto)
  then show ?thesis by (metis domIff dom_vm_get)
qed

lemma entries_vm_insert:
  "entries (vm_insert m k v) =
     (if k \<in> fst ` set (entries m) then (entries m)[vm_find m k := (k, v)]
      else entries m @ [(k, v)])"
  by (simp add: vm_insert_def vm_find_less_iff)

lemma vm_get_insert [vec_simps]: "vm_get (vm_insert m k v) = (vm_get m)(k \<mapsto> v)"
  by (rule ext)
    (auto simp: vm_get_map_of entries_vm_insert vm_find_last_match last_match_update)

lemma entries_vm_remove: "entries (vm_remove m k) = filter (\<lambda>e. fst e \<noteq> k) (entries m)"
  unfolding vm_remove_def
  by (simp add: index_loop_nth [where f = "\<lambda>e kept. if fst e \<noteq> k then kept @ [e] else kept"]
      fold_filter_snoc)

lemma vm_get_remove [vec_simps]: "vm_get (vm_remove m k) = (vm_get m)(k := None)"
  by (simp add: fun_eq_iff vm_get_map_of entries_vm_remove map_of_rev_filter)

lemma vm_scan_fold:
  "vm_scan m f acc =
     fold (\<lambda>k acc. case vm_get m k of Some v \<Rightarrow> f k v acc | None \<Rightarrow> acc) (map fst (entries m)) acc"
  unfolding vm_scan_def vm_len_def vm_key_at_def Let_def
  by (simp add: index_loop_nth [where f = "\<lambda>e acc. case vm_get m (fst e) of Some v \<Rightarrow> f (fst e) v acc | None \<Rightarrow> acc"]
      fold_map comp_def)

subsection \<open>Lookups in maps of sets\<close>

text \<open>The elements at a key, absent keys reading as the empty set.\<close>

definition vm_elems :: "('k, 'a vec_set) vec_map \<Rightarrow> 'k \<Rightarrow> 'a set" where
  "vm_elems m k = (case vm_get m k of Some s \<Rightarrow> set (items s) | None \<Rightarrow> {})"

lemma vm_insert_into_insert:
  "vm_insert_into m k x = vm_insert m k (vs_insert (vm_get_set_or_empty m k) x)"
  by (simp add: vm_insert_into_def vm_insert_def vm_get_set_or_empty_def vm_get_def Let_def)

lemma vm_extend_into_insert:
  "vm_extend_into m k t = vm_insert m k (vs_union_with (vm_get_set_or_empty m k) t)"
  by (simp add: vm_extend_into_def vm_insert_def vm_get_set_or_empty_def vm_get_def Let_def)

lemma set_vm_get_set_or_empty [vec_simps]: "set (items (vm_get_set_or_empty m k)) = vm_elems m k"
  by (simp add: vm_get_set_or_empty_def vm_elems_def split: option.split)

lemma vm_set_contains_iff [vec_simps]: "vm_set_contains m k x \<longleftrightarrow> x \<in> vm_elems m k"
  by (simp add: vm_set_contains_def vm_elems_def vs_contains_iff split: option.split)

lemma vm_set_nonempty_iff [vec_simps]: "vm_set_nonempty m k \<longleftrightarrow> vm_elems m k \<noteq> {}"
  by (simp add: vm_set_nonempty_def vm_elems_def vs_is_empty_iff split: option.split)

lemma vm_elems_new [vec_simps]: "vm_elems vm_new = (\<lambda>_. {})"
  by (simp add: fun_eq_iff vm_elems_def vm_get_new)

lemma vm_elems_insert [vec_simps]: "vm_elems (vm_insert m k s) = (vm_elems m)(k := set (items s))"
  by (simp add: fun_eq_iff vm_elems_def vm_get_insert)

lemma vm_elems_remove [vec_simps]: "vm_elems (vm_remove m k) = (vm_elems m)(k := {})"
  by (simp add: fun_eq_iff vm_elems_def vm_get_remove)

lemma vm_elems_insert_into [vec_simps]:
  "vm_elems (vm_insert_into m k x) = (vm_elems m)(k := insert x (vm_elems m k))"
  by (simp add: vm_insert_into_insert vec_simps)


subsection \<open>Uniqueness of elements and keys\<close>

lemma vs_wf_new [wf_intros]: "vs_wf vs_new"
  by (simp add: vs_wf_def)

lemma vs_wf_insert [wf_intros]: "vs_wf s \<Longrightarrow> vs_wf (vs_insert s x)"
  by (simp add: vs_wf_def items_vs_insert)

lemma vs_wf_remove [wf_intros]: "vs_wf s \<Longrightarrow> vs_wf (vs_remove s x)"
  by (simp add: vs_wf_def items_vs_remove)

lemma vm_wf_new [wf_intros]: "vm_wf vm_new"
  by (simp add: vm_wf_def vm_new_def)

lemma map_fst_entries_vm_insert:
  "map fst (entries (vm_insert m k v)) =
     (if k \<in> fst ` set (entries m) then map fst (entries m) else map fst (entries m) @ [k])"
  by (simp add: entries_vm_insert map_fst_vm_find_update)

lemma vm_wf_insert [wf_intros]: "vm_wf m \<Longrightarrow> vm_wf (vm_insert m k v)"
  by (simp add: vm_wf_def map_fst_entries_vm_insert)

lemma vm_wf_remove [wf_intros]: "vm_wf m \<Longrightarrow> vm_wf (vm_remove m k)"
  by (simp add: vm_wf_def entries_vm_remove distinct_map_filter)

lemma vm_all_values_new [wf_intros]: "vm_all_values P vm_new"
  by (simp add: vm_all_values_def vm_new_def)

lemma vm_all_values_insert [wf_intros]:
  "vm_all_values P m \<Longrightarrow> P v \<Longrightarrow> vm_all_values P (vm_insert m k v)"
  using set_update_subset_insert [of "entries m" "vm_find m k" "(k, v)"]
  by (fastforce simp: vm_all_values_def entries_vm_insert)

lemma vm_all_values_remove [wf_intros]: "vm_all_values P m \<Longrightarrow> vm_all_values P (vm_remove m k)"
  by (simp add: vm_all_values_def entries_vm_remove)

lemma vm_all_values_get: "vm_all_values P m \<Longrightarrow> vm_get m k = Some v \<Longrightarrow> P v"
  by (auto simp: vm_all_values_def dest!: vm_get_entry)

lemma vm_sets_wf_new [wf_intros]: "vm_sets_wf vm_new"
  by (simp add: vm_sets_wf_def wf_intros)

lemma vm_sets_wf_insert [wf_intros]: "vm_sets_wf m \<Longrightarrow> vs_wf s \<Longrightarrow> vm_sets_wf (vm_insert m k s)"
  by (simp add: vm_sets_wf_def wf_intros)

lemma vm_sets_wf_remove [wf_intros]: "vm_sets_wf m \<Longrightarrow> vm_sets_wf (vm_remove m k)"
  by (simp add: vm_sets_wf_def wf_intros)

lemma vs_wf_get_set_or_empty [wf_intros]: "vm_sets_wf m \<Longrightarrow> vs_wf (vm_get_set_or_empty m k)"
  by (auto simp: vm_get_set_or_empty_def vm_sets_wf_def wf_intros split: option.split
      dest: vm_all_values_get)

lemma vm_sets_wf_insert_into [wf_intros]: "vm_sets_wf m \<Longrightarrow> vm_sets_wf (vm_insert_into m k x)"
  by (simp add: vm_insert_into_insert wf_intros)

subsection \<open>The set interface\<close>

text \<open>
  What the kernel relies on of a set: membership after each operation, an enumeration of the
  members, and a representation invariant under which the enumeration has no repetition.
\<close>

locale set_interface =
  fixes empty :: 's
    and add :: "'s \<Rightarrow> 'a \<Rightarrow> 's"
    and del :: "'s \<Rightarrow> 'a \<Rightarrow> 's"
    and has :: "'s \<Rightarrow> 'a \<Rightarrow> bool"
    and elems :: "'s \<Rightarrow> 'a list"
    and ok :: "'s \<Rightarrow> bool"
  assumes has_empty: "\<not> has empty x"
    and has_add: "has (add s x) y \<longleftrightarrow> y = x \<or> has s y"
    and has_del: "has (del s x) y \<longleftrightarrow> y \<noteq> x \<and> has s y"
    and has_elems: "x \<in> set (elems s) \<longleftrightarrow> has s x"
    and ok_empty: "ok empty"
    and ok_add: "ok s \<Longrightarrow> ok (add s x)"
    and ok_del: "ok s \<Longrightarrow> ok (del s x)"
    and ok_distinct: "ok s \<Longrightarrow> distinct (elems s)"
begin

lemma has_bulk_add: "has (fold (\<lambda>x s. add s x) xs s) y \<longleftrightarrow> y \<in> set xs \<or> has s y"
  by (induction xs arbitrary: s) (auto simp: has_add)

lemma ok_bulk_add: "ok s \<Longrightarrow> ok (fold (\<lambda>x s. add s x) xs s)"
  by (induction xs arbitrary: s) (auto intro: ok_add)

lemma scan_conj:
  "(\<And>x b. has s x \<Longrightarrow> f x b \<longleftrightarrow> b \<and> P x) \<Longrightarrow>
     fold f (elems s) b \<longleftrightarrow> b \<and> (\<forall>x. has s x \<longrightarrow> P x)"
  by (subst fold_conj [where P = P]) (auto simp: has_elems)

lemma scan_disj:
  "(\<And>x b. has s x \<Longrightarrow> f x b \<longleftrightarrow> b \<or> P x) \<Longrightarrow>
     fold f (elems s) b \<longleftrightarrow> b \<or> (\<exists>x. has s x \<and> P x)"
  by (subst fold_disj [where P = P]) (auto simp: has_elems)

lemma size_bound:
  assumes "ok s" "finite A" "set (elems s) \<subseteq> A"
  shows "length (elems s) \<le> card A"
  using assms distinct_card [OF ok_distinct] card_mono by metis

end

interpretation vs: set_interface vs_new vs_insert vs_remove vs_contains items vs_wf
  by unfold_locales (auto simp: vec_simps wf_intros, simp add: vs_wf_def)

subsection \<open>The map interface\<close>

text \<open>
  The same for a finite map: lookups after each operation, and an enumeration of the keys.
  The two traversals of the kernel are proved here: scans that latch a flag, and rebuilds
  that copy the entries passing a test into a fresh map.
\<close>

locale map_interface =
  fixes empty :: 'm
    and put :: "'m \<Rightarrow> 'k \<Rightarrow> 'v \<Rightarrow> 'm"
    and del :: "'m \<Rightarrow> 'k \<Rightarrow> 'm"
    and get :: "'m \<Rightarrow> 'k \<Rightarrow> 'v option"
    and keys :: "'m \<Rightarrow> 'k list"
    and ok :: "'m \<Rightarrow> bool"
  assumes get_empty: "get empty = Map.empty"
    and get_put: "get (put m k v) = (get m)(k \<mapsto> v)"
    and get_del: "get (del m k) = (get m)(k := None)"
    and set_keys: "set (keys m) = dom (get m)"
    and ok_empty: "ok empty"
    and ok_put: "ok m \<Longrightarrow> ok (put m k v)"
    and ok_del: "ok m \<Longrightarrow> ok (del m k)"
    and ok_distinct: "ok m \<Longrightarrow> distinct (keys m)"
begin

lemma scan_conj:
  assumes "\<And>k v b. get m k = Some v \<Longrightarrow> f k v b \<longleftrightarrow> b \<and> P k v"
  shows "fold (\<lambda>k b. case get m k of Some v \<Rightarrow> f k v b | None \<Rightarrow> b) (keys m) b \<longleftrightarrow>
    b \<and> (\<forall>k v. get m k = Some v \<longrightarrow> P k v)"
proof -
  have "fold (\<lambda>k b. case get m k of Some v \<Rightarrow> f k v b | None \<Rightarrow> b) (keys m) b \<longleftrightarrow>
      b \<and> (\<forall>k \<in> set (keys m). \<forall>v. get m k = Some v \<longrightarrow> P k v)"
    by (rule fold_conj) (auto simp: assms split: option.split)
  then show ?thesis by (auto simp: set_keys)
qed

lemma scan_disj:
  assumes "\<And>k v b. get m k = Some v \<Longrightarrow> f k v b \<longleftrightarrow> b \<or> P k v"
  shows "fold (\<lambda>k b. case get m k of Some v \<Rightarrow> f k v b | None \<Rightarrow> b) (keys m) b \<longleftrightarrow>
    b \<or> (\<exists>k v. get m k = Some v \<and> P k v)"
proof -
  have "fold (\<lambda>k b. case get m k of Some v \<Rightarrow> f k v b | None \<Rightarrow> b) (keys m) b \<longleftrightarrow>
      b \<or> (\<exists>k \<in> set (keys m). \<exists>v. get m k = Some v \<and> P k v)"
    by (rule fold_disj) (auto simp: assms split: option.split)
  then show ?thesis by (auto simp: set_keys)
qed

text \<open>A rebuild keeps the entries that pass \<open>P\<close>, mapped through \<open>g\<close>.\<close>

lemma get_rebuild:
  assumes "\<And>k v acc. f k v acc = (if P k v then put acc k (g k v) else acc)"
  shows "get (fold (\<lambda>k acc. case get m k of Some v \<Rightarrow> f k v acc | None \<Rightarrow> acc) (keys m) empty) k =
    (case get m k of Some v \<Rightarrow> if P k v then Some (g k v) else None | None \<Rightarrow> None)"
proof -
  have "get (fold (\<lambda>k acc. case get m k of Some v \<Rightarrow> f k v acc | None \<Rightarrow> acc) ks acc) k =
    (if k \<in> set ks
     then (case get m k of Some v \<Rightarrow> if P k v then Some (g k v) else get acc k | None \<Rightarrow> get acc k)
     else get acc k)" for ks acc
    by (induction ks arbitrary: acc) (auto simp: assms get_put split: option.split)
  then show ?thesis
    by (auto simp: set_keys get_empty split: option.split)
qed

lemma ok_scan:
  assumes "\<And>k v acc. get m k = Some v \<Longrightarrow> ok acc \<Longrightarrow> ok (f k v acc)"
  shows "ok (fold (\<lambda>k acc. case get m k of Some v \<Rightarrow> f k v acc | None \<Rightarrow> acc) (keys m) empty)"
  by (rule fold_invariant_elem) (auto intro: ok_empty assms split: option.split)

end

interpretation vm: map_interface vm_new vm_insert vm_remove vm_get "\<lambda>m. map fst (entries m)" vm_wf
  by unfold_locales (auto simp: vec_simps wf_intros dom_vm_get, simp add: vm_wf_def)

subsection \<open>The traversals of the vector code\<close>

lemma vs_scan_conj:
  "(\<And>x b. f x b \<longleftrightarrow> b \<and> P x) \<Longrightarrow> vs_scan s f b \<longleftrightarrow> b \<and> (\<forall>x \<in> set (items s). P x)"
  using vs.scan_conj [of s f P b] by (simp add: vs_scan_fold vs_contains_iff Ball_def)

lemma vm_scan_conj:
  "(\<And>k v b. f k v b \<longleftrightarrow> b \<and> P k v) \<Longrightarrow>
     vm_scan m f b \<longleftrightarrow> b \<and> (\<forall>k v. vm_get m k = Some v \<longrightarrow> P k v)"
  using vm.scan_conj [of m f P b] by (simp add: vm_scan_fold)

lemma vm_scan_disj:
  "(\<And>k v b. f k v b \<longleftrightarrow> b \<or> P k v) \<Longrightarrow>
     vm_scan m f b \<longleftrightarrow> b \<or> (\<exists>k v. vm_get m k = Some v \<and> P k v)"
  using vm.scan_disj [of m f P b] by (simp add: vm_scan_fold)

lemma vm_get_scan_rebuild:
  fixes m :: "('k, 'v) vec_map" and g :: "'k \<Rightarrow> 'v \<Rightarrow> 'v"
  assumes "\<And>k v acc. f k v acc = (if P k v then vm_insert acc k (g k v) else acc)"
  shows "vm_get (vm_scan m f vm_new) =
    (\<lambda>k. case vm_get m k of Some v \<Rightarrow> if P k v then Some (g k v) else None | None \<Rightarrow> None)"
  unfolding vm_scan_fold by (rule ext) (rule vm.get_rebuild [OF assms])

lemma vm_get_scan_filter [vec_simps]:
  "vm_get (vm_scan m (\<lambda>k v acc. if P k v then vm_insert acc k v else acc) vm_new) =
     (\<lambda>k. case vm_get m k of Some v \<Rightarrow> if P k v then Some v else None | None \<Rightarrow> None)"
  by (rule vm_get_scan_rebuild [where g = "\<lambda>k v. v"]) simp

lemma vm_get_scan_map [vec_simps]:
  fixes m :: "('k, 'v) vec_map" and g :: "'k \<Rightarrow> 'v \<Rightarrow> 'v"
  shows "vm_get (vm_scan m (\<lambda>k v acc. vm_insert acc k (g k v)) vm_new) = (\<lambda>k. map_option (g k) (vm_get m k))"
  using vm_get_scan_rebuild [where P = "\<lambda>k v. True" and g = g and m = m]
  by (simp add: fun_eq_iff split: option.split)

lemma vm_wf_scan:
  fixes m :: "('k, 'v) vec_map" and f :: "'k \<Rightarrow> 'v \<Rightarrow> ('k, 'v) vec_map \<Rightarrow> ('k, 'v) vec_map"
  assumes "\<And>k v acc. vm_wf acc \<Longrightarrow> vm_wf (f k v acc)"
  shows "vm_wf (vm_scan m f vm_new)"
  unfolding vm_scan_fold by (rule vm.ok_scan) (rule assms)

lemma vm_all_values_scan:
  assumes "vm_all_values P m" and "\<And>k v acc. P v \<Longrightarrow> vm_all_values P acc \<Longrightarrow> vm_all_values P (f k v acc)"
  shows "vm_all_values P (vm_scan m f vm_new)"
  unfolding vm_scan_fold
  by (rule fold_invariant_elem)
    (auto intro: assms vm_all_values_new vm_all_values_get split: option.split)

lemma set_items_union_with [vec_simps]:
  "set (items (vs_union_with s t)) = set (items s) \<union> set (items t)"
  using vs.has_bulk_add [of "items t" s] by (auto simp: vs_union_with_fold vs_contains_iff)

lemma set_items_from_iter [vec_simps]: "set (items (vs_from_iter xs)) = set xs"
  using vs.has_bulk_add [of xs vs_new] by (auto simp: vs_from_iter_def vs_contains_iff)

lemma vs_wf_from_iter [wf_intros]: "vs_wf (vs_from_iter xs)"
  by (simp add: vs_from_iter_def vs.ok_bulk_add wf_intros)

lemma vs_wf_union_with [wf_intros]: "vs_wf s \<Longrightarrow> vs_wf (vs_union_with s t)"
  by (simp add: vs_union_with_fold vs.ok_bulk_add)

end
