(* ===== verification/Kernel_Types.thy ===== *)
theory Kernel_Types
  imports Vec_Collections "HOL-Library.Word"
begin

text \<open>
  The data model of \<open>argus-kernel\<close>: identities, the two security lattices, verdicts and
  modes, frozen policies, pending invocations, challenges, evidence and crossing requests
  (\<open>types.rs\<close>), and the capability vocabulary (\<open>capability.rs\<close>). A Rust \<open>String\<close> is its
  UTF-8 byte sequence, here a \<^typ>\<open>string\<close> (a HOL character is one byte); \<open>u32\<close> is
  \<open>32 word\<close>. Constructor and field names that occur in more than one Rust type carry the
  initials of their type.
\<close>

type_synonym u16 = "16 word"
type_synonym u32 = "32 word"
type_synonym u64 = "64 word"

subsection \<open>Identities\<close>

datatype agent_id = AgentId (agent_str: string)
datatype tool_id = ToolId (tool_str: string)
datatype invocation_id = InvocationId (inv_str: string)
datatype challenge_id = ChallengeId (challenge_str: string)
datatype attestation_id = AttestationId (att_str: string)
datatype crossing_id = CrossingId (crossing_str: string)
datatype assignment_digest = AssignmentDigest (assignment_str: string)
datatype policy_digest_t = PolicyDigest (policy_str: string)
datatype content_hash = ContentHash (hash_str: string)

definition root_id :: agent_id where
  "root_id = AgentId ''root''"

subsection \<open>The lattices\<close>

datatype conf_level = Public | Internal | Sensitive | Restricted

fun conf_rank :: "conf_level \<Rightarrow> nat" where
  "conf_rank Public = 0"
| "conf_rank Internal = 1"
| "conf_rank Sensitive = 2"
| "conf_rank Restricted = 3"

definition conf_le :: "conf_level \<Rightarrow> conf_level \<Rightarrow> bool" where
  "conf_le a b \<longleftrightarrow> conf_rank a \<le> conf_rank b"

fun conf_display :: "conf_level \<Rightarrow> string" where
  "conf_display Public = ''public''"
| "conf_display Internal = ''internal''"
| "conf_display Sensitive = ''sensitive''"
| "conf_display Restricted = ''restricted''"

datatype integ_level = Untrusted | Standard | Trusted | Attested

fun integ_rank :: "integ_level \<Rightarrow> nat" where
  "integ_rank Untrusted = 0"
| "integ_rank Standard = 1"
| "integ_rank Trusted = 2"
| "integ_rank Attested = 3"

definition integ_le :: "integ_level \<Rightarrow> integ_level \<Rightarrow> bool" where
  "integ_le a b \<longleftrightarrow> integ_rank a \<le> integ_rank b"

fun integ_display :: "integ_level \<Rightarrow> string" where
  "integ_display Untrusted = ''untrusted''"
| "integ_display Standard = ''standard''"
| "integ_display Trusted = ''trusted''"
| "integ_display Attested = ''attested''"

text \<open>\<open>impl Ord\<close> of both levels compares ranks: they are linear orders.\<close>

lemma conf_rank_inj: "conf_rank a = conf_rank b \<longleftrightarrow> a = b"
  by (cases a; cases b) simp_all

lemma integ_rank_inj: "integ_rank a = integ_rank b \<longleftrightarrow> a = b"
  by (cases a; cases b) simp_all

instantiation conf_level :: linorder
begin

definition less_eq_conf_level :: "conf_level \<Rightarrow> conf_level \<Rightarrow> bool" where
  "less_eq_conf_level a b \<longleftrightarrow> conf_rank a \<le> conf_rank b"

definition less_conf_level :: "conf_level \<Rightarrow> conf_level \<Rightarrow> bool" where
  "less_conf_level a b \<longleftrightarrow> conf_rank a < conf_rank b"

instance
  by standard (auto simp: less_eq_conf_level_def less_conf_level_def conf_rank_inj [symmetric])

end

instantiation integ_level :: linorder
begin

definition less_eq_integ_level :: "integ_level \<Rightarrow> integ_level \<Rightarrow> bool" where
  "less_eq_integ_level a b \<longleftrightarrow> integ_rank a \<le> integ_rank b"

definition less_integ_level :: "integ_level \<Rightarrow> integ_level \<Rightarrow> bool" where
  "less_integ_level a b \<longleftrightarrow> integ_rank a < integ_rank b"

instance
  by standard (auto simp: less_eq_integ_level_def less_integ_level_def integ_rank_inj [symmetric])

end

lemma conf_le_iff [check_simps]: "conf_le a b \<longleftrightarrow> a \<le> b"
  by (simp add: conf_le_def less_eq_conf_level_def)

lemma integ_le_iff [check_simps]: "integ_le a b \<longleftrightarrow> a \<le> b"
  by (simp add: integ_le_def less_eq_integ_level_def)

lemma conf_level_UNIV: "(UNIV :: conf_level set) = {Public, Internal, Sensitive, Restricted}"
  using conf_level.exhaust by auto

lemma integ_level_UNIV: "(UNIV :: integ_level set) = {Untrusted, Standard, Trusted, Attested}"
  using integ_level.exhaust by auto

instance conf_level :: finite
  by standard (simp add: conf_level_UNIV)

instance integ_level :: finite
  by standard (simp add: integ_level_UNIV)

subsection \<open>Egress channels and capabilities\<close>

datatype egress_kind = EgNetworkExternal | EgNetworkInternal | EgFilesystemWrite | EgIpc

fun egress_display :: "egress_kind \<Rightarrow> string" where
  "egress_display EgNetworkExternal = ''network_external''"
| "egress_display EgNetworkInternal = ''network_internal''"
| "egress_display EgFilesystemWrite = ''filesystem_write''"
| "egress_display EgIpc = ''ipc''"

lemma egress_kind_UNIV:
  "(UNIV :: egress_kind set) = {EgNetworkExternal, EgNetworkInternal, EgFilesystemWrite, EgIpc}"
  using egress_kind.exhaust by auto

instance egress_kind :: finite
  by standard (simp add: egress_kind_UNIV)

datatype cap_kind =
    CapFilesystemRead | CapFilesystemWrite | CapFilesystemDelete | CapNetworkEgress
  | CapNetworkIngress | CapExecutionShell | CapExecutionCode | CapCredentials | CapSystemInfo
  | CapSystemModify | CapClipboard | CapBrowserNavigate | CapDatabaseRead | CapDatabaseWrite
  | CapIpc

definition cap_all :: "cap_kind list" where
  "cap_all =
     [CapFilesystemRead, CapFilesystemWrite, CapFilesystemDelete, CapNetworkEgress,
      CapNetworkIngress, CapExecutionShell, CapExecutionCode, CapCredentials, CapSystemInfo,
      CapSystemModify, CapClipboard, CapBrowserNavigate, CapDatabaseRead, CapDatabaseWrite,
      CapIpc]"

fun cap_as_str :: "cap_kind \<Rightarrow> string" where
  "cap_as_str CapFilesystemRead = ''filesystem_read''"
| "cap_as_str CapFilesystemWrite = ''filesystem_write''"
| "cap_as_str CapFilesystemDelete = ''filesystem_delete''"
| "cap_as_str CapNetworkEgress = ''network_egress''"
| "cap_as_str CapNetworkIngress = ''network_ingress''"
| "cap_as_str CapExecutionShell = ''execution_shell''"
| "cap_as_str CapExecutionCode = ''execution_code''"
| "cap_as_str CapCredentials = ''credentials''"
| "cap_as_str CapSystemInfo = ''system_info''"
| "cap_as_str CapSystemModify = ''system_modify''"
| "cap_as_str CapClipboard = ''clipboard''"
| "cap_as_str CapBrowserNavigate = ''browser_navigate''"
| "cap_as_str CapDatabaseRead = ''database_read''"
| "cap_as_str CapDatabaseWrite = ''database_write''"
| "cap_as_str CapIpc = ''ipc''"

definition cap_from_catalog_name :: "string \<Rightarrow> cap_kind option" where
  "cap_from_catalog_name s =
     (if s = ''filesystem_read'' then Some CapFilesystemRead
      else if s = ''filesystem_write'' then Some CapFilesystemWrite
      else if s = ''filesystem_delete'' then Some CapFilesystemDelete
      else if s = ''network_egress'' then Some CapNetworkEgress
      else if s = ''network_ingress'' then Some CapNetworkIngress
      else if s = ''execution_shell'' then Some CapExecutionShell
      else if s = ''execution_code'' then Some CapExecutionCode
      else if s = ''credentials'' then Some CapCredentials
      else if s = ''system_info'' then Some CapSystemInfo
      else if s = ''system_modify'' then Some CapSystemModify
      else if s = ''clipboard'' then Some CapClipboard
      else if s = ''browser_navigate'' then Some CapBrowserNavigate
      else if s = ''database_read'' then Some CapDatabaseRead
      else if s = ''database_write'' then Some CapDatabaseWrite
      else if s = ''ipc'' then Some CapIpc
      else None)"

lemma cap_kind_UNIV: "(UNIV :: cap_kind set) = set cap_all"
  by (auto simp: cap_all_def) (metis cap_kind.exhaust)

instance cap_kind :: finite
  by standard (simp add: cap_kind_UNIV)

lemma distinct_cap_all: "distinct cap_all"
  by (simp add: cap_all_def)

record domain_port =
  dp_host :: string
  dp_port :: u16

datatype net_scope =
    NetBlocked
  | EgressOnly
  | EgressWithPorts "u16 list"
  | EgressWithDomains "domain_port list"
  | NetUnrestricted

datatype scope =
    ScopeFilesystem "string list"
  | ScopeNetwork net_scope
  | ScopeExecution "string list"
  | ScopeNone

subsection \<open>Verdicts, modes and outcomes\<close>

datatype verdict = Allow | InspectionRequired | Deny
datatype disposition = Permitted | Blocked | MonitorBypassed
datatype enforcement_mode = Enforce | Monitor
datatype outcome = Success | Failure | Ambiguous
datatype fallback = FbFail | ReleaseUnendorsed
datatype admission_kind = Plain | Inspected attestation_id | Bypassed
datatype cross_branch = Endorsed | Unendorsed | BrFail

record crossing_grant =
  remaining :: u32
  provisioned :: u32

record crossing_key =
  ck_agent :: agent_id
  ck_assignment :: assignment_digest

subsection \<open>Policies, pending invocations and challenges\<close>

record action_policy_snapshot =
  aps_tool :: tool_id
  required_caps :: "cap_kind vec_set"
  conf_clearance :: conf_level
  integ_floor :: integ_level
  integ_inspect :: integ_level
  output_conf :: conf_level
  output_integ :: integ_level
  declared_egress :: "egress_kind vec_set"
  policy_digest :: policy_digest_t

record pending_invocation =
  pi_agent :: agent_id
  pi_policy :: action_policy_snapshot
  pi_egress :: "egress_kind vec_set"
  admission :: admission_kind
  disposition_of :: disposition
  pi_authorized :: bool
  quarantined :: bool

definition contained :: "pending_invocation \<Rightarrow> bool" where
  "contained j \<longleftrightarrow> disposition_of j = Permitted"

definition vouched :: "pending_invocation \<Rightarrow> bool" where
  "vouched j \<longleftrightarrow> (case admission j of Inspected _ \<Rightarrow> True | _ \<Rightarrow> False)"

record challenge_scope =
  cs_challenge :: challenge_id
  cs_agent :: agent_id
  cs_policy :: action_policy_snapshot
  cs_egress :: "egress_kind vec_set"
  cs_args_hash :: content_hash
  cs_authorized :: bool

subsection \<open>Evidence and crossing requests\<close>

record resolution_attestation =
  ra_id :: attestation_id
  ra_inv :: invocation_id
  ra_outcome :: outcome

record inspection_attestation =
  ia_id :: attestation_id
  ia_inv :: invocation_id
  ia_challenge :: challenge_id
  ia_args_hash :: content_hash
  ia_policy_digest :: policy_digest_t
  ia_positive :: bool

record conformance_attestation =
  ca_id :: attestation_id
  ca_output :: content_hash
  ca_src :: agent_id
  ca_rcv :: agent_id
  ca_descriptor :: content_hash
  ca_assignment :: assignment_digest
  ca_positive :: bool

record cross_input =
  x_src :: agent_id
  x_rcv :: agent_id
  x_crossing :: crossing_id
  x_output_hash :: content_hash
  x_descriptor :: content_hash
  x_fallback :: fallback
  t_integ :: integ_level
  t_conf :: "conf_level option"
  x_assignment :: assignment_digest
  x_evidence :: "conformance_attestation option"
  released_conf :: conf_level
  released_integ :: integ_level

text \<open>The inner sets of frozen records keep their elements unique.\<close>

definition policy_wf :: "action_policy_snapshot \<Rightarrow> bool" where
  "policy_wf p \<longleftrightarrow> vs_wf (required_caps p) \<and> vs_wf (declared_egress p)"

definition pending_wf :: "pending_invocation \<Rightarrow> bool" where
  "pending_wf j \<longleftrightarrow> policy_wf (pi_policy j) \<and> vs_wf (pi_egress j)"

definition challenge_wf :: "challenge_scope \<Rightarrow> bool" where
  "challenge_wf c \<longleftrightarrow> policy_wf (cs_policy c) \<and> vs_wf (cs_egress c)"

subsection \<open>Facts on the vocabulary\<close>

lemma cap_from_catalog_as_str: "cap_from_catalog_name (cap_as_str c) = Some c"
  by (cases c) (simp_all add: cap_from_catalog_name_def)

lemma cap_as_str_from_catalog: "cap_from_catalog_name s = Some c \<Longrightarrow> cap_as_str c = s"
  by (auto simp: cap_from_catalog_name_def split: if_splits)

text \<open>
  The catalog names are a bijection between the fifteen capabilities and the strings the parser
  accepts: printing then parsing gives the capability back, and only its own name parses to it.
\<close>

lemma cap_catalog_roundtrip: "cap_from_catalog_name s = Some c \<longleftrightarrow> s = cap_as_str c"
  using cap_from_catalog_as_str cap_as_str_from_catalog by blast

lemma vouched_iff [check_simps]: "vouched j \<longleftrightarrow> (\<exists>a. admission j = Inspected a)"
  by (simp add: vouched_def split: admission_kind.split)

end
