(* ===== verification/Kernel_Events.thy ===== *)
theory Kernel_Events
  imports Kernel_Types
begin

text \<open>
  The rejection reasons of \<open>error.rs\<close> and the recorded actions and events of
  \<open>event.rs\<close>.
\<close>

datatype kernel_error =
    ToolAlreadyRegistered | ToolNotRegistered | ToolInUse
  | AgentInactive | AgentAlreadyActive | RootNotAllowed | NotDirectChild | ParentStillActive
  | AgentHasChildren | CapabilityMissing | NotRoot
  | InvocationExists | InvocationReplayed | NotPending | EgressNotNarrowing | EgressNotCovering
  | IncoherentPolicy | ChallengeAlreadyOpen
  | ClearanceDenied | FlowGateBlocked | AuthorizerDenied | IntegrityFloorDenied | PairwiseConflict
  | ChallengeNotOpen | ChallengeScopeMismatch | AttestationConsumed | InspectionNegative
  | BlockedPending | NotQuarantined | QuarantineResolutionRequired | ResolutionAttestationInvalid
  | IngestHoldFailed | ProvenanceNotDominated
  | CrossingReplayed | GrantMissing | GrantExhausted | SourceInFlight | CrossingBoundViolated
  | CrossingHoldFailed
  | EventStoreError

text \<open>
  The fields of each action stand in the order of the source's variant.
\<close>

datatype kernel_action =
    ActRegisterTool tool_id
  | ActUnregisterTool tool_id
  | ActDelegate agent_id agent_id
  | ActGrantCapability agent_id agent_id cap_kind
  | ActGrantCrossing agent_id agent_id assignment_digest u32
  | ActRevoke agent_id agent_id
  | ActCascadeRevoke agent_id agent_id
  | ActIngest agent_id "agent_id option" conf_level integ_level disposition
  | ActSettleInvocation invocation_id agent_id disposition outcome conf_level integ_level
      "attestation_id option"
  | ActBeginInvocation agent_id invocation_id tool_id verdict bool
  | ActAuthorizeInspected invocation_id attestation_id bool
  | ActCrossOutput agent_id agent_id crossing_id cross_branch disposition

record kernel_event =
  ev_sequence :: u64
  ev_action :: kernel_action

definition kernel_event_new :: "u64 \<Rightarrow> kernel_action \<Rightarrow> kernel_event" where
  "kernel_event_new n a = \<lparr>ev_sequence = n, ev_action = a\<rparr>"

end
