(* ===== verification/Kernel_Background.thy ===== *)
theory Kernel_Background
  imports Kernel_Events
begin

text \<open>
  The immutable governed background of \<open>background.rs\<close>: the two per-channel
  confidentiality ceilings, the enforcement mode and the root identity, and the builder that
  makes one.
\<close>

record background_theory =
  allow_ceiling :: "(egress_kind, conf_level) vec_map"
  inspect_ceiling :: "(egress_kind, conf_level) vec_map"
  bg_mode :: enforcement_mode
  root_agent :: agent_id

definition flow_allows :: "background_theory \<Rightarrow> conf_level \<Rightarrow> egress_kind \<Rightarrow> bool" where
  "flow_allows bg level egress =
     (case vm_get_cloned (allow_ceiling bg) egress of Some c \<Rightarrow> conf_le level c | None \<Rightarrow> False)"

definition flow_inspects :: "background_theory \<Rightarrow> conf_level \<Rightarrow> egress_kind \<Rightarrow> bool" where
  "flow_inspects bg level egress =
     (case vm_get_cloned (inspect_ceiling bg) egress of Some c \<Rightarrow> conf_le level c | None \<Rightarrow> False)"

record background_builder =
  bb_allow_ceiling :: "(egress_kind, conf_level) vec_map"
  bb_inspect_ceiling :: "(egress_kind, conf_level) vec_map"
  bb_mode :: enforcement_mode
  bb_root_agent :: agent_id

definition builder_new :: background_builder where
  "builder_new =
     \<lparr>bb_allow_ceiling = vm_new, bb_inspect_ceiling = vm_new, bb_mode = Enforce,
      bb_root_agent = root_id\<rparr>"

definition set_egress_ceilings ::
  "background_builder \<Rightarrow> egress_kind \<Rightarrow> conf_level option \<Rightarrow> conf_level option \<Rightarrow>
   background_builder" where
  "set_egress_ceilings b egress allow inspect =
     (let b = (case allow of
           Some c \<Rightarrow> b\<lparr>bb_allow_ceiling := vm_insert (bb_allow_ceiling b) egress c\<rparr>
         | None \<Rightarrow> b\<lparr>bb_allow_ceiling := vm_remove (bb_allow_ceiling b) egress\<rparr>)
      in (case inspect of
           Some c \<Rightarrow> b\<lparr>bb_inspect_ceiling := vm_insert (bb_inspect_ceiling b) egress c\<rparr>
         | None \<Rightarrow> b\<lparr>bb_inspect_ceiling := vm_remove (bb_inspect_ceiling b) egress\<rparr>))"

definition set_mode :: "background_builder \<Rightarrow> enforcement_mode \<Rightarrow> background_builder" where
  "set_mode b m = b\<lparr>bb_mode := m\<rparr>"

definition set_root_agent :: "background_builder \<Rightarrow> agent_id \<Rightarrow> background_builder" where
  "set_root_agent b root = b\<lparr>bb_root_agent := root\<rparr>"

definition builder_build :: "background_builder \<Rightarrow> background_theory" where
  "builder_build b =
     \<lparr>allow_ceiling = bb_allow_ceiling b, inspect_ceiling = bb_inspect_ceiling b,
      bg_mode = bb_mode b, root_agent = bb_root_agent b\<rparr>"

lemma flow_allows_iff:
  "flow_allows bg l e \<longleftrightarrow> (\<exists>c. vm_get (allow_ceiling bg) e = Some c \<and> l \<le> c)"
  by (auto simp: flow_allows_def conf_le_iff split: option.splits)

lemma flow_inspects_iff:
  "flow_inspects bg l e \<longleftrightarrow> (\<exists>c. vm_get (inspect_ceiling bg) e = Some c \<and> l \<le> c)"
  by (auto simp: flow_inspects_def conf_le_iff split: option.splits)

text \<open>
  The gates are downward closed in the level, and what the builder stored last for a channel is
  what its gates read; no ceiling denies every level.
\<close>

lemma flow_allows_antimono: "flow_allows bg l e \<Longrightarrow> l' \<le> l \<Longrightarrow> flow_allows bg l' e"
  by (auto simp: flow_allows_iff)

lemma flow_inspects_antimono: "flow_inspects bg l e \<Longrightarrow> l' \<le> l \<Longrightarrow> flow_inspects bg l' e"
  by (auto simp: flow_inspects_iff)

lemma flow_gates_set_egress_ceilings:
  "flow_allows (builder_build (set_egress_ceilings b e allow inspect)) l e' \<longleftrightarrow>
     (if e' = e then (\<exists>c. allow = Some c \<and> l \<le> c) else flow_allows (builder_build b) l e')"
  "flow_inspects (builder_build (set_egress_ceilings b e allow inspect)) l e' \<longleftrightarrow>
     (if e' = e then (\<exists>c. inspect = Some c \<and> l \<le> c) else flow_inspects (builder_build b) l e')"
  by (auto simp: flow_allows_iff flow_inspects_iff builder_build_def set_egress_ceilings_def Let_def
      vec_simps split: option.splits)

end
