(* ===== verification/Kernel_State.thy ===== *)
theory Kernel_State
  imports Kernel_Background
begin

text \<open>
  The mutable kernel state of \<open>state.rs\<close> with its helper operations: the initial state, the
  speculative label sets, and the rebuild loops that drop or demote what an agent owns.
\<close>

definition STATE_VERSION :: u32 where
  "STATE_VERSION = 5"

record kernel_state =
  agent_active :: "agent_id vec_set"
  agent_parent :: "(agent_id, agent_id) vec_map"
  agent_cap :: "(agent_id, cap_kind vec_set) vec_map"
  taint_levels :: "(agent_id, conf_level vec_set) vec_map"
  integ_levels :: "(agent_id, integ_level vec_set) vec_map"
  pending :: "(invocation_id, pending_invocation) vec_map"
  challenges :: "(invocation_id, challenge_scope) vec_map"
  consumed_ids :: "invocation_id vec_set"
  consumed_attestations :: "attestation_id vec_set"
  consumed_crossings :: "crossing_id vec_set"
  crossing_grants :: "(crossing_key, crossing_grant) vec_map"
  tool_registered :: "tool_id vec_set"

definition initial_state :: kernel_state where
  "initial_state =
     (let root = root_id;
          all_caps = index_loop (length cap_all) (\<lambda>i caps. vs_insert caps (cap_all ! i)) 0 vs_new
      in \<lparr>agent_active = vs_insert vs_new root,
          agent_parent = vm_new,
          agent_cap = vm_insert vm_new root all_caps,
          taint_levels = vm_new,
          integ_levels = vm_new,
          pending = vm_new,
          challenges = vm_new,
          consumed_ids = vs_new,
          consumed_attestations = vs_new,
          consumed_crossings = vs_new,
          crossing_grants = vm_new,
          tool_registered = vs_new\<rparr>)"

definition speculative_taint :: "kernel_state \<Rightarrow> agent_id \<Rightarrow> conf_level vec_set" where
  "speculative_taint s a =
     vm_scan (pending s)
       (\<lambda>inv j taint. if pi_agent j = a then vs_insert taint (output_conf (pi_policy j)) else taint)
       (vm_get_set_or_empty (taint_levels s) a)"

definition speculative_integ :: "kernel_state \<Rightarrow> agent_id \<Rightarrow> integ_level vec_set" where
  "speculative_integ s a =
     vm_scan (pending s)
       (\<lambda>inv j integ. if pi_agent j = a then vs_insert integ (output_integ (pi_policy j)) else integ)
       (vm_get_set_or_empty (integ_levels s) a)"

definition speculative_taint_contained :: "kernel_state \<Rightarrow> agent_id \<Rightarrow> conf_level vec_set" where
  "speculative_taint_contained s a =
     vm_scan (pending s)
       (\<lambda>inv j taint. if pi_agent j = a \<and> contained j
          then vs_insert taint (output_conf (pi_policy j)) else taint)
       (vm_get_set_or_empty (taint_levels s) a)"

definition drop_pending_of :: "kernel_state \<Rightarrow> agent_id \<Rightarrow> kernel_state" where
  "drop_pending_of s a = s\<lparr>pending :=
     vm_scan (pending s)
       (\<lambda>inv j kept. if pi_agent j \<noteq> a then vm_insert kept inv j else kept) vm_new\<rparr>"

definition drop_challenges_of :: "kernel_state \<Rightarrow> agent_id \<Rightarrow> kernel_state" where
  "drop_challenges_of s a = s\<lparr>challenges :=
     vm_scan (challenges s)
       (\<lambda>inv sc kept. if cs_agent sc \<noteq> a then vm_insert kept inv sc else kept) vm_new\<rparr>"

definition demote_all_of :: "kernel_state \<Rightarrow> agent_id \<Rightarrow> kernel_state" where
  "demote_all_of s a = s\<lparr>pending :=
     vm_scan (pending s)
       (\<lambda>inv j rebuilt.
          let j = (if pi_agent j = a then j\<lparr>disposition_of := MonitorBypassed\<rparr> else j)
          in vm_insert rebuilt inv j) vm_new\<rparr>"

text \<open>
  \<open>remaining - 1\<close> is \<open>u32\<close> subtraction (wrapping in release builds); that it never wraps is
  shown with the crossing transition.
\<close>

definition decrement_grant_at :: "kernel_state \<Rightarrow> agent_id \<Rightarrow> assignment_digest \<Rightarrow> kernel_state" where
  "decrement_grant_at s a d =
     (let key = \<lparr>ck_agent = a, ck_assignment = d\<rparr> in
      case vm_get_cloned (crossing_grants s) key of
        Some g \<Rightarrow> s\<lparr>crossing_grants := vm_insert (crossing_grants s) key
          \<lparr>remaining = remaining g - 1, provisioned = provisioned g\<rparr>\<rparr>
      | None \<Rightarrow> s)"

definition drop_grants_of :: "kernel_state \<Rightarrow> agent_id \<Rightarrow> kernel_state" where
  "drop_grants_of s a = s\<lparr>crossing_grants :=
     vm_scan (crossing_grants s)
       (\<lambda>key g kept. if ck_agent key \<noteq> a then vm_insert kept key g else kept) vm_new\<rparr>"

text \<open>
  The uniqueness invariant that every collection of the state keeps: keys and elements occur once,
  in the outer collections and in the sets frozen inside records.
\<close>

definition state_wf :: "kernel_state \<Rightarrow> bool" where
  "state_wf s \<longleftrightarrow>
     vs_wf (agent_active s) \<and> vm_wf (agent_parent s) \<and> vm_sets_wf (agent_cap s) \<and>
     vm_sets_wf (taint_levels s) \<and> vm_sets_wf (integ_levels s) \<and>
     vm_wf (pending s) \<and> vm_all_values pending_wf (pending s) \<and>
     vm_wf (challenges s) \<and> vm_all_values challenge_wf (challenges s) \<and>
     vs_wf (consumed_ids s) \<and> vs_wf (consumed_attestations s) \<and> vs_wf (consumed_crossings s) \<and>
     vm_wf (crossing_grants s) \<and> vs_wf (tool_registered s)"

subsection \<open>What the helpers read and write\<close>

lemma set_items_scan_insert:
  "set (items (vm_scan m (\<lambda>k v acc. if P k v then vs_insert acc (g v) else acc) acc)) =
     set (items acc) \<union> {g v | k v. vm_get m k = Some v \<and> P k v}"
proof -
  have "set (items (fold (\<lambda>k acc. case vm_get m k of
        Some v \<Rightarrow> if P k v then vs_insert acc (g v) else acc | None \<Rightarrow> acc) ks acc)) =
      set (items acc) \<union> {g v | k v. k \<in> set ks \<and> vm_get m k = Some v \<and> P k v}" for ks
    by (induction ks arbitrary: acc) (auto simp: vec_simps split: option.split)
  from this [of "map fst (entries m)"] show ?thesis
    by (auto simp: vm_scan_fold) (metis (no_types, lifting) domI dom_vm_get image_iff)
qed

lemma set_speculative_taint [check_simps]:
  "set (items (speculative_taint s a)) =
     vm_elems (taint_levels s) a \<union>
     {output_conf (pi_policy j) | inv j. vm_get (pending s) inv = Some j \<and> pi_agent j = a}"
  by (auto simp: speculative_taint_def set_items_scan_insert vec_simps)

lemma set_speculative_integ [check_simps]:
  "set (items (speculative_integ s a)) =
     vm_elems (integ_levels s) a \<union>
     {output_integ (pi_policy j) | inv j. vm_get (pending s) inv = Some j \<and> pi_agent j = a}"
  by (auto simp: speculative_integ_def set_items_scan_insert vec_simps)

lemma set_speculative_taint_contained [check_simps]:
  "set (items (speculative_taint_contained s a)) =
     vm_elems (taint_levels s) a \<union>
     {output_conf (pi_policy j) | inv j.
        vm_get (pending s) inv = Some j \<and> pi_agent j = a \<and> contained j}"
  by (auto simp: speculative_taint_contained_def set_items_scan_insert vec_simps)

lemma vm_get_drop_pending_of [abs_simps]:
  "vm_get (pending (drop_pending_of s a)) =
     (\<lambda>inv. case vm_get (pending s) inv of
        Some j \<Rightarrow> if pi_agent j \<noteq> a then Some j else None | None \<Rightarrow> None)"
  by (simp add: drop_pending_of_def vec_simps)

lemma vm_get_drop_challenges_of [abs_simps]:
  "vm_get (challenges (drop_challenges_of s a)) =
     (\<lambda>inv. case vm_get (challenges s) inv of
        Some c \<Rightarrow> if cs_agent c \<noteq> a then Some c else None | None \<Rightarrow> None)"
  by (simp add: drop_challenges_of_def vec_simps)

lemma vm_get_drop_grants_of [abs_simps]:
  "vm_get (crossing_grants (drop_grants_of s a)) =
     (\<lambda>key. if ck_agent key \<noteq> a then vm_get (crossing_grants s) key else None)"
  by (simp add: drop_grants_of_def vec_simps fun_eq_iff split: option.split)

definition demote :: "pending_invocation \<Rightarrow> pending_invocation" where
  "demote j = j\<lparr>disposition_of := MonitorBypassed\<rparr>"

lemma vm_get_demote_all_of [abs_simps]:
  "vm_get (pending (demote_all_of s a)) =
     (\<lambda>inv. map_option (\<lambda>j. if pi_agent j = a then demote j else j) (vm_get (pending s) inv))"
  unfolding demote_def by (simp add: demote_all_of_def Let_def vec_simps)

lemma vm_get_decrement_grant_at [abs_simps]:
  "vm_get (crossing_grants (decrement_grant_at s a d)) =
     (let key = \<lparr>ck_agent = a, ck_assignment = d\<rparr> in
      (case vm_get (crossing_grants s) key of
        Some g \<Rightarrow> (vm_get (crossing_grants s))(key \<mapsto> g\<lparr>remaining := remaining g - 1\<rparr>)
      | None \<Rightarrow> vm_get (crossing_grants s)))"
  by (auto simp: decrement_grant_at_def Let_def vec_simps split: option.split)

text \<open>Each helper writes one field only.\<close>

lemma helper_frames [simp]:
  "agent_active (drop_pending_of s a) = agent_active s"
  "agent_parent (drop_pending_of s a) = agent_parent s"
  "agent_cap (drop_pending_of s a) = agent_cap s"
  "taint_levels (drop_pending_of s a) = taint_levels s"
  "integ_levels (drop_pending_of s a) = integ_levels s"
  "challenges (drop_pending_of s a) = challenges s"
  "consumed_ids (drop_pending_of s a) = consumed_ids s"
  "consumed_attestations (drop_pending_of s a) = consumed_attestations s"
  "consumed_crossings (drop_pending_of s a) = consumed_crossings s"
  "crossing_grants (drop_pending_of s a) = crossing_grants s"
  "tool_registered (drop_pending_of s a) = tool_registered s"
  "agent_active (drop_challenges_of s a) = agent_active s"
  "agent_parent (drop_challenges_of s a) = agent_parent s"
  "agent_cap (drop_challenges_of s a) = agent_cap s"
  "taint_levels (drop_challenges_of s a) = taint_levels s"
  "integ_levels (drop_challenges_of s a) = integ_levels s"
  "pending (drop_challenges_of s a) = pending s"
  "consumed_ids (drop_challenges_of s a) = consumed_ids s"
  "consumed_attestations (drop_challenges_of s a) = consumed_attestations s"
  "consumed_crossings (drop_challenges_of s a) = consumed_crossings s"
  "crossing_grants (drop_challenges_of s a) = crossing_grants s"
  "tool_registered (drop_challenges_of s a) = tool_registered s"
  "agent_active (drop_grants_of s a) = agent_active s"
  "agent_parent (drop_grants_of s a) = agent_parent s"
  "agent_cap (drop_grants_of s a) = agent_cap s"
  "taint_levels (drop_grants_of s a) = taint_levels s"
  "integ_levels (drop_grants_of s a) = integ_levels s"
  "pending (drop_grants_of s a) = pending s"
  "challenges (drop_grants_of s a) = challenges s"
  "consumed_ids (drop_grants_of s a) = consumed_ids s"
  "consumed_attestations (drop_grants_of s a) = consumed_attestations s"
  "consumed_crossings (drop_grants_of s a) = consumed_crossings s"
  "tool_registered (drop_grants_of s a) = tool_registered s"
  "agent_active (demote_all_of s a) = agent_active s"
  "agent_parent (demote_all_of s a) = agent_parent s"
  "agent_cap (demote_all_of s a) = agent_cap s"
  "taint_levels (demote_all_of s a) = taint_levels s"
  "integ_levels (demote_all_of s a) = integ_levels s"
  "challenges (demote_all_of s a) = challenges s"
  "consumed_ids (demote_all_of s a) = consumed_ids s"
  "consumed_attestations (demote_all_of s a) = consumed_attestations s"
  "consumed_crossings (demote_all_of s a) = consumed_crossings s"
  "crossing_grants (demote_all_of s a) = crossing_grants s"
  "tool_registered (demote_all_of s a) = tool_registered s"
  "agent_active (decrement_grant_at s a d) = agent_active s"
  "agent_parent (decrement_grant_at s a d) = agent_parent s"
  "agent_cap (decrement_grant_at s a d) = agent_cap s"
  "taint_levels (decrement_grant_at s a d) = taint_levels s"
  "integ_levels (decrement_grant_at s a d) = integ_levels s"
  "pending (decrement_grant_at s a d) = pending s"
  "challenges (decrement_grant_at s a d) = challenges s"
  "consumed_ids (decrement_grant_at s a d) = consumed_ids s"
  "consumed_attestations (decrement_grant_at s a d) = consumed_attestations s"
  "consumed_crossings (decrement_grant_at s a d) = consumed_crossings s"
  "tool_registered (decrement_grant_at s a d) = tool_registered s"
  by (simp_all add: drop_pending_of_def drop_challenges_of_def drop_grants_of_def
      demote_all_of_def decrement_grant_at_def Let_def split: option.split)

end
