(* ===== verification/Transitions_Structural.thy ===== *)
theory Transitions_Structural
  imports Kernel_State
begin

text \<open>
  The structural transitions of \<open>transitions.rs\<close>: the tool registry, delegation, capability
  and crossing grants, and the two revocations. Every transition is a function from the state
  and its arguments to an error or a new state with the recorded action; the guards stand in the
  order of the source's early returns.
\<close>

type_synonym kernel_result = "kernel_error + kernel_state \<times> kernel_action"

definition register_tool :: "kernel_state \<Rightarrow> tool_id \<Rightarrow> kernel_result" where
  "register_tool s tool =
     (if vs_contains (tool_registered s) tool then Inl ToolAlreadyRegistered
      else Inr (s\<lparr>tool_registered := vs_insert (tool_registered s) tool\<rparr>, ActRegisterTool tool))"

definition unregister_tool :: "kernel_state \<Rightarrow> tool_id \<Rightarrow> kernel_result" where
  "unregister_tool s tool =
     (if \<not> vs_contains (tool_registered s) tool then Inl ToolNotRegistered
      else
        let in_use = vm_scan (pending s)
              (\<lambda>inv j in_use. if aps_tool (pi_policy j) = tool then True else in_use) False;
            in_use = vm_scan (challenges s)
              (\<lambda>inv sc in_use. if aps_tool (cs_policy sc) = tool then True else in_use) in_use
        in if in_use then Inl ToolInUse
           else Inr (s\<lparr>tool_registered := vs_remove (tool_registered s) tool\<rparr>,
                     ActUnregisterTool tool))"

definition delegate ::
  "kernel_state \<Rightarrow> background_theory \<Rightarrow> agent_id \<Rightarrow> agent_id \<Rightarrow> kernel_result" where
  "delegate s bg grantor grantee =
     (if \<not> vs_contains (agent_active s) grantor then Inl AgentInactive
      else if vs_contains (agent_active s) grantee then Inl AgentAlreadyActive
      else if grantee = root_agent bg then Inl RootNotAllowed
      else
        let is_parent = vm_scan (agent_parent s)
              (\<lambda>child p is_parent. if p = grantee then True else is_parent) False
        in if is_parent then Inl AgentHasChildren
        else
          let s = s\<lparr>agent_active := vs_insert (agent_active s) grantee\<rparr>;
              kept = vm_scan (agent_parent s)
                (\<lambda>child p kept. if child \<noteq> grantee \<and> p \<noteq> grantee
                   then vm_insert kept child p else kept) vm_new;
              kept = vm_insert kept grantee grantor;
              s = s\<lparr>agent_parent := kept\<rparr>;
              s = s\<lparr>agent_cap := vm_remove (agent_cap s) grantee\<rparr>;
              s = s\<lparr>taint_levels := vm_remove (taint_levels s) grantee\<rparr>;
              s = s\<lparr>integ_levels := vm_remove (integ_levels s) grantee\<rparr>;
              s = drop_pending_of s grantee;
              s = drop_challenges_of s grantee;
              s = drop_grants_of s grantee
          in Inr (s, ActDelegate grantor grantee))"

text \<open>\<open>s.agent_parent.get_cloned(&child)\<close> is the given parent.\<close>

definition parent_is :: "kernel_state \<Rightarrow> agent_id \<Rightarrow> agent_id \<Rightarrow> bool" where
  "parent_is s child parent =
     (case vm_get_cloned (agent_parent s) child of Some p \<Rightarrow> p = parent | None \<Rightarrow> False)"

definition grant_capability ::
  "kernel_state \<Rightarrow> agent_id \<Rightarrow> agent_id \<Rightarrow> cap_kind \<Rightarrow> kernel_result" where
  "grant_capability s parent child cap =
     (if \<not> vs_contains (agent_active s) parent then Inl AgentInactive
      else if \<not> vs_contains (agent_active s) child then Inl AgentInactive
      else if \<not> parent_is s child parent then Inl NotDirectChild
      else if \<not> vm_set_contains (agent_cap s) parent cap then Inl CapabilityMissing
      else Inr (s\<lparr>agent_cap := vm_insert_into (agent_cap s) child cap\<rparr>,
                ActGrantCapability parent child cap))"

definition grant_crossing ::
  "kernel_state \<Rightarrow> background_theory \<Rightarrow> agent_id \<Rightarrow> agent_id \<Rightarrow> assignment_digest \<Rightarrow> u32 \<Rightarrow>
   kernel_result" where
  "grant_crossing s bg grantor agent assignment n =
     (if grantor \<noteq> root_agent bg then Inl NotRoot
      else if \<not> vs_contains (agent_active s) grantor then Inl AgentInactive
      else if \<not> vs_contains (agent_active s) agent then Inl AgentInactive
      else
        let key = \<lparr>ck_agent = agent, ck_assignment = assignment\<rparr>
        in Inr (s\<lparr>crossing_grants := vm_insert (crossing_grants s) key
                    \<lparr>remaining = n, provisioned = n\<rparr>\<rparr>,
                ActGrantCrossing grantor agent assignment n))"

text \<open>The destruction set that both revocations share.\<close>

definition clear_agent :: "kernel_state \<Rightarrow> agent_id \<Rightarrow> kernel_state" where
  "clear_agent s agent =
     (let s = s\<lparr>agent_active := vs_remove (agent_active s) agent\<rparr>;
          s = s\<lparr>agent_parent := vm_remove (agent_parent s) agent\<rparr>;
          s = s\<lparr>agent_cap := vm_remove (agent_cap s) agent\<rparr>;
          s = s\<lparr>taint_levels := vm_remove (taint_levels s) agent\<rparr>;
          s = s\<lparr>integ_levels := vm_remove (integ_levels s) agent\<rparr>;
          s = drop_pending_of s agent;
          s = drop_challenges_of s agent
      in drop_grants_of s agent)"

definition revoke ::
  "kernel_state \<Rightarrow> background_theory \<Rightarrow> agent_id \<Rightarrow> agent_id \<Rightarrow> kernel_result" where
  "revoke s bg parent target =
     (if \<not> parent_is s target parent then Inl NotDirectChild
      else if \<not> vs_contains (agent_active s) parent then Inl AgentInactive
      else if \<not> vs_contains (agent_active s) target then Inl AgentInactive
      else if target = root_agent bg then Inl RootNotAllowed
      else Inr (clear_agent s target, ActRevoke parent target))"

definition cascade_revoke ::
  "kernel_state \<Rightarrow> background_theory \<Rightarrow> agent_id \<Rightarrow> agent_id \<Rightarrow> kernel_result" where
  "cascade_revoke s bg child parent =
     (if \<not> parent_is s child parent then Inl NotDirectChild
      else if vs_contains (agent_active s) parent then Inl ParentStillActive
      else if \<not> vs_contains (agent_active s) child then Inl AgentInactive
      else if child = root_agent bg then Inl RootNotAllowed
      else Inr (clear_agent s child, ActCascadeRevoke child parent))"

lemma parent_is_iff [check_simps]: "parent_is s c p \<longleftrightarrow> vm_get (agent_parent s) c = Some p"
  by (auto simp: parent_is_def split: option.splits)

lemma tool_in_pending_iff [check_simps]:
  "vm_scan (pending s) (\<lambda>inv j b. if aps_tool (pi_policy j) = t then True else b) b \<longleftrightarrow>
     b \<or> (\<exists>inv j. vm_get (pending s) inv = Some j \<and> aps_tool (pi_policy j) = t)"
  by (rule vm_scan_disj) simp

lemma tool_in_challenges_iff [check_simps]:
  "vm_scan (challenges s) (\<lambda>inv c b. if aps_tool (cs_policy c) = t then True else b) b \<longleftrightarrow>
     b \<or> (\<exists>inv c. vm_get (challenges s) inv = Some c \<and> aps_tool (cs_policy c) = t)"
  by (rule vm_scan_disj) simp

lemma is_parent_iff [check_simps]:
  "vm_scan m (\<lambda>child p b. if p = a then True else b) b \<longleftrightarrow> b \<or> (\<exists>c. vm_get m c = Some a)"
  by (subst vm_scan_disj [where P = "\<lambda>c p. p = a"]) auto

end
