(* ===== verification/Transitions_Flow.thy ===== *)
theory Transitions_Flow
  imports Transitions_Structural
begin

text \<open>
  Label ingestion and settlement of \<open>transitions.rs\<close>: the three holds that protect pending
  records from a new label, \<open>ingest\<close> and \<open>settle_invocation\<close>.
\<close>

definition ingest_conf_hold ::
  "kernel_state \<Rightarrow> background_theory \<Rightarrow> agent_id \<Rightarrow> conf_level \<Rightarrow> bool" where
  "ingest_conf_hold s bg a pconf =
     vm_scan (pending s)
       (\<lambda>inv j ok.
          if pi_agent j = a
          then let v = vouched j in
            vs_scan (pi_egress j)
              (\<lambda>eg ok. if \<not> (flow_allows bg pconf eg \<or> (flow_inspects bg pconf eg \<and> v))
                 then False else ok) ok
          else ok) True"

definition ingest_clear_hold :: "kernel_state \<Rightarrow> agent_id \<Rightarrow> conf_level \<Rightarrow> bool" where
  "ingest_clear_hold s a pconf =
     vm_scan (pending s)
       (\<lambda>inv j ok.
          if pi_agent j = a \<and> \<not> conf_le pconf (conf_clearance (pi_policy j)) then False else ok)
       True"

definition ingest_integ_hold :: "kernel_state \<Rightarrow> agent_id \<Rightarrow> integ_level \<Rightarrow> bool" where
  "ingest_integ_hold s a pinteg =
     vm_scan (pending s)
       (\<lambda>inv j ok.
          if pi_agent j = a
          then let allows = integ_le (integ_floor (pi_policy j)) pinteg;
                   inspects = integ_le (integ_inspect (pi_policy j)) pinteg
               in if \<not> (allows \<or> (inspects \<and> vouched j)) then False else ok
          else ok) True"

definition ingest_holds ::
  "kernel_state \<Rightarrow> background_theory \<Rightarrow> agent_id \<Rightarrow> conf_level \<Rightarrow> integ_level \<Rightarrow> bool" where
  "ingest_holds s bg a pconf pinteg \<longleftrightarrow>
     ingest_conf_hold s bg a pconf \<and> ingest_clear_hold s a pconf \<and> ingest_integ_hold s a pinteg"

text \<open>Agent-to-agent provenance must dominate the source's held labels in both dimensions.\<close>

definition provenance_dominated ::
  "kernel_state \<Rightarrow> agent_id \<Rightarrow> conf_level \<Rightarrow> integ_level \<Rightarrow> bool" where
  "provenance_dominated s src pconf pinteg =
     (let dominated = vs_scan (vm_get_set_or_empty (taint_levels s) src)
            (\<lambda>l d. if \<not> conf_le l pconf then False else d) True
      in vs_scan (vm_get_set_or_empty (integ_levels s) src)
           (\<lambda>l d. if \<not> integ_le pinteg l then False else d) dominated)"

definition ingest ::
  "kernel_state \<Rightarrow> background_theory \<Rightarrow> agent_id \<Rightarrow> agent_id option \<Rightarrow> conf_level \<Rightarrow>
   integ_level \<Rightarrow> kernel_result" where
  "ingest s bg a src pconf pinteg =
     (if \<not> vs_contains (agent_active s) a then Inl AgentInactive
      else if (case src of Some src_agent \<Rightarrow> \<not> provenance_dominated s src_agent pconf pinteg
               | None \<Rightarrow> False) then Inl ProvenanceNotDominated
      else
        let holds = ingest_holds s bg a pconf pinteg in
        if \<not> holds \<and> bg_mode bg \<noteq> Monitor then Inl IngestHoldFailed
        else
          let disposition = (if holds then Permitted else MonitorBypassed);
              s = s\<lparr>taint_levels := vm_insert_into (taint_levels s) a pconf\<rparr>;
              s = s\<lparr>integ_levels := vm_insert_into (integ_levels s) a pinteg\<rparr>;
              s = (if disposition = MonitorBypassed then demote_all_of s a else s)
          in Inr (s, ActIngest a src pconf pinteg disposition))"

definition settle_invocation ::
  "kernel_state \<Rightarrow> invocation_id \<Rightarrow> outcome \<Rightarrow> resolution_attestation option \<Rightarrow> kernel_result" where
  "settle_invocation s ivk outcome att =
     (case vm_get_cloned (pending s) ivk of
        None \<Rightarrow> Inl NotPending
      | Some j \<Rightarrow>
        let a = pi_agent j in
        if \<not> vs_contains (agent_active s) a then Inl AgentInactive
        else let disposition = disposition_of j in
        if disposition = Blocked then Inl BlockedPending
        else
          let clvl = output_conf (pi_policy j);
              ilvl = output_integ (pi_policy j);
              valid = (case att of
                  Some r \<Rightarrow> ra_inv r = ivk \<and> ra_outcome r = outcome \<and>
                    \<not> vs_contains (consumed_attestations s) (ra_id r)
                | None \<Rightarrow> False)
          in if quarantined j \<and> outcome = Ambiguous then Inl QuarantineResolutionRequired
          else if quarantined j \<and> \<not> valid then Inl ResolutionAttestationInvalid
          else if \<not> quarantined j \<and> att \<noteq> None then Inl NotQuarantined
          else
            let s = (if outcome = Ambiguous
                  then s\<lparr>pending := vm_insert (pending s) ivk (j\<lparr>quarantined := True\<rparr>)\<rparr>
                  else s\<lparr>pending := vm_remove (pending s) ivk\<rparr>);
                s = (if disposition \<noteq> Permitted then demote_all_of s a else s);
                s = (if outcome \<noteq> Ambiguous
                  then s\<lparr>taint_levels := vm_insert_into (taint_levels s) a clvl,
                         integ_levels := vm_insert_into (integ_levels s) a ilvl\<rparr>
                  else s);
                s = (case att of
                    Some r \<Rightarrow> s\<lparr>consumed_attestations := vs_insert (consumed_attestations s) (ra_id r)\<rparr>
                  | None \<Rightarrow> s)
            in Inr (s, ActSettleInvocation ivk a disposition outcome clvl ilvl (map_option ra_id att)))"

subsection \<open>The holds as quantified conditions\<close>

lemma ingest_conf_hold_iff [check_simps]:
  "ingest_conf_hold s bg a l \<longleftrightarrow>
     (\<forall>inv j. vm_get (pending s) inv = Some j \<longrightarrow> pi_agent j = a \<longrightarrow>
        (\<forall>e \<in> set (items (pi_egress j)). flow_allows bg l e \<or> (flow_inspects bg l e \<and> vouched j)))"
  unfolding ingest_conf_hold_def Let_def
  by (subst vm_scan_conj [where P = "\<lambda>inv j. pi_agent j = a \<longrightarrow>
      (\<forall>e \<in> set (items (pi_egress j)). flow_allows bg l e \<or> (flow_inspects bg l e \<and> vouched j))"])
    (auto simp: vs_scan_conj [where P = "\<lambda>e. flow_allows bg l e \<or> (flow_inspects bg l e \<and> v)" for v])

lemma ingest_clear_hold_iff [check_simps]:
  "ingest_clear_hold s a l \<longleftrightarrow>
     (\<forall>inv j. vm_get (pending s) inv = Some j \<longrightarrow> pi_agent j = a \<longrightarrow> l \<le> conf_clearance (pi_policy j))"
  unfolding ingest_clear_hold_def
  by (subst vm_scan_conj [where P = "\<lambda>inv j. pi_agent j = a \<longrightarrow> l \<le> conf_clearance (pi_policy j)"])
    (auto simp: conf_le_iff)

lemma ingest_integ_hold_iff [check_simps]:
  "ingest_integ_hold s a l \<longleftrightarrow>
     (\<forall>inv j. vm_get (pending s) inv = Some j \<longrightarrow> pi_agent j = a \<longrightarrow>
        integ_floor (pi_policy j) \<le> l \<or> (integ_inspect (pi_policy j) \<le> l \<and> vouched j))"
  unfolding ingest_integ_hold_def Let_def
  by (subst vm_scan_conj [where P = "\<lambda>inv j. pi_agent j = a \<longrightarrow>
      integ_floor (pi_policy j) \<le> l \<or> (integ_inspect (pi_policy j) \<le> l \<and> vouched j)"])
    (auto simp: integ_le_iff)

lemma provenance_dominated_iff [check_simps]:
  "provenance_dominated s src pconf pinteg \<longleftrightarrow>
     (\<forall>l \<in> vm_elems (taint_levels s) src. l \<le> pconf) \<and>
     (\<forall>l \<in> vm_elems (integ_levels s) src. pinteg \<le> l)"
  unfolding provenance_dominated_def Let_def
  by (subst vs_scan_conj [where P = "\<lambda>l. pinteg \<le> l"], simp add: integ_le_iff)
    (subst vs_scan_conj [where P = "\<lambda>l. l \<le> pconf"], auto simp: conf_le_iff vec_simps)

end
