(* ===== verification/Transitions_Invoke.thy ===== *)
theory Transitions_Invoke
  imports Transitions_Flow
begin

text \<open>
  The admission gate of \<open>transitions.rs\<close>: the capability, clearance, flow and integrity
  checks, each a latching scan over the speculative labels and the pending records, and the two
  transitions that consult them, \<open>begin_invocation\<close> and \<open>authorize_inspected\<close>.
\<close>

definition check_capability ::
  "kernel_state \<Rightarrow> agent_id \<Rightarrow> action_policy_snapshot \<Rightarrow> bool" where
  "check_capability s a snap =
     vs_scan (required_caps snap)
       (\<lambda>c ok. if \<not> vm_set_contains (agent_cap s) a c then False else ok) True"

definition check_clearance ::
  "kernel_state \<Rightarrow> agent_id \<Rightarrow> action_policy_snapshot \<Rightarrow> bool" where
  "check_clearance s a snap =
     (let ok = vs_scan (speculative_taint s a)
            (\<lambda>l ok. if \<not> conf_le l (conf_clearance snap) then False else ok) True;
          ok = vm_scan (pending s)
            (\<lambda>inv j ok. if pi_agent j = a \<and> \<not> conf_le (output_conf snap) (conf_clearance (pi_policy j))
               then False else ok) ok
      in if \<not> conf_le (output_conf snap) (conf_clearance snap) then False else ok)"

definition check_flow ::
  "kernel_state \<Rightarrow> background_theory \<Rightarrow> agent_id \<Rightarrow> action_policy_snapshot \<Rightarrow>
   egress_kind vec_set \<Rightarrow> bool \<Rightarrow> bool" where
  "check_flow s bg a snap egr strict =
     (let ok = vs_scan (speculative_taint s a)
            (\<lambda>l ok. vs_scan egr
               (\<lambda>eg ok.
                  let pass = (if strict then flow_allows bg l eg
                              else flow_allows bg l eg \<or> flow_inspects bg l eg)
                  in if \<not> pass then False else ok) ok) True;
          ok = vm_scan (pending s)
            (\<lambda>inv j ok.
               if pi_agent j = a
               then let v = vouched j in
                 vs_scan (pi_egress j)
                   (\<lambda>eg ok.
                      let pass = (if strict then flow_allows bg (output_conf snap) eg
                                  else flow_allows bg (output_conf snap) eg \<or>
                                    (flow_inspects bg (output_conf snap) eg \<and> v))
                      in if \<not> pass then False else ok) ok
               else ok) ok
      in vs_scan egr
           (\<lambda>eg ok.
              let pass = (if strict then flow_allows bg (output_conf snap) eg
                          else flow_allows bg (output_conf snap) eg \<or>
                            flow_inspects bg (output_conf snap) eg)
              in if \<not> pass then False else ok) ok)"

definition check_integ ::
  "kernel_state \<Rightarrow> agent_id \<Rightarrow> action_policy_snapshot \<Rightarrow> bool \<Rightarrow> bool" where
  "check_integ s a snap strict =
     (let ok = vs_scan (speculative_integ s a)
            (\<lambda>l ok.
               let pass = (if strict then integ_le (integ_floor snap) l
                           else integ_le (integ_floor snap) l \<or> integ_le (integ_inspect snap) l)
               in if \<not> pass then False else ok) True;
          ok = vm_scan (pending s)
            (\<lambda>inv j ok.
               if pi_agent j = a
               then
                 let pass = (if strict then integ_le (integ_floor (pi_policy j)) (output_integ snap)
                             else integ_le (integ_floor (pi_policy j)) (output_integ snap) \<or>
                               (integ_le (integ_inspect (pi_policy j)) (output_integ snap) \<and>
                                vouched j))
                 in if \<not> pass then False else ok
               else ok) ok;
          self_pass = (if strict then integ_le (integ_floor snap) (output_integ snap)
                       else integ_le (integ_floor snap) (output_integ snap) \<or>
                         integ_le (integ_inspect snap) (output_integ snap))
      in if \<not> self_pass then False else ok)"

definition egress_narrows :: "egress_kind vec_set \<Rightarrow> egress_kind vec_set \<Rightarrow> bool" where
  "egress_narrows egr declared =
     vs_scan egr (\<lambda>e ok. if \<not> vs_contains declared e then False else ok) True"

definition egress_covers :: "egress_kind vec_set \<Rightarrow> egress_kind vec_set \<Rightarrow> bool" where
  "egress_covers declared egr = (if vs_is_empty declared then True else \<not> vs_is_empty egr)"

definition begin_admissible ::
  "kernel_state \<Rightarrow> background_theory \<Rightarrow> agent_id \<Rightarrow> action_policy_snapshot \<Rightarrow>
   egress_kind vec_set \<Rightarrow> bool \<Rightarrow> bool" where
  "begin_admissible s bg a snap egr authorized \<longleftrightarrow>
     check_capability s a snap \<and> authorized \<and> check_clearance s a snap \<and>
     check_flow s bg a snap egr False \<and> check_integ s a snap False"

definition begin_invocation ::
  "kernel_state \<Rightarrow> background_theory \<Rightarrow> agent_id \<Rightarrow> invocation_id \<Rightarrow> challenge_id \<Rightarrow>
   action_policy_snapshot \<Rightarrow> egress_kind vec_set \<Rightarrow> content_hash \<Rightarrow> bool \<Rightarrow> kernel_result" where
  "begin_invocation s bg a ivk chal snap egr ah authorized =
     (if \<not> vs_contains (agent_active s) a then Inl AgentInactive
      else if a = root_agent bg then Inl RootNotAllowed
      else if \<not> vs_contains (tool_registered s) (aps_tool snap) then Inl ToolNotRegistered
      else if \<not> integ_le (integ_inspect snap) (integ_floor snap) then Inl IncoherentPolicy
      else if vm_contains_key (pending s) ivk then Inl InvocationExists
      else if vs_contains (consumed_ids s) ivk then Inl InvocationReplayed
      else if vm_contains_key (challenges s) ivk then Inl ChallengeAlreadyOpen
      else if \<not> egress_narrows egr (declared_egress snap) then Inl EgressNotNarrowing
      else if \<not> egress_covers (declared_egress snap) egr then Inl EgressNotCovering
      else
        let cap = check_capability s a snap;
            clear = check_clearance s a snap;
            flow_strict = check_flow s bg a snap egr True;
            flow_adm = check_flow s bg a snap egr False;
            integ_strict = check_integ s a snap True;
            integ_adm = check_integ s a snap False;
            allow = (cap \<and> authorized \<and> clear \<and> flow_strict \<and> integ_strict);
            admissible = (cap \<and> authorized \<and> clear \<and> flow_adm \<and> integ_adm);
            verdict = (if allow then Allow else if admissible then InspectionRequired else Deny);
            permit = s\<lparr>pending := vm_insert (pending s) ivk
              \<lparr>pi_agent = a, pi_policy = snap, pi_egress = egr, admission = Plain,
               disposition_of = Permitted, pi_authorized = authorized, quarantined = False\<rparr>\<rparr>;
            challenge = s\<lparr>challenges := vm_insert (challenges s) ivk
              \<lparr>cs_challenge = chal, cs_agent = a, cs_policy = snap, cs_egress = egr,
               cs_args_hash = ah, cs_authorized = authorized\<rparr>\<rparr>;
            bypass = s\<lparr>pending := vm_insert (pending s) ivk
              \<lparr>pi_agent = a, pi_policy = snap, pi_egress = egr, admission = Bypassed,
               disposition_of = MonitorBypassed, pi_authorized = authorized, quarantined = False\<rparr>\<rparr>;
            consume = (\<lambda>s. Inr (s\<lparr>consumed_ids := vs_insert (consumed_ids s) ivk\<rparr>,
              ActBeginInvocation a ivk (aps_tool snap) verdict authorized))
        in (case verdict of
              Allow \<Rightarrow> consume permit
            | InspectionRequired \<Rightarrow>
                (case bg_mode bg of Enforce \<Rightarrow> consume challenge | Monitor \<Rightarrow> consume bypass)
            | Deny \<Rightarrow>
                (case bg_mode bg of
                   Monitor \<Rightarrow> consume bypass
                 | Enforce \<Rightarrow>
                     if \<not> cap then Inl CapabilityMissing
                     else if \<not> authorized then Inl AuthorizerDenied
                     else if \<not> clear then Inl ClearanceDenied
                     else if \<not> flow_adm then Inl FlowGateBlocked
                     else Inl IntegrityFloorDenied)))"

definition authorize_admits ::
  "kernel_state \<Rightarrow> background_theory \<Rightarrow> invocation_id \<Rightarrow> challenge_scope \<Rightarrow> bool" where
  "authorize_admits s bg ivk sc \<longleftrightarrow>
     vs_contains (agent_active s) (cs_agent sc) \<and>
     cs_agent sc \<noteq> root_agent bg \<and>
     vs_contains (tool_registered s) (aps_tool (cs_policy sc)) \<and>
     integ_le (integ_inspect (cs_policy sc)) (integ_floor (cs_policy sc)) \<and>
     \<not> vm_contains_key (pending s) ivk \<and>
     egress_narrows (cs_egress sc) (declared_egress (cs_policy sc)) \<and>
     egress_covers (declared_egress (cs_policy sc)) (cs_egress sc) \<and>
     begin_admissible s bg (cs_agent sc) (cs_policy sc) (cs_egress sc) (cs_authorized sc)"

definition authorize_inspected ::
  "kernel_state \<Rightarrow> background_theory \<Rightarrow> invocation_id \<Rightarrow> inspection_attestation \<Rightarrow>
   kernel_result" where
  "authorize_inspected s bg ivk att =
     (case vm_get_cloned (challenges s) ivk of
        None \<Rightarrow> Inl ChallengeNotOpen
      | Some sc \<Rightarrow>
        if ia_inv att \<noteq> ivk \<or> ia_challenge att \<noteq> cs_challenge sc \<or>
           ia_args_hash att \<noteq> cs_args_hash sc \<or>
           ia_policy_digest att \<noteq> policy_digest (cs_policy sc)
        then Inl ChallengeScopeMismatch
        else if vs_contains (consumed_attestations s) (ia_id att) then Inl AttestationConsumed
        else
          let admit = (ia_positive att \<and> authorize_admits s bg ivk sc);
              s = (if admit
                then s\<lparr>pending := vm_insert (pending s) ivk
                  \<lparr>pi_agent = cs_agent sc, pi_policy = cs_policy sc, pi_egress = cs_egress sc,
                   admission = Inspected (ia_id att), disposition_of = Permitted,
                   pi_authorized = cs_authorized sc, quarantined = False\<rparr>\<rparr>
                else s);
              s = s\<lparr>challenges := vm_remove (challenges s) ivk\<rparr>;
              s = s\<lparr>consumed_attestations := vs_insert (consumed_attestations s) (ia_id att)\<rparr>
          in Inr (s, ActAuthorizeInspected ivk (ia_id att) admit))"

subsection \<open>The checks as quantified conditions\<close>

text \<open>What a new action reads of one pending record of its agent, in the strict and admissible arm.\<close>

definition flow_pass :: "background_theory \<Rightarrow> bool \<Rightarrow> bool \<Rightarrow> conf_level \<Rightarrow> egress_kind \<Rightarrow> bool" where
  "flow_pass bg strict v l e \<longleftrightarrow>
     flow_allows bg l e \<or> (\<not> strict \<and> flow_inspects bg l e \<and> v)"

definition integ_pass :: "action_policy_snapshot \<Rightarrow> bool \<Rightarrow> bool \<Rightarrow> integ_level \<Rightarrow> bool" where
  "integ_pass p strict v l \<longleftrightarrow>
     integ_floor p \<le> l \<or> (\<not> strict \<and> integ_inspect p \<le> l \<and> v)"

lemma check_capability_iff [check_simps]:
  "check_capability s a snap \<longleftrightarrow> set (items (required_caps snap)) \<subseteq> vm_elems (agent_cap s) a"
  unfolding check_capability_def
  by (subst vs_scan_conj [where P = "\<lambda>c. c \<in> vm_elems (agent_cap s) a"]) (auto simp: vec_simps)

lemma egress_narrows_iff [check_simps]:
  "egress_narrows egr declared \<longleftrightarrow> set (items egr) \<subseteq> set (items declared)"
  unfolding egress_narrows_def
  by (subst vs_scan_conj [where P = "\<lambda>e. e \<in> set (items declared)"]) (auto simp: vec_simps)

lemma egress_covers_iff [check_simps]:
  "egress_covers declared egr \<longleftrightarrow> set (items declared) \<noteq> {} \<longrightarrow> set (items egr) \<noteq> {}"
  by (simp add: egress_covers_def vec_simps)

lemma check_clearance_iff [check_simps]:
  "check_clearance s a snap \<longleftrightarrow>
     (\<forall>l \<in> set (items (speculative_taint s a)). l \<le> conf_clearance snap) \<and>
     (\<forall>inv j. vm_get (pending s) inv = Some j \<longrightarrow> pi_agent j = a \<longrightarrow>
        output_conf snap \<le> conf_clearance (pi_policy j)) \<and>
     output_conf snap \<le> conf_clearance snap"
  unfolding check_clearance_def Let_def
  by (subst vm_scan_conj [where P = "\<lambda>inv j. pi_agent j = a \<longrightarrow>
        output_conf snap \<le> conf_clearance (pi_policy j)"], simp add: conf_le_iff)
    (subst vs_scan_conj [where P = "\<lambda>l. l \<le> conf_clearance snap"], auto simp: conf_le_iff)

lemma check_flow_iff [check_simps]:
  "check_flow s bg a snap egr strict \<longleftrightarrow>
     (\<forall>l \<in> set (items (speculative_taint s a)). \<forall>e \<in> set (items egr). flow_pass bg strict True l e) \<and>
     (\<forall>inv j. vm_get (pending s) inv = Some j \<longrightarrow> pi_agent j = a \<longrightarrow>
        (\<forall>e \<in> set (items (pi_egress j)). flow_pass bg strict (vouched j) (output_conf snap) e)) \<and>
     (\<forall>e \<in> set (items egr). flow_pass bg strict True (output_conf snap) e)"
proof -
  have egr: "vs_scan t (\<lambda>eg ok. let pass = (if strict then flow_allows bg l eg
        else flow_allows bg l eg \<or> flow_inspects bg l eg) in if \<not> pass then False else ok) b \<longleftrightarrow>
      b \<and> (\<forall>e \<in> set (items t). flow_pass bg strict True l e)" for t l b
    by (rule vs_scan_conj) (auto simp: flow_pass_def)
  have pend: "vs_scan t (\<lambda>eg ok. let pass = (if strict then flow_allows bg l eg
        else flow_allows bg l eg \<or> (flow_inspects bg l eg \<and> v)) in if \<not> pass then False else ok) b \<longleftrightarrow>
      b \<and> (\<forall>e \<in> set (items t). flow_pass bg strict v l e)" for t l b v
    by (rule vs_scan_conj) (auto simp: flow_pass_def)
  have spec: "vs_scan t (\<lambda>l ok. ok \<and> (\<forall>e \<in> set (items egr). flow_pass bg strict True l e)) True \<longleftrightarrow>
      (\<forall>l \<in> set (items t). \<forall>e \<in> set (items egr). flow_pass bg strict True l e)" for t
    by (subst vs_scan_conj [where P = "\<lambda>l. \<forall>e \<in> set (items egr). flow_pass bg strict True l e"]) auto
  have records: "vm_scan m (\<lambda>inv j ok. if pi_agent j = a
        then let v = vouched j in ok \<and> (\<forall>e \<in> set (items (pi_egress j)). flow_pass bg strict v l e)
        else ok) b \<longleftrightarrow>
      b \<and> (\<forall>inv j. vm_get m inv = Some j \<longrightarrow> pi_agent j = a \<longrightarrow>
        (\<forall>e \<in> set (items (pi_egress j)). flow_pass bg strict (vouched j) l e))" for m l b
    by (rule vm_scan_conj) auto
  show ?thesis
    unfolding check_flow_def egr pend spec records Let_def [of "vs_scan _ _ _"]
      Let_def [of "vm_scan _ _ _"] by (simp add: Let_def)
qed

lemma check_integ_iff [check_simps]:
  "check_integ s a snap strict \<longleftrightarrow>
     (\<forall>l \<in> set (items (speculative_integ s a)). integ_pass snap strict True l) \<and>
     (\<forall>inv j. vm_get (pending s) inv = Some j \<longrightarrow> pi_agent j = a \<longrightarrow>
        integ_pass (pi_policy j) strict (vouched j) (output_integ snap)) \<and>
     integ_pass snap strict True (output_integ snap)"
proof -
  have labels: "vs_scan t (\<lambda>l ok. if \<not> (if strict then integ_le (integ_floor snap) l
        else integ_le (integ_floor snap) l \<or> integ_le (integ_inspect snap) l) then False else ok) b \<longleftrightarrow>
      b \<and> (\<forall>l \<in> set (items t). integ_pass snap strict True l)" for t b
    by (rule vs_scan_conj) (auto simp: integ_le_iff integ_pass_def)
  have records: "vm_scan m (\<lambda>inv j ok. if pi_agent j = a
        then if \<not> (if strict then integ_le (integ_floor (pi_policy j)) l
          else integ_le (integ_floor (pi_policy j)) l \<or>
            (integ_le (integ_inspect (pi_policy j)) l \<and> vouched j)) then False else ok
        else ok) b \<longleftrightarrow>
      b \<and> (\<forall>inv j. vm_get m inv = Some j \<longrightarrow> pi_agent j = a \<longrightarrow>
        integ_pass (pi_policy j) strict (vouched j) l)" for m l b
    by (rule vm_scan_conj) (auto simp: integ_le_iff integ_pass_def)
  show ?thesis
    unfolding check_integ_def Let_def labels records
    by (auto simp: integ_le_iff integ_pass_def)
qed

text \<open>The strict arm implies the admissible one, so \<open>allow\<close> implies \<open>admissible\<close>.\<close>

lemma check_flow_strict: "check_flow s bg a snap egr True \<Longrightarrow> check_flow s bg a snap egr False"
  by (auto simp: check_flow_iff flow_pass_def)

lemma check_integ_strict: "check_integ s a snap True \<Longrightarrow> check_integ s a snap False"
  by (auto simp: check_integ_iff integ_pass_def)

end
