(* ===== verification/Transitions_Cross.thy ===== *)
theory Transitions_Cross
  imports Transitions_Invoke
begin

text \<open>
  The atomic boundary crossing of \<open>transitions.rs\<close>: the endorsement test, the receiver's
  holds per branch, and \<open>cross_output\<close>.
\<close>

definition endorsed_ok :: "kernel_state \<Rightarrow> cross_input \<Rightarrow> bool" where
  "endorsed_ok s q =
     (let evidence_ok = (case x_evidence q of
            Some e \<Rightarrow>
              ca_positive e \<and> \<not> vs_contains (consumed_attestations s) (ca_id e) \<and>
              ca_output e = x_output_hash q \<and> ca_src e = x_src q \<and> ca_rcv e = x_rcv q \<and>
              ca_descriptor e = x_descriptor q \<and> ca_assignment e = x_assignment q
          | None \<Rightarrow> False)
      in if \<not> evidence_ok then False
         else
           let key = \<lparr>ck_agent = x_rcv q, ck_assignment = x_assignment q\<rparr>
           in (case vm_get_cloned (crossing_grants s) key of
                 Some g \<Rightarrow> remaining g > 0
               | None \<Rightarrow> False))"

definition cross_holds ::
  "kernel_state \<Rightarrow> background_theory \<Rightarrow> cross_input \<Rightarrow> cross_branch \<Rightarrow> bool" where
  "cross_holds s bg q branch =
     (case branch of
        Endorsed \<Rightarrow> ingest_holds s bg (x_rcv q) (released_conf q) (released_integ q)
      | Unendorsed \<Rightarrow>
          let ok = vs_scan (vm_get_set_or_empty (taint_levels s) (x_src q))
                (\<lambda>l ok. if \<not> ingest_conf_hold s bg (x_rcv q) l \<or>
                          \<not> ingest_clear_hold s (x_rcv q) l then False else ok) True
          in vs_scan (vm_get_set_or_empty (integ_levels s) (x_src q))
               (\<lambda>li ok. if \<not> ingest_integ_hold s (x_rcv q) li then False else ok) ok
      | BrFail \<Rightarrow> True)"

text \<open>The scan that looks for pending work of the source.\<close>

definition source_in_flight :: "kernel_state \<Rightarrow> agent_id \<Rightarrow> bool" where
  "source_in_flight s src =
     vm_scan (pending s) (\<lambda>inv j found. if pi_agent j = src then True else found) False"

text \<open>The frozen assignment bounds an endorsement must obey.\<close>

definition bounds_ok :: "kernel_state \<Rightarrow> cross_input \<Rightarrow> bool" where
  "bounds_ok s q =
     (if \<not> integ_le (released_integ q) (t_integ q) then False
      else (case t_conf q of
              Some c \<Rightarrow> conf_le (released_conf q) c
            | None \<Rightarrow>
                vs_scan (vm_get_set_or_empty (taint_levels s) (x_src q))
                  (\<lambda>l ok. if \<not> conf_le l (released_conf q) then False else ok) True))"

text \<open>Branch selection, and the label release into the receiver.\<close>

definition select_branch :: "kernel_state \<Rightarrow> cross_input \<Rightarrow> cross_branch" where
  "select_branch s q =
     (if endorsed_ok s q then Endorsed
      else (case x_fallback q of ReleaseUnendorsed \<Rightarrow> Unendorsed | FbFail \<Rightarrow> BrFail))"

definition release_labels :: "kernel_state \<Rightarrow> cross_input \<Rightarrow> cross_branch \<Rightarrow> kernel_state" where
  "release_labels s q branch =
     (case branch of
        Endorsed \<Rightarrow>
          let s = s\<lparr>taint_levels := vm_insert_into (taint_levels s) (x_rcv q) (released_conf q)\<rparr>
          in s\<lparr>integ_levels := vm_insert_into (integ_levels s) (x_rcv q) (released_integ q)\<rparr>
      | Unendorsed \<Rightarrow>
          let s = vs_scan (vm_get_set_or_empty (taint_levels s) (x_src q))
                (\<lambda>l s. s\<lparr>taint_levels := vm_insert_into (taint_levels s) (x_rcv q) l\<rparr>) s
          in vs_scan (vm_get_set_or_empty (integ_levels s) (x_src q))
               (\<lambda>li s. s\<lparr>integ_levels := vm_insert_into (integ_levels s) (x_rcv q) li\<rparr>) s
      | BrFail \<Rightarrow> s)"

definition cross_output ::
  "kernel_state \<Rightarrow> background_theory \<Rightarrow> cross_input \<Rightarrow> kernel_result" where
  "cross_output s bg q =
     (if \<not> vs_contains (agent_active s) (x_src q) then Inl AgentInactive
      else if \<not> vs_contains (agent_active s) (x_rcv q) then Inl AgentInactive
      else if source_in_flight s (x_src q) then Inl SourceInFlight
      else if vs_contains (consumed_crossings s) (x_crossing q) then Inl CrossingReplayed
      else
        let branch = select_branch s q
        in if branch = Endorsed \<and> \<not> bounds_ok s q then Inl CrossingBoundViolated
        else
          let holds = cross_holds s bg q branch
          in if \<not> holds \<and> bg_mode bg \<noteq> Monitor then Inl CrossingHoldFailed
          else
            let disposition = (if holds then Permitted else MonitorBypassed);
                s = release_labels s q branch;
                s = s\<lparr>consumed_crossings := vs_insert (consumed_crossings s) (x_crossing q)\<rparr>;
                s = (if branch = Endorsed
                  then
                    let s = (case x_evidence q of
                        Some e \<Rightarrow> s\<lparr>consumed_attestations := vs_insert (consumed_attestations s) (ca_id e)\<rparr>
                      | None \<Rightarrow> s)
                    in decrement_grant_at s (x_rcv q) (x_assignment q)
                  else s);
                s = (if disposition = MonitorBypassed then demote_all_of s (x_rcv q) else s)
            in Inr (s, ActCrossOutput (x_src q) (x_rcv q) (x_crossing q) branch disposition))"

subsection \<open>The tests as quantified conditions\<close>

text \<open>The evidence matches the request in every scoped field.\<close>

definition evidence_matches :: "cross_input \<Rightarrow> conformance_attestation \<Rightarrow> bool" where
  "evidence_matches q e \<longleftrightarrow>
     ca_positive e \<and> ca_output e = x_output_hash q \<and> ca_src e = x_src q \<and> ca_rcv e = x_rcv q \<and>
     ca_descriptor e = x_descriptor q \<and> ca_assignment e = x_assignment q"

lemma endorsed_ok_iff [check_simps]:
  "endorsed_ok s q \<longleftrightarrow>
     (\<exists>e g. x_evidence q = Some e \<and> evidence_matches q e \<and>
        ca_id e \<notin> set (items (consumed_attestations s)) \<and>
        vm_get (crossing_grants s) \<lparr>ck_agent = x_rcv q, ck_assignment = x_assignment q\<rparr> = Some g \<and>
        remaining g > 0)"
  by (auto simp: endorsed_ok_def evidence_matches_def vec_simps Let_def split: option.splits)

lemma source_in_flight_iff [check_simps]:
  "source_in_flight s src \<longleftrightarrow> (\<exists>inv j. vm_get (pending s) inv = Some j \<and> pi_agent j = src)"
  unfolding source_in_flight_def
  by (subst vm_scan_disj [where P = "\<lambda>inv j. pi_agent j = src"]) auto

lemma bounds_ok_iff [check_simps]:
  "bounds_ok s q \<longleftrightarrow> released_integ q \<le> t_integ q \<and>
     (case t_conf q of Some c \<Rightarrow> released_conf q \<le> c
      | None \<Rightarrow> \<forall>l \<in> vm_elems (taint_levels s) (x_src q). l \<le> released_conf q)"
  unfolding bounds_ok_def
  by (subst vs_scan_conj [where P = "\<lambda>l. l \<le> released_conf q"])
    (auto simp: conf_le_iff integ_le_iff vec_simps split: option.split)

text \<open>The labels a branch releases into the receiver.\<close>

definition released_taint :: "kernel_state \<Rightarrow> cross_input \<Rightarrow> cross_branch \<Rightarrow> conf_level set" where
  "released_taint s q branch =
     (case branch of Endorsed \<Rightarrow> {released_conf q}
      | Unendorsed \<Rightarrow> vm_elems (taint_levels s) (x_src q) | BrFail \<Rightarrow> {})"

definition released_integrity :: "kernel_state \<Rightarrow> cross_input \<Rightarrow> cross_branch \<Rightarrow> integ_level set" where
  "released_integrity s q branch =
     (case branch of Endorsed \<Rightarrow> {released_integ q}
      | Unendorsed \<Rightarrow> vm_elems (integ_levels s) (x_src q) | BrFail \<Rightarrow> {})"

lemma cross_holds_iff [check_simps]:
  "cross_holds s bg q branch \<longleftrightarrow>
     (\<forall>l \<in> released_taint s q branch.
        ingest_conf_hold s bg (x_rcv q) l \<and> ingest_clear_hold s (x_rcv q) l) \<and>
     (\<forall>l \<in> released_integrity s q branch. ingest_integ_hold s (x_rcv q) l)"
proof -
  have taint: "vs_scan t (\<lambda>l ok. if \<not> ingest_conf_hold s bg a l \<or> \<not> ingest_clear_hold s a l
      then False else ok) b \<longleftrightarrow>
      b \<and> (\<forall>l \<in> set (items t). ingest_conf_hold s bg a l \<and> ingest_clear_hold s a l)" for t a b
    by (rule vs_scan_conj) auto
  have integ: "vs_scan t (\<lambda>l ok. if \<not> ingest_integ_hold s a l then False else ok) b \<longleftrightarrow>
      b \<and> (\<forall>l \<in> set (items t). ingest_integ_hold s a l)" for t a b
    by (rule vs_scan_conj) auto
  show ?thesis
    unfolding cross_holds_def taint integ
    by (cases branch)
      (auto simp: released_taint_def released_integrity_def vec_simps ingest_holds_def)
qed

text \<open>Releasing a whole set of labels is the two inserting scans.\<close>

lemma fold_taint_insert:
  "fold (\<lambda>l s. s\<lparr>taint_levels := vm_insert_into (taint_levels s) a l\<rparr>) ls s =
     s\<lparr>taint_levels := fold (\<lambda>l m. vm_insert_into m a l) ls (taint_levels s)\<rparr>"
  by (induction ls arbitrary: s) simp_all

lemma fold_integ_insert:
  "fold (\<lambda>l s. s\<lparr>integ_levels := vm_insert_into (integ_levels s) a l\<rparr>) ls s =
     s\<lparr>integ_levels := fold (\<lambda>l m. vm_insert_into m a l) ls (integ_levels s)\<rparr>"
  by (induction ls arbitrary: s) simp_all

lemma vm_elems_fold_insert_into [vec_simps]:
  "vm_elems (fold (\<lambda>l m. vm_insert_into m a l) ls m) = (vm_elems m)(a := vm_elems m a \<union> set ls)"
  by (induction ls arbitrary: m) (auto simp: vec_simps)

lemma vm_sets_wf_fold_insert_into [wf_intros]:
  "vm_sets_wf m \<Longrightarrow> vm_sets_wf (fold (\<lambda>l m. vm_insert_into m a l) ls m)"
  by (induction ls arbitrary: m) (auto intro: wf_intros)

text \<open>Only the receiver's labels change.\<close>

lemma release_labels_fields:
  "release_labels s q b =
     s\<lparr>taint_levels := fold (\<lambda>l m. vm_insert_into m (x_rcv q) l)
         (case b of Endorsed \<Rightarrow> [released_conf q]
          | Unendorsed \<Rightarrow> items (vm_get_set_or_empty (taint_levels s) (x_src q)) | BrFail \<Rightarrow> [])
         (taint_levels s),
       integ_levels := fold (\<lambda>l m. vm_insert_into m (x_rcv q) l)
         (case b of Endorsed \<Rightarrow> [released_integ q]
          | Unendorsed \<Rightarrow> items (vm_get_set_or_empty (integ_levels s) (x_src q)) | BrFail \<Rightarrow> [])
         (integ_levels s)\<rparr>"
  by (cases b)
    (simp_all add: release_labels_def vs_scan_fold fold_taint_insert fold_integ_insert)

end
