(* ===== verification/Kernel_Spec.thy ===== *)
theory Kernel_Spec
  imports Transitions_Cross
begin

text \<open>
  What the kernel promises, stated without vectors and loops: the state is a record of sets,
  functions and finite maps, and a transition is a list of guards in order of precedence with an
  effect. The detailed transitions are shown to refine these in \<open>Kernel_Refinement\<close>.
\<close>

record spec_state =
  active :: "agent_id set"
  parent_of :: "agent_id \<Rightarrow> agent_id option"
  caps :: "agent_id \<Rightarrow> cap_kind set"
  taint :: "agent_id \<Rightarrow> conf_level set"
  integ :: "agent_id \<Rightarrow> integ_level set"
  pend :: "invocation_id \<Rightarrow> pending_invocation option"
  chal :: "invocation_id \<Rightarrow> challenge_scope option"
  used_ids :: "invocation_id set"
  used_atts :: "attestation_id set"
  used_crossings :: "crossing_id set"
  grants :: "crossing_key \<Rightarrow> crossing_grant option"
  tools :: "tool_id set"

type_synonym spec_result = "kernel_error + spec_state \<times> kernel_action"

text \<open>The first guard that fires is the error; the effect happens when none does.\<close>

fun guarded :: "(bool \<times> 'e) list \<Rightarrow> 'a \<Rightarrow> 'e + 'a" where
  "guarded [] x = Inr x"
| "guarded ((fires, e) # gs) x = (if fires then Inl e else guarded gs x)"

lemmas guarded_eval = guarded.simps
declare guarded.simps [simp del]

lemma guarded_Inr_iff: "guarded gs x = Inr y \<longleftrightarrow> y = x \<and> (\<forall>g \<in> set gs. \<not> fst g)"
  by (induction gs) (auto simp: guarded_eval split: if_splits)

text \<open>Precedence: the error is that of the first guard that fires.\<close>

lemma guarded_find:
  "guarded gs x = (case find fst gs of Some g \<Rightarrow> Inl (snd g) | None \<Rightarrow> Inr x)"
  by (induction gs) (auto simp: guarded_eval)

lemma map_ok_guarded: "map_ok f (guarded gs x) = guarded gs (f x)"
  by (induction gs) (auto simp: guarded_eval)

subsection \<open>Owned records, demotion and speculative labels\<close>

definition drop_owned :: "('v \<Rightarrow> agent_id) \<Rightarrow> agent_id \<Rightarrow> ('k \<Rightarrow> 'v option) \<Rightarrow> 'k \<Rightarrow> 'v option" where
  "drop_owned owner a m = (\<lambda>k. case m k of Some v \<Rightarrow> if owner v \<noteq> a then Some v else None | None \<Rightarrow> None)"

lemma drop_owned_Some_iff [simp]:
  "drop_owned owner a m k = Some v \<longleftrightarrow> m k = Some v \<and> owner v \<noteq> a"
  by (auto simp: drop_owned_def split: option.splits)

lemma drop_owned_None: "m k = None \<Longrightarrow> drop_owned owner a m k = None"
  by (simp add: drop_owned_def)

definition demote_owned ::
  "agent_id \<Rightarrow> (invocation_id \<Rightarrow> pending_invocation option) \<Rightarrow>
   invocation_id \<Rightarrow> pending_invocation option" where
  "demote_owned a m = (\<lambda>i. map_option (\<lambda>j. if pi_agent j = a then demote j else j) (m i))"

lemma demote_fields [simp]:
  "pi_agent (demote j) = pi_agent j" "pi_policy (demote j) = pi_policy j"
  "pi_egress (demote j) = pi_egress j" "admission (demote j) = admission j"
  "disposition_of (demote j) = MonitorBypassed" "pi_authorized (demote j) = pi_authorized j"
  "quarantined (demote j) = quarantined j" "\<not> contained (demote j)"
  "vouched (demote j) = vouched j"
  by (simp_all add: demote_def contained_def vouched_def)

lemma demote_owned_Some_iff:
  "demote_owned a m i = Some j' \<longleftrightarrow>
     (\<exists>j. m i = Some j \<and> j' = (if pi_agent j = a then demote j else j))"
  by (cases "m i") (simp_all add: demote_owned_def eq_commute [of _ j'])

definition demote_all :: "agent_id \<Rightarrow> spec_state \<Rightarrow> spec_state" where
  "demote_all a \<sigma> = \<sigma>\<lparr>pend := demote_owned a (pend \<sigma>)\<rparr>"

definition add_labels ::
  "agent_id \<Rightarrow> conf_level set \<Rightarrow> integ_level set \<Rightarrow> spec_state \<Rightarrow> spec_state" where
  "add_labels a cs is \<sigma> =
     \<sigma>\<lparr>taint := (taint \<sigma>)(a := taint \<sigma> a \<union> cs), integ := (integ \<sigma>)(a := integ \<sigma> a \<union> is)\<rparr>"

definition clear_compartment :: "agent_id \<Rightarrow> spec_state \<Rightarrow> spec_state" where
  "clear_compartment a \<sigma> =
     \<sigma>\<lparr>caps := (caps \<sigma>)(a := {}), taint := (taint \<sigma>)(a := {}), integ := (integ \<sigma>)(a := {}),
       pend := drop_owned pi_agent a (pend \<sigma>), chal := drop_owned cs_agent a (chal \<sigma>),
       grants := (\<lambda>k. if ck_agent k = a then None else grants \<sigma> k)\<rparr>"

definition spec_conf :: "(pending_invocation \<Rightarrow> bool) \<Rightarrow> spec_state \<Rightarrow> agent_id \<Rightarrow> conf_level set" where
  "spec_conf P \<sigma> a =
     taint \<sigma> a \<union> {output_conf (pi_policy j) | i j. pend \<sigma> i = Some j \<and> pi_agent j = a \<and> P j}"

definition spec_integ :: "(pending_invocation \<Rightarrow> bool) \<Rightarrow> spec_state \<Rightarrow> agent_id \<Rightarrow> integ_level set" where
  "spec_integ P \<sigma> a =
     integ \<sigma> a \<union> {output_integ (pi_policy j) | i j. pend \<sigma> i = Some j \<and> pi_agent j = a \<and> P j}"

subsection \<open>Gates\<close>

text \<open>The labels \<open>cs\<close> and \<open>is\<close> may meet the pending record \<open>j\<close>.\<close>

definition tolerates ::
  "background_theory \<Rightarrow> pending_invocation \<Rightarrow> conf_level set \<Rightarrow> integ_level set \<Rightarrow> bool" where
  "tolerates bg j cs is \<longleftrightarrow>
     (\<forall>l \<in> cs. l \<le> conf_clearance (pi_policy j) \<and>
        (\<forall>e \<in> set (items (pi_egress j)). flow_pass bg False (vouched j) l e)) \<and>
     (\<forall>l \<in> is. integ_pass (pi_policy j) False (vouched j) l)"

definition holds_of ::
  "background_theory \<Rightarrow> spec_state \<Rightarrow> agent_id \<Rightarrow> conf_level set \<Rightarrow> integ_level set \<Rightarrow> bool" where
  "holds_of bg \<sigma> a cs is \<longleftrightarrow>
     (\<forall>i j. pend \<sigma> i = Some j \<longrightarrow> pi_agent j = a \<longrightarrow> tolerates bg j cs is)"

definition gate_clear :: "spec_state \<Rightarrow> agent_id \<Rightarrow> action_policy_snapshot \<Rightarrow> bool" where
  "gate_clear \<sigma> a p \<longleftrightarrow>
     (\<forall>l \<in> insert (output_conf p) (spec_conf (\<lambda>_. True) \<sigma> a). l \<le> conf_clearance p) \<and>
     (\<forall>i j. pend \<sigma> i = Some j \<longrightarrow> pi_agent j = a \<longrightarrow> output_conf p \<le> conf_clearance (pi_policy j))"

definition gate_flow ::
  "background_theory \<Rightarrow> bool \<Rightarrow> spec_state \<Rightarrow> agent_id \<Rightarrow> action_policy_snapshot \<Rightarrow>
   egress_kind vec_set \<Rightarrow> bool" where
  "gate_flow bg strict \<sigma> a p egr \<longleftrightarrow>
     (\<forall>l \<in> insert (output_conf p) (spec_conf (\<lambda>_. True) \<sigma> a). \<forall>e \<in> set (items egr).
        flow_pass bg strict True l e) \<and>
     (\<forall>i j. pend \<sigma> i = Some j \<longrightarrow> pi_agent j = a \<longrightarrow>
        (\<forall>e \<in> set (items (pi_egress j)). flow_pass bg strict (vouched j) (output_conf p) e))"

definition gate_integ :: "bool \<Rightarrow> spec_state \<Rightarrow> agent_id \<Rightarrow> action_policy_snapshot \<Rightarrow> bool" where
  "gate_integ strict \<sigma> a p \<longleftrightarrow>
     (\<forall>l \<in> insert (output_integ p) (spec_integ (\<lambda>_. True) \<sigma> a). integ_pass p strict True l) \<and>
     (\<forall>i j. pend \<sigma> i = Some j \<longrightarrow> pi_agent j = a \<longrightarrow>
        integ_pass (pi_policy j) strict (vouched j) (output_integ p))"

definition gate ::
  "background_theory \<Rightarrow> bool \<Rightarrow> spec_state \<Rightarrow> agent_id \<Rightarrow> action_policy_snapshot \<Rightarrow>
   egress_kind vec_set \<Rightarrow> bool \<Rightarrow> bool" where
  "gate bg strict \<sigma> a p egr authorized \<longleftrightarrow>
     set (items (required_caps p)) \<subseteq> caps \<sigma> a \<and> authorized \<and> gate_clear \<sigma> a p \<and>
     gate_flow bg strict \<sigma> a p egr \<and> gate_integ strict \<sigma> a p"

definition egress_ok :: "action_policy_snapshot \<Rightarrow> egress_kind vec_set \<Rightarrow> bool" where
  "egress_ok p egr \<longleftrightarrow>
     set (items egr) \<subseteq> set (items (declared_egress p)) \<and>
     (set (items (declared_egress p)) \<noteq> {} \<longrightarrow> set (items egr) \<noteq> {})"

definition spec_verdict ::
  "background_theory \<Rightarrow> spec_state \<Rightarrow> agent_id \<Rightarrow> action_policy_snapshot \<Rightarrow>
   egress_kind vec_set \<Rightarrow> bool \<Rightarrow> verdict" where
  "spec_verdict bg \<sigma> a p egr authorized =
     (if gate bg True \<sigma> a p egr authorized then Allow
      else if gate bg False \<sigma> a p egr authorized then InspectionRequired else Deny)"

lemma gate_strict: "gate bg True \<sigma> a p egr auth \<Longrightarrow> gate bg strict \<sigma> a p egr auth"
  by (simp add: gate_def gate_flow_def gate_integ_def flow_pass_def integ_pass_def) 

subsection \<open>The twelve actions\<close>

definition spec_register :: "tool_id \<Rightarrow> spec_state \<Rightarrow> spec_result" where [spec_defs]:
  "spec_register t \<sigma> =
     guarded [(t \<in> tools \<sigma>, ToolAlreadyRegistered)]
       (\<sigma>\<lparr>tools := insert t (tools \<sigma>)\<rparr>, ActRegisterTool t)"

definition spec_unregister :: "tool_id \<Rightarrow> spec_state \<Rightarrow> spec_result" where [spec_defs]:
  "spec_unregister t \<sigma> =
     guarded
       [(t \<notin> tools \<sigma>, ToolNotRegistered),
        ((\<exists>i j. pend \<sigma> i = Some j \<and> aps_tool (pi_policy j) = t) \<or>
         (\<exists>i c. chal \<sigma> i = Some c \<and> aps_tool (cs_policy c) = t), ToolInUse)]
       (\<sigma>\<lparr>tools := tools \<sigma> - {t}\<rparr>, ActUnregisterTool t)"

definition spec_delegate :: "background_theory \<Rightarrow> agent_id \<Rightarrow> agent_id \<Rightarrow> spec_state \<Rightarrow> spec_result" where [spec_defs]:
  "spec_delegate bg p c \<sigma> =
     guarded
       [(p \<notin> active \<sigma>, AgentInactive), (c \<in> active \<sigma>, AgentAlreadyActive),
        (c = root_agent bg, RootNotAllowed), (c \<in> ran (parent_of \<sigma>), AgentHasChildren)]
       (clear_compartment c
          (\<sigma>\<lparr>active := insert c (active \<sigma>), parent_of := (parent_of \<sigma>)(c \<mapsto> p)\<rparr>),
        ActDelegate p c)"

definition spec_grant_capability ::
  "agent_id \<Rightarrow> agent_id \<Rightarrow> cap_kind \<Rightarrow> spec_state \<Rightarrow> spec_result" where [spec_defs]:
  "spec_grant_capability p c k \<sigma> =
     guarded
       [(p \<notin> active \<sigma>, AgentInactive), (c \<notin> active \<sigma>, AgentInactive),
        (parent_of \<sigma> c \<noteq> Some p, NotDirectChild), (k \<notin> caps \<sigma> p, CapabilityMissing)]
       (\<sigma>\<lparr>caps := (caps \<sigma>)(c := insert k (caps \<sigma> c))\<rparr>, ActGrantCapability p c k)"

definition spec_grant_crossing ::
  "background_theory \<Rightarrow> agent_id \<Rightarrow> agent_id \<Rightarrow> assignment_digest \<Rightarrow> u32 \<Rightarrow> spec_state \<Rightarrow> spec_result" where [spec_defs]:
  "spec_grant_crossing bg g a d n \<sigma> =
     guarded
       [(g \<noteq> root_agent bg, NotRoot), (g \<notin> active \<sigma>, AgentInactive), (a \<notin> active \<sigma>, AgentInactive)]
       (\<sigma>\<lparr>grants := (grants \<sigma>)(\<lparr>ck_agent = a, ck_assignment = d\<rparr> \<mapsto> \<lparr>remaining = n, provisioned = n\<rparr>)\<rparr>,
        ActGrantCrossing g a d n)"

definition deactivate :: "agent_id \<Rightarrow> spec_state \<Rightarrow> spec_state" where
  "deactivate a \<sigma> =
     clear_compartment a (\<sigma>\<lparr>active := active \<sigma> - {a}, parent_of := (parent_of \<sigma>)(a := None)\<rparr>)"

definition spec_revoke :: "background_theory \<Rightarrow> agent_id \<Rightarrow> agent_id \<Rightarrow> spec_state \<Rightarrow> spec_result" where [spec_defs]:
  "spec_revoke bg p a \<sigma> =
     guarded
       [(parent_of \<sigma> a \<noteq> Some p, NotDirectChild), (p \<notin> active \<sigma>, AgentInactive),
        (a \<notin> active \<sigma>, AgentInactive), (a = root_agent bg, RootNotAllowed)]
       (deactivate a \<sigma>, ActRevoke p a)"

definition spec_cascade_revoke ::
  "background_theory \<Rightarrow> agent_id \<Rightarrow> agent_id \<Rightarrow> spec_state \<Rightarrow> spec_result" where [spec_defs]:
  "spec_cascade_revoke bg a p \<sigma> =
     guarded
       [(parent_of \<sigma> a \<noteq> Some p, NotDirectChild), (p \<in> active \<sigma>, ParentStillActive),
        (a \<notin> active \<sigma>, AgentInactive), (a = root_agent bg, RootNotAllowed)]
       (deactivate a \<sigma>, ActCascadeRevoke a p)"

definition spec_ingest ::
  "background_theory \<Rightarrow> agent_id \<Rightarrow> agent_id option \<Rightarrow> conf_level \<Rightarrow> integ_level \<Rightarrow> spec_state \<Rightarrow>
   spec_result" where [spec_defs]:
  "spec_ingest bg a src l i \<sigma> =
     (let ok = holds_of bg \<sigma> a {l} {i};
          added = add_labels a {l} {i} \<sigma>
      in guarded
       [(a \<notin> active \<sigma>, AgentInactive),
        (\<exists>b. src = Some b \<and> \<not> ((\<forall>x \<in> taint \<sigma> b. x \<le> l) \<and> (\<forall>y \<in> integ \<sigma> b. i \<le> y)),
         ProvenanceNotDominated),
        (\<not> ok \<and> bg_mode bg = Enforce, IngestHoldFailed)]
       (if ok then added else demote_all a added,
        ActIngest a src l i (if ok then Permitted else MonitorBypassed)))"

definition spec_settle ::
  "invocation_id \<Rightarrow> outcome \<Rightarrow> resolution_attestation option \<Rightarrow> spec_state \<Rightarrow> spec_result" where [spec_defs]:
  "spec_settle i out att \<sigma> =
     (case pend \<sigma> i of
        None \<Rightarrow> Inl NotPending
      | Some j \<Rightarrow>
        let a = pi_agent j;
            c = output_conf (pi_policy j);
            l = output_integ (pi_policy j);
            closed = (if out = Ambiguous then \<sigma>\<lparr>pend := (pend \<sigma>)(i \<mapsto> j\<lparr>quarantined := True\<rparr>)\<rparr>
                      else add_labels a {c} {l} (\<sigma>\<lparr>pend := (pend \<sigma>)(i := None)\<rparr>));
            settled = (if contained j then closed else demote_all a closed)
        in guarded
          [(a \<notin> active \<sigma>, AgentInactive),
           (disposition_of j = Blocked, BlockedPending),
           (quarantined j \<and> out = Ambiguous, QuarantineResolutionRequired),
           (quarantined j \<and> \<not> (\<exists>r. att = Some r \<and> ra_inv r = i \<and> ra_outcome r = out \<and>
              ra_id r \<notin> used_atts \<sigma>), ResolutionAttestationInvalid),
           (\<not> quarantined j \<and> att \<noteq> None, NotQuarantined)]
          (settled\<lparr>used_atts := used_atts \<sigma> \<union> ra_id ` set_option att\<rparr>,
           ActSettleInvocation i a (disposition_of j) out c l (map_option ra_id att)))"

definition spec_begin ::
  "background_theory \<Rightarrow> agent_id \<Rightarrow> invocation_id \<Rightarrow> challenge_id \<Rightarrow> action_policy_snapshot \<Rightarrow>
   egress_kind vec_set \<Rightarrow> content_hash \<Rightarrow> bool \<Rightarrow> spec_state \<Rightarrow> spec_result" where [spec_defs]:
  "spec_begin bg a i ch p egr ah auth \<sigma> =
     (let v = spec_verdict bg \<sigma> a p egr auth;
          refused = (v = Deny \<and> bg_mode bg = Enforce);
          record_with = (\<lambda>adm disp. \<lparr>pi_agent = a, pi_policy = p, pi_egress = egr, admission = adm,
            disposition_of = disp, pi_authorized = auth, quarantined = False\<rparr>);
          \<sigma>' = (if v = Allow then \<sigma>\<lparr>pend := (pend \<sigma>)(i \<mapsto> record_with Plain Permitted)\<rparr>
                else if bg_mode bg = Monitor
                then \<sigma>\<lparr>pend := (pend \<sigma>)(i \<mapsto> record_with Bypassed MonitorBypassed)\<rparr>
                else \<sigma>\<lparr>chal := (chal \<sigma>)(i \<mapsto> \<lparr>cs_challenge = ch, cs_agent = a, cs_policy = p,
                  cs_egress = egr, cs_args_hash = ah, cs_authorized = auth\<rparr>)\<rparr>)
      in guarded
        [(a \<notin> active \<sigma>, AgentInactive), (a = root_agent bg, RootNotAllowed),
         (aps_tool p \<notin> tools \<sigma>, ToolNotRegistered),
         (\<not> integ_inspect p \<le> integ_floor p, IncoherentPolicy),
         (pend \<sigma> i \<noteq> None, InvocationExists), (i \<in> used_ids \<sigma>, InvocationReplayed),
         (chal \<sigma> i \<noteq> None, ChallengeAlreadyOpen),
         (\<not> set (items egr) \<subseteq> set (items (declared_egress p)), EgressNotNarrowing),
         (\<not> egress_ok p egr, EgressNotCovering),
         (refused \<and> \<not> set (items (required_caps p)) \<subseteq> caps \<sigma> a, CapabilityMissing),
         (refused \<and> \<not> auth, AuthorizerDenied),
         (refused \<and> \<not> gate_clear \<sigma> a p, ClearanceDenied),
         (refused \<and> \<not> gate_flow bg False \<sigma> a p egr, FlowGateBlocked),
         (refused, IntegrityFloorDenied)]
        (\<sigma>'\<lparr>used_ids := insert i (used_ids \<sigma>)\<rparr>, ActBeginInvocation a i (aps_tool p) v auth))"

definition spec_admits ::
  "background_theory \<Rightarrow> invocation_id \<Rightarrow> challenge_scope \<Rightarrow> spec_state \<Rightarrow> bool" where
  "spec_admits bg i c \<sigma> \<longleftrightarrow>
     cs_agent c \<in> active \<sigma> \<and> cs_agent c \<noteq> root_agent bg \<and> aps_tool (cs_policy c) \<in> tools \<sigma> \<and>
     integ_inspect (cs_policy c) \<le> integ_floor (cs_policy c) \<and> pend \<sigma> i = None \<and>
     egress_ok (cs_policy c) (cs_egress c) \<and>
     gate bg False \<sigma> (cs_agent c) (cs_policy c) (cs_egress c) (cs_authorized c)"

definition spec_authorize ::
  "background_theory \<Rightarrow> invocation_id \<Rightarrow> inspection_attestation \<Rightarrow> spec_state \<Rightarrow> spec_result" where [spec_defs]:
  "spec_authorize bg i att \<sigma> =
     (case chal \<sigma> i of
        None \<Rightarrow> Inl ChallengeNotOpen
      | Some c \<Rightarrow>
        let admit = (ia_positive att \<and> spec_admits bg i c \<sigma>);
            inspected = \<lparr>pi_agent = cs_agent c, pi_policy = cs_policy c, pi_egress = cs_egress c,
              admission = Inspected (ia_id att), disposition_of = Permitted,
              pi_authorized = cs_authorized c, quarantined = False\<rparr>
        in guarded
          [((ia_inv att, ia_challenge att, ia_args_hash att, ia_policy_digest att) \<noteq>
            (i, cs_challenge c, cs_args_hash c, policy_digest (cs_policy c)), ChallengeScopeMismatch),
           (ia_id att \<in> used_atts \<sigma>, AttestationConsumed)]
          (\<sigma>\<lparr>pend := (if admit then (pend \<sigma>)(i \<mapsto> inspected) else pend \<sigma>),
             chal := (chal \<sigma>)(i := None), used_atts := insert (ia_id att) (used_atts \<sigma>)\<rparr>,
           ActAuthorizeInspected i (ia_id att) admit))"

definition spec_endorsed :: "cross_input \<Rightarrow> spec_state \<Rightarrow> bool" where
  "spec_endorsed q \<sigma> \<longleftrightarrow>
     (\<exists>e g. x_evidence q = Some e \<and> evidence_matches q e \<and> ca_id e \<notin> used_atts \<sigma> \<and>
        grants \<sigma> \<lparr>ck_agent = x_rcv q, ck_assignment = x_assignment q\<rparr> = Some g \<and> remaining g > 0)"

definition spec_branch :: "cross_input \<Rightarrow> spec_state \<Rightarrow> cross_branch" where
  "spec_branch q \<sigma> =
     (if spec_endorsed q \<sigma> then Endorsed
      else if x_fallback q = ReleaseUnendorsed then Unendorsed else BrFail)"

definition spec_bounds_ok :: "cross_input \<Rightarrow> spec_state \<Rightarrow> bool" where
  "spec_bounds_ok q \<sigma> \<longleftrightarrow>
     released_integ q \<le> t_integ q \<and>
     (case t_conf q of Some c \<Rightarrow> released_conf q \<le> c
      | None \<Rightarrow> \<forall>l \<in> taint \<sigma> (x_src q). l \<le> released_conf q)"

text \<open>The two label sets that a branch moves from the source to the receiver.\<close>

definition spec_release :: "cross_input \<Rightarrow> spec_state \<Rightarrow> cross_branch \<Rightarrow> conf_level set \<times> integ_level set" where
  "spec_release q \<sigma> b =
     (case b of Endorsed \<Rightarrow> ({released_conf q}, {released_integ q})
      | Unendorsed \<Rightarrow> (taint \<sigma> (x_src q), integ \<sigma> (x_src q))
      | BrFail \<Rightarrow> ({}, {}))"

definition spend_grant :: "crossing_key \<Rightarrow> (crossing_key \<Rightarrow> crossing_grant option) \<Rightarrow> crossing_key \<Rightarrow> crossing_grant option" where
  "spend_grant k G =
     (case G k of Some g \<Rightarrow> G(k \<mapsto> g\<lparr>remaining := remaining g - 1\<rparr>) | None \<Rightarrow> G)"

definition spec_cross :: "background_theory \<Rightarrow> cross_input \<Rightarrow> spec_state \<Rightarrow> spec_result" where [spec_defs]:
  "spec_cross bg q \<sigma> =
     (let b = spec_branch q \<sigma>;
          cs = fst (spec_release q \<sigma> b);
          is = snd (spec_release q \<sigma> b);
          ok = holds_of bg \<sigma> (x_rcv q) cs is;
          added = add_labels (x_rcv q) cs is \<sigma>;
          released = (if ok then added else demote_all (x_rcv q) added);
          spent = (if b = Endorsed
            then released\<lparr>used_atts := used_atts \<sigma> \<union> ca_id ` set_option (x_evidence q),
              grants := spend_grant \<lparr>ck_agent = x_rcv q, ck_assignment = x_assignment q\<rparr> (grants \<sigma>)\<rparr>
            else released)
      in guarded
        [(x_src q \<notin> active \<sigma>, AgentInactive), (x_rcv q \<notin> active \<sigma>, AgentInactive),
         (\<exists>i j. pend \<sigma> i = Some j \<and> pi_agent j = x_src q, SourceInFlight),
         (x_crossing q \<in> used_crossings \<sigma>, CrossingReplayed),
         (b = Endorsed \<and> \<not> spec_bounds_ok q \<sigma>, CrossingBoundViolated),
         (\<not> ok \<and> bg_mode bg = Enforce, CrossingHoldFailed)]
        (spent\<lparr>used_crossings := insert (x_crossing q) (used_crossings \<sigma>)\<rparr>,
         ActCrossOutput (x_src q) (x_rcv q) (x_crossing q) b (if ok then Permitted else MonitorBypassed)))"

end
