(* ===== verification/Kernel_Refinement.thy ===== *)
theory Kernel_Refinement
  imports Kernel_Spec
begin

text \<open>
  The detailed transitions implement the abstract ones: reading the vectors of a state as sets
  and functions commutes with every transition, errors and recorded actions included.
\<close>

definition abs_state :: "kernel_state \<Rightarrow> spec_state" where
  "abs_state s =
     \<lparr>active = set (items (agent_active s)), parent_of = vm_get (agent_parent s),
      caps = vm_elems (agent_cap s), taint = vm_elems (taint_levels s),
      integ = vm_elems (integ_levels s), pend = vm_get (pending s), chal = vm_get (challenges s),
      used_ids = set (items (consumed_ids s)), used_atts = set (items (consumed_attestations s)),
      used_crossings = set (items (consumed_crossings s)), grants = vm_get (crossing_grants s),
      tools = set (items (tool_registered s))\<rparr>"

definition abs_result :: "kernel_result \<Rightarrow> spec_result" where
  "abs_result r = map_ok (\<lambda>(s, act). (abs_state s, act)) r"

lemma abs_state_fields [simp]:
  "active (abs_state s) = set (items (agent_active s))"
  "parent_of (abs_state s) = vm_get (agent_parent s)"
  "caps (abs_state s) = vm_elems (agent_cap s)"
  "taint (abs_state s) = vm_elems (taint_levels s)"
  "integ (abs_state s) = vm_elems (integ_levels s)"
  "pend (abs_state s) = vm_get (pending s)"
  "chal (abs_state s) = vm_get (challenges s)"
  "used_ids (abs_state s) = set (items (consumed_ids s))"
  "used_atts (abs_state s) = set (items (consumed_attestations s))"
  "used_crossings (abs_state s) = set (items (consumed_crossings s))"
  "grants (abs_state s) = vm_get (crossing_grants s)"
  "tools (abs_state s) = set (items (tool_registered s))"
  by (simp_all add: abs_state_def)

lemma spec_state_eqI:
  fixes \<sigma> \<tau> :: spec_state
  assumes "active \<sigma> = active \<tau>" "parent_of \<sigma> = parent_of \<tau>" "caps \<sigma> = caps \<tau>"
    "taint \<sigma> = taint \<tau>" "integ \<sigma> = integ \<tau>" "pend \<sigma> = pend \<tau>" "chal \<sigma> = chal \<tau>"
    "used_ids \<sigma> = used_ids \<tau>" "used_atts \<sigma> = used_atts \<tau>" "used_crossings \<sigma> = used_crossings \<tau>"
    "grants \<sigma> = grants \<tau>" "tools \<sigma> = tools \<tau>"
  shows "\<sigma> = \<tau>"
  using assms by (cases \<sigma>; cases \<tau>) simp

lemma abs_result_simps [simp]:
  "abs_result (Inl e) = Inl e"
  "abs_result (Inr (s, act)) = Inr (abs_state s, act)"
  by (simp_all add: abs_result_def)

lemma abs_result_if: "abs_result (if b then x else y) = (if b then abs_result x else abs_result y)"
  by simp

lemma abs_result_Inr_iff:
  "abs_result r = Inr (\<sigma>, act) \<longleftrightarrow> (\<exists>s. r = Inr (s, act) \<and> \<sigma> = abs_state s)"
  by (cases r) (auto simp: abs_result_def)

lemma mode_cases: "m \<noteq> Monitor \<longleftrightarrow> m = Enforce" "m \<noteq> Enforce \<longleftrightarrow> m = Monitor"
  by (cases m; simp)+

subsection \<open>State operations\<close>

lemma abs_update [abs_simps]:
  "abs_state (s\<lparr>agent_active := A\<rparr>) = (abs_state s)\<lparr>active := set (items A)\<rparr>"
  "abs_state (s\<lparr>agent_parent := P\<rparr>) = (abs_state s)\<lparr>parent_of := vm_get P\<rparr>"
  "abs_state (s\<lparr>agent_cap := C\<rparr>) = (abs_state s)\<lparr>caps := vm_elems C\<rparr>"
  "abs_state (s\<lparr>taint_levels := T\<rparr>) = (abs_state s)\<lparr>taint := vm_elems T\<rparr>"
  "abs_state (s\<lparr>integ_levels := I\<rparr>) = (abs_state s)\<lparr>integ := vm_elems I\<rparr>"
  "abs_state (s\<lparr>pending := J\<rparr>) = (abs_state s)\<lparr>pend := vm_get J\<rparr>"
  "abs_state (s\<lparr>challenges := Ch\<rparr>) = (abs_state s)\<lparr>chal := vm_get Ch\<rparr>"
  "abs_state (s\<lparr>consumed_ids := U\<rparr>) = (abs_state s)\<lparr>used_ids := set (items U)\<rparr>"
  "abs_state (s\<lparr>consumed_attestations := V\<rparr>) = (abs_state s)\<lparr>used_atts := set (items V)\<rparr>"
  "abs_state (s\<lparr>consumed_crossings := X\<rparr>) = (abs_state s)\<lparr>used_crossings := set (items X)\<rparr>"
  "abs_state (s\<lparr>crossing_grants := G\<rparr>) = (abs_state s)\<lparr>grants := vm_get G\<rparr>"
  "abs_state (s\<lparr>tool_registered := R\<rparr>) = (abs_state s)\<lparr>tools := set (items R)\<rparr>"
  by (simp_all add: abs_state_def)

lemma abs_drop_pending_of [abs_simps]:
  "abs_state (drop_pending_of s a) = (abs_state s)\<lparr>pend := drop_owned pi_agent a (vm_get (pending s))\<rparr>"
  by (rule spec_state_eqI) (simp_all add: vm_get_drop_pending_of drop_owned_def)

lemma abs_drop_challenges_of [abs_simps]:
  "abs_state (drop_challenges_of s a) =
     (abs_state s)\<lparr>chal := drop_owned cs_agent a (vm_get (challenges s))\<rparr>"
  by (rule spec_state_eqI) (simp_all add: vm_get_drop_challenges_of drop_owned_def)

lemma abs_drop_grants_of [abs_simps]:
  "abs_state (drop_grants_of s a) =
     (abs_state s)\<lparr>grants := (\<lambda>k. if ck_agent k = a then None else vm_get (crossing_grants s) k)\<rparr>"
  by (rule spec_state_eqI) (auto simp: vm_get_drop_grants_of)

lemma abs_demote_all_of [abs_simps]: "abs_state (demote_all_of s a) = demote_all a (abs_state s)"
  by (rule spec_state_eqI) (simp_all add: demote_all_def demote_owned_def vm_get_demote_all_of)

lemma abs_decrement_grant_at [abs_simps]:
  "abs_state (decrement_grant_at s a d) =
     (abs_state s)\<lparr>grants := spend_grant \<lparr>ck_agent = a, ck_assignment = d\<rparr> (vm_get (crossing_grants s))\<rparr>"
  by (rule spec_state_eqI) (simp_all add: vm_get_decrement_grant_at spend_grant_def Let_def)

lemma abs_clear_agent [abs_simps]: "abs_state (clear_agent s a) = deactivate a (abs_state s)"
  by (rule spec_state_eqI)
    (auto simp: clear_agent_def Let_def abs_simps vec_simps deactivate_def clear_compartment_def
      drop_owned_def)

subsection \<open>Gates\<close>

lemma abs_spec_conf: "spec_conf (\<lambda>_. True) (abs_state s) a = set (items (speculative_taint s a))"
  by (auto simp: spec_conf_def set_speculative_taint)

lemma abs_spec_integ: "spec_integ (\<lambda>_. True) (abs_state s) a = set (items (speculative_integ s a))"
  by (auto simp: spec_integ_def set_speculative_integ)

lemma abs_holds:
  "holds_of bg (abs_state s) a cs is \<longleftrightarrow>
     (\<forall>l \<in> cs. ingest_conf_hold s bg a l \<and> ingest_clear_hold s a l) \<and>
     (\<forall>l \<in> is. ingest_integ_hold s a l)"
  unfolding holds_of_def tolerates_def ingest_conf_hold_iff ingest_clear_hold_iff
    ingest_integ_hold_iff flow_pass_def integ_pass_def abs_state_fields
  by blast

lemma abs_ingest_holds: "holds_of bg (abs_state s) a {l} {i} \<longleftrightarrow> ingest_holds s bg a l i"
  by (simp add: abs_holds ingest_holds_def conj_assoc)

lemma abs_gate_clear: "gate_clear (abs_state s) a p \<longleftrightarrow> check_clearance s a p"
  unfolding gate_clear_def check_clearance_iff abs_spec_conf by auto

lemma abs_gate_flow: "gate_flow bg strict (abs_state s) a p egr \<longleftrightarrow> check_flow s bg a p egr strict"
  unfolding gate_flow_def check_flow_iff abs_spec_conf by auto

lemma abs_gate_integ: "gate_integ strict (abs_state s) a p \<longleftrightarrow> check_integ s a p strict"
  unfolding gate_integ_def check_integ_iff abs_spec_integ by auto

lemma abs_gate:
  "gate bg strict (abs_state s) a p egr auth \<longleftrightarrow>
     check_capability s a p \<and> auth \<and> check_clearance s a p \<and> check_flow s bg a p egr strict \<and>
     check_integ s a p strict"
  by (simp add: gate_def abs_gate_clear abs_gate_flow abs_gate_integ check_capability_iff)

lemma abs_egress_ok:
  "egress_ok p egr \<longleftrightarrow> egress_narrows egr (declared_egress p) \<and> egress_covers (declared_egress p) egr"
  by (simp add: egress_ok_def check_simps)

lemma abs_admits: "spec_admits bg i c (abs_state s) \<longleftrightarrow> authorize_admits s bg i c"
  by (simp add: spec_admits_def authorize_admits_def abs_gate abs_egress_ok begin_admissible_def
      vec_simps integ_le_iff vm_contains_key_iff conj_ac)

lemma abs_endorsed: "spec_endorsed q (abs_state s) \<longleftrightarrow> endorsed_ok s q"
  by (simp add: spec_endorsed_def endorsed_ok_iff)

lemma abs_bounds_ok: "spec_bounds_ok q (abs_state s) \<longleftrightarrow> bounds_ok s q"
  unfolding spec_bounds_ok_def bounds_ok_iff abs_state_fields ..

lemma abs_cross_holds:
  "holds_of bg (abs_state s) (x_rcv q) (fst (spec_release q (abs_state s) b))
     (snd (spec_release q (abs_state s) b)) \<longleftrightarrow> cross_holds s bg q b"
  unfolding abs_holds cross_holds_iff
  by (cases b) (simp_all add: spec_release_def released_taint_def released_integrity_def)

subsection \<open>Transitions\<close>

lemma register_refines: "abs_result (register_tool s t) = spec_register t (abs_state s)"
  by (auto simp: register_tool_def spec_defs guarded_eval vec_simps intro!: spec_state_eqI)

lemma unregister_refines: "abs_result (unregister_tool s t) = spec_unregister t (abs_state s)"
  by (auto simp: unregister_tool_def spec_defs guarded_eval vec_simps check_simps Let_def intro!: spec_state_eqI)

lemma grant_capability_refines:
  "abs_result (grant_capability s p c k) = spec_grant_capability p c k (abs_state s)"
  by (auto simp: grant_capability_def spec_defs guarded_eval vec_simps check_simps intro!: spec_state_eqI)

lemma grant_crossing_refines:
  "abs_result (grant_crossing s bg g a d n) = spec_grant_crossing bg g a d n (abs_state s)"
  by (auto simp: grant_crossing_def spec_defs guarded_eval vec_simps Let_def intro!: spec_state_eqI)

lemma revoke_refines: "abs_result (revoke s bg p a) = spec_revoke bg p a (abs_state s)"
  by (simp add: revoke_def spec_defs guarded_eval vec_simps check_simps abs_simps)

lemma cascade_revoke_refines:
  "abs_result (cascade_revoke s bg a p) = spec_cascade_revoke bg a p (abs_state s)"
  by (simp add: cascade_revoke_def spec_defs guarded_eval vec_simps check_simps abs_simps)

lemma ingest_refines:
  "abs_result (ingest s bg a src l i) = spec_ingest bg a src l i (abs_state s)"
proof -
  have src: "(\<exists>b. src = Some b \<and> \<not> ((\<forall>x \<in> vm_elems (taint_levels s) b. x \<le> l) \<and>
        (\<forall>y \<in> vm_elems (integ_levels s) b. i \<le> y))) \<longleftrightarrow>
      (case src of Some b \<Rightarrow> \<not> provenance_dominated s b l i | None \<Rightarrow> False)"
    by (simp add: provenance_dominated_iff split: option.split)
  show ?thesis
    unfolding ingest_def spec_ingest_def abs_ingest_holds abs_state_fields src Let_def
    by (simp add: guarded_eval vec_simps mode_cases abs_simps add_labels_def demote_all_def)
qed

lemma delegate_refines: "abs_result (delegate s bg p c) = spec_delegate bg p c (abs_state s)"
proof -
  let ?kept = "\<lambda>s. vm_scan (agent_parent s)
    (\<lambda>child p kept. if child \<noteq> c \<and> p \<noteq> c then vm_insert kept child p else kept) vm_new"
  have kept: "vm_get (vm_insert (?kept s) c p) = (vm_get (agent_parent s))(c \<mapsto> p)"
    if "c \<notin> ran (vm_get (agent_parent s))"
    using that by (auto simp: vec_simps fun_eq_iff ran_def split: option.split)
  have cleared: "abs_state (drop_grants_of (drop_challenges_of (drop_pending_of
      (s\<lparr>agent_active := vs_insert (agent_active s) c, agent_parent := vm_insert (?kept s) c p,
         agent_cap := vm_remove (agent_cap s) c, taint_levels := vm_remove (taint_levels s) c,
         integ_levels := vm_remove (integ_levels s) c\<rparr>) c) c) c) =
      clear_compartment c ((abs_state s)\<lparr>active := insert c (set (items (agent_active s))),
        parent_of := (vm_get (agent_parent s))(c \<mapsto> p)\<rparr>)"
    if "c \<notin> ran (vm_get (agent_parent s))"
    using kept [OF that]
    by (intro spec_state_eqI) (auto simp: abs_simps vec_simps clear_compartment_def drop_owned_def)
  have ran: "c \<in> ran (vm_get (agent_parent s)) \<longleftrightarrow> (\<exists>k. vm_get (agent_parent s) k = Some c)"
    by (auto simp: ran_def)
  show ?thesis
    using cleared by (auto simp: delegate_def spec_defs guarded_eval vec_simps is_parent_iff ran Let_def)
qed

lemma settle_refines:
  "abs_result (settle_invocation s i out att) = spec_settle i out att (abs_state s)"
proof (cases "vm_get (pending s) i")
  case None
  then show ?thesis by (simp add: settle_invocation_def spec_defs guarded_eval)
next
  case (Some j)
  have valid: "(case att of Some r \<Rightarrow> ra_inv r = i \<and> ra_outcome r = out \<and>
        \<not> vs_contains (consumed_attestations s) (ra_id r) | None \<Rightarrow> False) \<longleftrightarrow>
      (\<exists>r. att = Some r \<and> ra_inv r = i \<and> ra_outcome r = out \<and>
        ra_id r \<notin> set (items (consumed_attestations s)))"
    by (simp add: vec_simps split: option.split)
  show ?thesis
    unfolding settle_invocation_def spec_settle_def valid Let_def
    using Some
    by (cases att; cases "contained j"; cases "out = Ambiguous")
      (simp_all add: guarded_eval vec_simps abs_simps contained_def demote_all_def add_labels_def)
qed

lemma authorize_refines:
  "abs_result (authorize_inspected s bg i att) = spec_authorize bg i att (abs_state s)"
  unfolding authorize_inspected_def spec_authorize_def abs_admits
  by (auto simp: guarded_eval vec_simps abs_simps Let_def split: option.split)

lemma begin_refines:
  "abs_result (begin_invocation s bg a i ch p egr ah auth) =
     spec_begin bg a i ch p egr ah auth (abs_state s)"
  unfolding begin_invocation_def spec_begin_def spec_verdict_def abs_gate abs_gate_clear
    abs_gate_flow abs_gate_integ abs_egress_ok
  by (cases "bg_mode bg")
    (simp_all add: guarded_eval vec_simps egress_narrows_iff check_capability_iff integ_le_iff abs_simps Let_def
      vm_contains_key_iff check_flow_strict check_integ_strict, blast)

text \<open>A crossing releases the same labels, spends the same grant and demotes the same records.\<close>

lemma abs_release [abs_simps]:
  "abs_state (release_labels s q b) =
     add_labels (x_rcv q) (fst (spec_release q (abs_state s) b))
       (snd (spec_release q (abs_state s) b)) (abs_state s)"
  by (rule spec_state_eqI; cases b)
    (simp_all add: release_labels_fields vec_simps add_labels_def spec_release_def)

lemma abs_branch: "spec_branch q (abs_state s) = select_branch s q"
  by (cases "x_fallback q") (simp_all add: spec_branch_def select_branch_def abs_endorsed)

lemma release_labels_frame [simp]:
  "consumed_crossings (release_labels s q b) = consumed_crossings s"
  "consumed_attestations (release_labels s q b) = consumed_attestations s"
  "crossing_grants (release_labels s q b) = crossing_grants s"
  "pending (release_labels s q b) = pending s"
  by (simp_all add: release_labels_fields)

lemma abs_in_flight:
  "(\<exists>i j. pend (abs_state s) i = Some j \<and> pi_agent j = a) \<longleftrightarrow> source_in_flight s a"
  by (simp add: source_in_flight_iff)

lemma cross_refines: "abs_result (cross_output s bg q) = spec_cross bg q (abs_state s)"
  unfolding cross_output_def spec_cross_def abs_branch abs_cross_holds abs_in_flight Let_def
  by (cases "x_evidence q"; cases "select_branch s q")
    (simp_all add: guarded_eval vec_simps abs_bounds_ok mode_cases abs_simps demote_all_def
      add_labels_def)

end
