(* ===== verification/Spec_Invariants.thy ===== *)
theory Spec_Invariants
  imports Kernel_Spec
begin

text \<open>
  The safety invariants of the kernel over the abstract state, in five groups (the delegation
  tree, ownership, pending records, open challenges, confinement and grants), and the proof that
  each of the twelve actions preserves them.
\<close>

definition forest :: "(agent_id \<Rightarrow> agent_id option) \<Rightarrow> bool" where
  "forest m \<longleftrightarrow> acyclic {(c, p). m c = Some p}"

definition tree_ok :: "background_theory \<Rightarrow> spec_state \<Rightarrow> bool" where
  "tree_ok bg \<sigma> \<longleftrightarrow>
     root_agent bg \<in> active \<sigma> \<and> parent_of \<sigma> (root_agent bg) = None \<and>
     dom (parent_of \<sigma>) = active \<sigma> - {root_agent bg} \<and> forest (parent_of \<sigma>) \<and> caps \<sigma> (root_agent bg) = UNIV \<and>
     (\<forall>c p. parent_of \<sigma> c = Some p \<longrightarrow> p \<in> active \<sigma> \<longrightarrow> caps \<sigma> c \<subseteq> caps \<sigma> p)"

definition owned_ok :: "spec_state \<Rightarrow> bool" where
  "owned_ok \<sigma> \<longleftrightarrow>
     (\<forall>a. a \<notin> active \<sigma> \<longrightarrow> caps \<sigma> a = {} \<and> taint \<sigma> a = {} \<and> integ \<sigma> a = {}) \<and>
     (\<forall>i j. pend \<sigma> i = Some j \<longrightarrow> pi_agent j \<in> active \<sigma>) \<and>
     (\<forall>i c. chal \<sigma> i = Some c \<longrightarrow> cs_agent c \<in> active \<sigma>) \<and>
     (\<forall>k g. grants \<sigma> k = Some g \<longrightarrow> ck_agent k \<in> active \<sigma>)"

definition record_ok ::
  "background_theory \<Rightarrow> spec_state \<Rightarrow> invocation_id \<Rightarrow> pending_invocation \<Rightarrow> bool" where
  "record_ok bg \<sigma> i j \<longleftrightarrow>
     aps_tool (pi_policy j) \<in> tools \<sigma> \<and> pi_agent j \<noteq> root_agent bg \<and> i \<in> used_ids \<sigma> \<and>
     egress_ok (pi_policy j) (pi_egress j) \<and>
     integ_inspect (pi_policy j) \<le> integ_floor (pi_policy j) \<and>
     disposition_of j \<noteq> Blocked \<and>
     (contained j \<longrightarrow>
        pi_authorized j \<and> set (items (required_caps (pi_policy j))) \<subseteq> caps \<sigma> (pi_agent j)) \<and>
     (\<forall>t. admission j = Inspected t \<longrightarrow> t \<in> used_atts \<sigma>) \<and>
     (\<not> contained j \<or> admission j = Bypassed \<longrightarrow> bg_mode bg = Monitor)"

definition records_ok :: "background_theory \<Rightarrow> spec_state \<Rightarrow> bool" where
  "records_ok bg \<sigma> \<longleftrightarrow> (\<forall>i j. pend \<sigma> i = Some j \<longrightarrow> record_ok bg \<sigma> i j)"

definition challenge_ok ::
  "background_theory \<Rightarrow> spec_state \<Rightarrow> invocation_id \<Rightarrow> challenge_scope \<Rightarrow> bool" where
  "challenge_ok bg \<sigma> i c \<longleftrightarrow>
     pend \<sigma> i = None \<and> i \<in> used_ids \<sigma> \<and> cs_agent c \<noteq> root_agent bg \<and>
     aps_tool (cs_policy c) \<in> tools \<sigma> \<and>
     integ_inspect (cs_policy c) \<le> integ_floor (cs_policy c) \<and>
     egress_ok (cs_policy c) (cs_egress c) \<and> cs_authorized c \<and> bg_mode bg = Enforce"

definition challenges_ok :: "background_theory \<Rightarrow> spec_state \<Rightarrow> bool" where
  "challenges_ok bg \<sigma> \<longleftrightarrow> (\<forall>i c. chal \<sigma> i = Some c \<longrightarrow> challenge_ok bg \<sigma> i c)"

text \<open>
  Every permitted pending record tolerates all labels its agent holds or may absorb from its
  other permitted records.
\<close>

definition confined :: "background_theory \<Rightarrow> spec_state \<Rightarrow> bool" where
  "confined bg \<sigma> \<longleftrightarrow>
     (\<forall>i j. pend \<sigma> i = Some j \<longrightarrow> contained j \<longrightarrow>
        tolerates bg j (spec_conf contained \<sigma> (pi_agent j)) (spec_integ contained \<sigma> (pi_agent j)))"

definition grants_ok :: "spec_state \<Rightarrow> bool" where
  "grants_ok \<sigma> \<longleftrightarrow> (\<forall>k g. grants \<sigma> k = Some g \<longrightarrow> remaining g \<le> provisioned g)"

definition spec_inv :: "background_theory \<Rightarrow> spec_state \<Rightarrow> bool" where
  "spec_inv bg \<sigma> \<longleftrightarrow>
     tree_ok bg \<sigma> \<and> owned_ok \<sigma> \<and> records_ok bg \<sigma> \<and> challenges_ok bg \<sigma> \<and> confined bg \<sigma> \<and> grants_ok \<sigma>"

subsection \<open>The delegation tree\<close>

lemma forest_remove: "forest m \<Longrightarrow> forest (m(a := None))"
  unfolding forest_def by (erule acyclic_subset) (auto split: if_splits)

lemma forest_leaf:
  assumes "forest m" "c \<notin> ran m" "c \<noteq> p"
  shows "forest (m(c \<mapsto> p))"
proof -
  let ?R = "{(x, y). m x = Some y} :: (agent_id \<times> agent_id) set"
  have "(p, c) \<notin> ?R\<^sup>*"
    using assms(2,3) by (auto simp: ran_def elim: rtranclE)
  then have "acyclic (insert (c, p) ?R)"
    using assms(1) by (simp add: forest_def acyclic_insert)
  moreover have "{(x, y). (m(c \<mapsto> p)) x = Some y} \<subseteq> insert (c, p) ?R"
    by (auto split: if_splits)
  ultimately show ?thesis
    unfolding forest_def by (rule acyclic_subset)
qed

lemma forest_irrefl: "forest m \<Longrightarrow> m a \<noteq> Some a"
  unfolding forest_def acyclic_def by blast

lemmas step_defs = spec_defs guarded_Inr_iff clear_compartment_def deactivate_def add_labels_def
  demote_all_def

lemma tree_delegate:
  assumes "tree_ok bg \<sigma>" "owned_ok \<sigma>" "spec_delegate bg p c \<sigma> = Inr (\<sigma>', act)"
  shows "tree_ok bg \<sigma>'"
proof -
  have new: "p \<in> active \<sigma>" "c \<notin> active \<sigma>" "c \<noteq> root_agent bg" "c \<notin> ran (parent_of \<sigma>)"
    and \<sigma>': "\<sigma>' = clear_compartment c
      (\<sigma>\<lparr>active := insert c (active \<sigma>), parent_of := (parent_of \<sigma>)(c \<mapsto> p)\<rparr>)"
    using assms(3) by (auto simp: spec_defs guarded_Inr_iff)
  have "forest ((parent_of \<sigma>)(c \<mapsto> p))"
    using assms(1) new by (intro forest_leaf) (auto simp: tree_ok_def)
  with new assms(1) show ?thesis
    by (auto simp: tree_ok_def \<sigma>' clear_compartment_def ran_def)
qed

lemma tree_deactivate:
  "tree_ok bg \<sigma> \<Longrightarrow> a \<noteq> root_agent bg \<Longrightarrow> tree_ok bg (deactivate a \<sigma>)"
  by (auto simp: tree_ok_def deactivate_def clear_compartment_def forest_remove)

lemma tree_grant_capability:
  assumes "tree_ok bg \<sigma>" "spec_grant_capability p c k \<sigma> = Inr (\<sigma>', act)"
  shows "tree_ok bg \<sigma>'"
proof -
  have \<sigma>': "\<sigma>' = \<sigma>\<lparr>caps := (caps \<sigma>)(c := insert k (caps \<sigma> c))\<rparr>"
    and par: "parent_of \<sigma> c = Some p" "k \<in> caps \<sigma> p"
    using assms(2) by (auto simp: spec_defs guarded_Inr_iff)
  from assms(1) par have "p \<noteq> c" using forest_irrefl by (auto simp: tree_ok_def)
  moreover have "caps \<sigma> x \<subseteq> caps \<sigma> y" if "parent_of \<sigma> x = Some y" "y \<in> active \<sigma>" for x y
    using assms(1) that unfolding tree_ok_def by blast
  ultimately show ?thesis
    using assms(1) par unfolding tree_ok_def \<sigma>' by (auto simp: subset_insertI2)
qed

text \<open>The other actions leave the tree and the capabilities alone.\<close>

lemma tree_cong:
  "active \<tau> = active \<sigma> \<Longrightarrow> parent_of \<tau> = parent_of \<sigma> \<Longrightarrow> caps \<tau> = caps \<sigma> \<Longrightarrow>
     tree_ok bg \<tau> \<longleftrightarrow> tree_ok bg \<sigma>"
  by (simp add: tree_ok_def)

subsection \<open>Ownership\<close>

lemma owned_delegate:
  "owned_ok \<sigma> \<Longrightarrow> spec_delegate bg p c \<sigma> = Inr (\<sigma>', act) \<Longrightarrow> owned_ok \<sigma>'"
  by (auto simp: owned_ok_def step_defs split: if_splits)

lemma owned_deactivate: "owned_ok \<sigma> \<Longrightarrow> owned_ok (deactivate a \<sigma>)"
  by (auto simp: owned_ok_def step_defs split: if_splits)

lemma owned_grant_capability:
  "owned_ok \<sigma> \<Longrightarrow> spec_grant_capability p c k \<sigma> = Inr (\<sigma>', act) \<Longrightarrow> owned_ok \<sigma>'"
  by (auto simp: owned_ok_def step_defs split: if_splits)

lemma owned_grant_crossing:
  "owned_ok \<sigma> \<Longrightarrow> spec_grant_crossing bg g a d n \<sigma> = Inr (\<sigma>', act) \<Longrightarrow> owned_ok \<sigma>'"
  by (auto simp: owned_ok_def step_defs split: if_splits)

lemma owned_demote: "owned_ok \<sigma> \<Longrightarrow> owned_ok (demote_all a \<sigma>)"
  by (auto simp: owned_ok_def demote_all_def demote_owned_Some_iff)

lemma owned_add_labels: "owned_ok \<sigma> \<Longrightarrow> a \<in> active \<sigma> \<Longrightarrow> owned_ok (add_labels a cs is \<sigma>)"
  by (auto simp: owned_ok_def add_labels_def)

subsection \<open>Pending records and challenges\<close>

lemma record_ok_mono:
  assumes "record_ok bg \<sigma> i j" "aps_tool (pi_policy j) \<in> tools \<sigma> \<longrightarrow> aps_tool (pi_policy j) \<in> tools \<tau>"
    "used_ids \<sigma> \<subseteq> used_ids \<tau>" "used_atts \<sigma> \<subseteq> used_atts \<tau>" "caps \<sigma> (pi_agent j) \<subseteq> caps \<tau> (pi_agent j)"
  shows "record_ok bg \<tau> i j"
  using assms unfolding record_ok_def by blast

lemma records_frame:
  assumes "records_ok bg \<sigma>"
    and "\<And>i j. pend \<tau> i = Some j \<Longrightarrow> pend \<sigma> i = Some j \<and>
      (aps_tool (pi_policy j) \<in> tools \<sigma> \<longrightarrow> aps_tool (pi_policy j) \<in> tools \<tau>) \<and>
      caps \<sigma> (pi_agent j) \<subseteq> caps \<tau> (pi_agent j)"
    and "used_ids \<sigma> \<subseteq> used_ids \<tau>" "used_atts \<sigma> \<subseteq> used_atts \<tau>"
  shows "records_ok bg \<tau>"
  using assms unfolding records_ok_def by (meson record_ok_mono)

lemma record_ok_demote:
  "record_ok bg \<sigma> i j \<Longrightarrow> bg_mode bg = Monitor \<Longrightarrow> record_ok bg \<sigma> i (demote j)"
  by (simp add: record_ok_def)

lemma records_demote:
  assumes "records_ok bg \<sigma>" "bg_mode bg = Monitor"
  shows "records_ok bg (demote_all a \<sigma>)"
proof -
  have "record_ok bg (demote_all a \<sigma>) i j = record_ok bg \<sigma> i j" for i j
    by (simp add: record_ok_def demote_all_def)
  with assms show ?thesis
    by (auto simp: records_ok_def demote_all_def demote_owned_Some_iff record_ok_demote)
qed

lemma records_admit:
  assumes "records_ok bg \<sigma>" "record_ok bg \<tau> i j" "pend \<tau> = (pend \<sigma>)(i \<mapsto> j)"
    "tools \<tau> = tools \<sigma>" "caps \<tau> = caps \<sigma>" "used_ids \<sigma> \<subseteq> used_ids \<tau>" "used_atts \<sigma> \<subseteq> used_atts \<tau>"
  shows "records_ok bg \<tau>"
  using assms unfolding records_ok_def by (auto intro: record_ok_mono [of bg \<sigma>])

lemma challenges_frame:
  assumes "challenges_ok bg \<sigma>"
    and "\<And>i c. chal \<tau> i = Some c \<Longrightarrow> chal \<sigma> i = Some c \<and> (pend \<sigma> i = None \<longrightarrow> pend \<tau> i = None) \<and>
      (aps_tool (cs_policy c) \<in> tools \<sigma> \<longrightarrow> aps_tool (cs_policy c) \<in> tools \<tau>)"
    and "used_ids \<sigma> \<subseteq> used_ids \<tau>"
  shows "challenges_ok bg \<tau>"
  using assms unfolding challenges_ok_def challenge_ok_def by blast

lemma demote_owned_None_iff [simp]: "demote_owned a m i = None \<longleftrightarrow> m i = None"
  by (simp add: demote_owned_def)

subsection \<open>Confinement\<close>

lemma tolerates_mono:
  "tolerates bg j cs is \<Longrightarrow> cs' \<subseteq> cs \<Longrightarrow> is' \<subseteq> is \<Longrightarrow> tolerates bg j cs' is'"
  unfolding tolerates_def by blast

lemma tolerates_Un:
  "tolerates bg j (cs \<union> cs') (is \<union> is') \<longleftrightarrow> tolerates bg j cs is \<and> tolerates bg j cs' is'"
  unfolding tolerates_def by blast

text \<open>Only the egress, the policy and the admission of a record matter.\<close>

lemma tolerates_cong:
  "pi_policy j' = pi_policy j \<Longrightarrow> pi_egress j' = pi_egress j \<Longrightarrow> admission j' = admission j \<Longrightarrow>
     tolerates bg j' = tolerates bg j"
  by (simp add: tolerates_def vouched_def fun_eq_iff)

lemma spec_labels_mono:
  assumes "\<And>i j. pend \<tau> i = Some j \<Longrightarrow> pi_agent j = a \<Longrightarrow> P j \<Longrightarrow> pend \<sigma> i = Some j"
  shows "taint \<tau> a \<subseteq> taint \<sigma> a \<Longrightarrow> spec_conf P \<tau> a \<subseteq> spec_conf P \<sigma> a"
    and "integ \<tau> a \<subseteq> integ \<sigma> a \<Longrightarrow> spec_integ P \<tau> a \<subseteq> spec_integ P \<sigma> a"
  using assms unfolding spec_conf_def spec_integ_def by blast+

lemma contained_not_demote: "contained j \<Longrightarrow> j \<noteq> demote j'"
  by auto

lemma confined_frame:
  assumes "confined bg \<sigma>"
    and "\<And>i j. pend \<tau> i = Some j \<Longrightarrow> contained j \<Longrightarrow> pend \<sigma> i = Some j \<and>
      taint \<tau> (pi_agent j) \<subseteq> taint \<sigma> (pi_agent j) \<and> integ \<tau> (pi_agent j) \<subseteq> integ \<sigma> (pi_agent j)"
  shows "confined bg \<tau>"
  unfolding confined_def
proof (intro allI impI)
  fix i j assume j: "pend \<tau> i = Some j" "contained j"
  show "tolerates bg j (spec_conf contained \<tau> (pi_agent j)) (spec_integ contained \<tau> (pi_agent j))"
  proof (rule tolerates_mono)
    show "tolerates bg j (spec_conf contained \<sigma> (pi_agent j)) (spec_integ contained \<sigma> (pi_agent j))"
      using assms j by (auto simp: confined_def)
    show "spec_conf contained \<tau> (pi_agent j) \<subseteq> spec_conf contained \<sigma> (pi_agent j)"
      using assms(2) j by (intro spec_labels_mono) blast+
    show "spec_integ contained \<tau> (pi_agent j) \<subseteq> spec_integ contained \<sigma> (pi_agent j)"
      using assms(2) j by (intro spec_labels_mono) blast+
  qed
qed

lemma confined_add_labels:
  assumes "confined bg \<sigma>" "holds_of bg \<sigma> a cs is"
  shows "confined bg (add_labels a cs is \<sigma>)"
  unfolding confined_def
proof (intro allI impI)
  fix i j assume "pend (add_labels a cs is \<sigma>) i = Some j" "contained j"
  then have j: "pend \<sigma> i = Some j" "contained j" by (simp_all add: add_labels_def)
  let ?b = "pi_agent j"
  have old: "tolerates bg j (spec_conf contained \<sigma> ?b) (spec_integ contained \<sigma> ?b)"
    using assms(1) j by (simp add: confined_def)
  have "tolerates bg j (spec_conf contained \<sigma> ?b \<union> (if ?b = a then cs else {}))
      (spec_integ contained \<sigma> ?b \<union> (if ?b = a then is else {}))"
    unfolding tolerates_Un using old assms(2) j by (auto simp: holds_of_def tolerates_def)
  then show "tolerates bg j (spec_conf contained (add_labels a cs is \<sigma>) ?b)
      (spec_integ contained (add_labels a cs is \<sigma>) ?b)"
    by (rule tolerates_mono) (auto simp: spec_conf_def spec_integ_def add_labels_def)
qed

text \<open>Demotion makes the labels of its agent irrelevant.\<close>

lemma confined_demote:
  assumes "confined bg \<sigma>"
    and "\<And>i j. pend \<tau> i = Some j \<Longrightarrow> pi_agent j \<noteq> a \<Longrightarrow> pend \<sigma> i = Some j"
    and "\<And>b. b \<noteq> a \<Longrightarrow> taint \<tau> b = taint \<sigma> b \<and> integ \<tau> b = integ \<sigma> b"
  shows "confined bg (demote_all a \<tau>)"
  by (rule confined_frame [OF assms(1)])
    (auto simp: demote_all_def demote_owned_Some_iff assms dest: contained_not_demote split: if_splits)

text \<open>Absorbing the frozen output of a permitted record that closes adds nothing new.\<close>

lemma confined_absorb:
  assumes "confined bg \<sigma>" "pend \<sigma> i = Some j" "contained j"
  shows "confined bg (add_labels (pi_agent j) {output_conf (pi_policy j)} {output_integ (pi_policy j)}
    (\<sigma>\<lparr>pend := (pend \<sigma>)(i := None)\<rparr>))"
    (is "confined bg ?\<tau>")
  unfolding confined_def
proof (intro allI impI)
  fix i' j' assume "pend ?\<tau> i' = Some j'" "contained j'"
  then have j': "pend \<sigma> i' = Some j'" "contained j'"
    by (auto simp: add_labels_def split: if_splits)
  then have "tolerates bg j' (spec_conf contained \<sigma> (pi_agent j')) (spec_integ contained \<sigma> (pi_agent j'))"
    using assms(1) by (simp add: confined_def)
  then show "tolerates bg j' (spec_conf contained ?\<tau> (pi_agent j')) (spec_integ contained ?\<tau> (pi_agent j'))"
    by (rule tolerates_mono)
      (use assms(2,3) in \<open>auto simp: spec_conf_def spec_integ_def add_labels_def split: if_splits\<close>)
qed

lemma confined_quarantine:
  assumes "confined bg \<sigma>" "pend \<sigma> i = Some j"
  shows "confined bg (\<sigma>\<lparr>pend := (pend \<sigma>)(i \<mapsto> j\<lparr>quarantined := True\<rparr>)\<rparr>)"
    (is "confined bg ?\<tau>")
proof -
  have same: "spec_conf contained ?\<tau> b = spec_conf contained \<sigma> b"
    "spec_integ contained ?\<tau> b = spec_integ contained \<sigma> b" for b
    using assms(2)
    by (auto simp: spec_conf_def spec_integ_def contained_def split: if_splits)
      (metis option.inject pending_invocation.select_convs pending_invocation.simps)+
  have tol: "tolerates bg (j\<lparr>quarantined := True\<rparr>) = tolerates bg j"
    by (rule tolerates_cong) simp_all
  show ?thesis
    using assms unfolding confined_def same
    by (auto simp: tol contained_def split: if_splits)
qed

text \<open>A record that passed the gate may join the pending ones.\<close>

lemma flow_pass_weaken: "flow_pass bg strict v l e \<Longrightarrow> strict \<or> (v \<longrightarrow> w) \<Longrightarrow> flow_pass bg False w l e"
  by (auto simp: flow_pass_def)

lemma integ_pass_weaken: "integ_pass p strict v l \<Longrightarrow> strict \<or> (v \<longrightarrow> w) \<Longrightarrow> integ_pass p False w l"
  by (auto simp: integ_pass_def)

lemma gate_tolerates:
  assumes "gate bg strict \<sigma> (pi_agent r) (pi_policy r) (pi_egress r) auth" "strict \<or> vouched r"
  shows "tolerates bg r (insert (output_conf (pi_policy r)) (spec_conf (\<lambda>_. True) \<sigma> (pi_agent r)))
      (insert (output_integ (pi_policy r)) (spec_integ (\<lambda>_. True) \<sigma> (pi_agent r)))"
    and "holds_of bg \<sigma> (pi_agent r) {output_conf (pi_policy r)} {output_integ (pi_policy r)}"
  using assms unfolding gate_def gate_clear_def gate_flow_def gate_integ_def tolerates_def holds_of_def
  by (blast intro: flow_pass_weaken integ_pass_weaken)+

lemma spec_labels_insert:
  assumes "pend \<tau> = (pend \<sigma>)(i \<mapsto> r)" "taint \<tau> = taint \<sigma>" "integ \<tau> = integ \<sigma>"
  shows "spec_conf contained \<tau> (pi_agent r) \<subseteq>
      insert (output_conf (pi_policy r)) (spec_conf (\<lambda>_. True) \<sigma> (pi_agent r))"
    and "spec_integ contained \<tau> (pi_agent r) \<subseteq>
      insert (output_integ (pi_policy r)) (spec_integ (\<lambda>_. True) \<sigma> (pi_agent r))"
    and "spec_conf contained \<tau> b \<subseteq> spec_conf contained \<sigma> b \<union>
      (if b = pi_agent r \<and> contained r then {output_conf (pi_policy r)} else {})"
    and "spec_integ contained \<tau> b \<subseteq> spec_integ contained \<sigma> b \<union>
      (if b = pi_agent r \<and> contained r then {output_integ (pi_policy r)} else {})"
  using assms by (auto simp: spec_conf_def spec_integ_def split: if_splits)

lemma confined_admit:
  assumes "confined bg \<sigma>" and \<tau>: "pend \<tau> = (pend \<sigma>)(i \<mapsto> r)" "taint \<tau> = taint \<sigma>" "integ \<tau> = integ \<sigma>"
    and gate: "contained r \<Longrightarrow> gate bg strict \<sigma> (pi_agent r) (pi_policy r) (pi_egress r) auth"
      "strict \<or> vouched r \<or> \<not> contained r"
  shows "confined bg \<tau>"
  unfolding confined_def
proof (intro allI impI)
  fix i' j assume j: "pend \<tau> i' = Some j" "contained j"
  show "tolerates bg j (spec_conf contained \<tau> (pi_agent j)) (spec_integ contained \<tau> (pi_agent j))"
  proof (cases "i' = i")
    case True
    with j \<tau> have "j = r" by simp
    with j gate have "gate bg strict \<sigma> (pi_agent r) (pi_policy r) (pi_egress r) auth"
      "strict \<or> vouched r" by auto
    from gate_tolerates(1) [OF this] show ?thesis
      unfolding \<open>j = r\<close> by (rule tolerates_mono) (rule spec_labels_insert [OF \<tau>])+
  next
    case False
    with j \<tau> have j': "pend \<sigma> i' = Some j" "contained j" by auto
    let ?new = "pi_agent j = pi_agent r \<and> contained r"
    have "tolerates bg j (if ?new then {output_conf (pi_policy r)} else {})
        (if ?new then {output_integ (pi_policy r)} else {})"
      using gate_tolerates(2) [OF gate(1)] gate(2) j' by (auto simp: holds_of_def tolerates_def)
    with j' assms(1) have "tolerates bg j
        (spec_conf contained \<sigma> (pi_agent j) \<union> (if ?new then {output_conf (pi_policy r)} else {}))
        (spec_integ contained \<sigma> (pi_agent j) \<union> (if ?new then {output_integ (pi_policy r)} else {}))"
      by (simp only: tolerates_Un) (simp add: confined_def)
    then show ?thesis
      by (rule tolerates_mono) (rule spec_labels_insert [OF \<tau>])+
  qed
qed

subsection \<open>Preservation, action by action\<close>

lemmas spec_inv_parts = spec_inv_def

lemma mode_other: "m \<noteq> Enforce \<longleftrightarrow> m = Monitor"
  by (cases m) simp_all

lemma grants_demote [simp]: "grants_ok (demote_all a \<sigma>) = grants_ok \<sigma>"
  by (simp add: grants_ok_def demote_all_def)

lemma inv_register:
  assumes "spec_inv bg \<sigma>" "spec_register t \<sigma> = Inr (\<sigma>', act)"
  shows "spec_inv bg \<sigma>'"
proof -
  have \<sigma>': "\<sigma>' = \<sigma>\<lparr>tools := insert t (tools \<sigma>)\<rparr>"
    using assms(2) by (simp add: spec_defs guarded_Inr_iff)
  show ?thesis
    using assms(1) unfolding spec_inv_def \<sigma>'
    by (auto simp: tree_ok_def owned_ok_def grants_ok_def elim!: records_frame challenges_frame confined_frame)
qed

lemma inv_unregister:
  assumes "spec_inv bg \<sigma>" "spec_unregister t \<sigma> = Inr (\<sigma>', act)"
  shows "spec_inv bg \<sigma>'"
proof -
  have \<sigma>': "\<sigma>' = \<sigma>\<lparr>tools := tools \<sigma> - {t}\<rparr>"
    and free: "\<And>i j. pend \<sigma> i = Some j \<Longrightarrow> aps_tool (pi_policy j) \<noteq> t"
      "\<And>i c. chal \<sigma> i = Some c \<Longrightarrow> aps_tool (cs_policy c) \<noteq> t"
    using assms(2) by (auto simp: spec_defs guarded_Inr_iff)
  show ?thesis
    using assms(1) free unfolding spec_inv_def \<sigma>'
    by (auto simp: tree_ok_def owned_ok_def grants_ok_def elim!: records_frame challenges_frame confined_frame)
qed

lemma inv_clear_compartment:
  assumes "records_ok bg \<sigma>" "challenges_ok bg \<sigma>" "confined bg \<sigma>" "grants_ok \<sigma>"
  shows "records_ok bg (clear_compartment a \<sigma>)" "challenges_ok bg (clear_compartment a \<sigma>)"
    "confined bg (clear_compartment a \<sigma>)" "grants_ok (clear_compartment a \<sigma>)"
  using assms
  by (auto simp: clear_compartment_def grants_ok_def drop_owned_None
      elim!: records_frame challenges_frame confined_frame)

lemma frame_edges:
  "records_ok bg (\<sigma>\<lparr>active := A, parent_of := P\<rparr>) = records_ok bg \<sigma>"
  "challenges_ok bg (\<sigma>\<lparr>active := A, parent_of := P\<rparr>) = challenges_ok bg \<sigma>"
  "confined bg (\<sigma>\<lparr>active := A, parent_of := P\<rparr>) = confined bg \<sigma>"
  "grants_ok (\<sigma>\<lparr>active := A, parent_of := P\<rparr>) = grants_ok \<sigma>"
  by (simp_all add: records_ok_def record_ok_def challenges_ok_def challenge_ok_def confined_def
      spec_conf_def spec_integ_def grants_ok_def)

lemma inv_delegate:
  assumes "spec_inv bg \<sigma>" "spec_delegate bg p c \<sigma> = Inr (\<sigma>', act)"
  shows "spec_inv bg \<sigma>'"
proof -
  have \<sigma>': "\<sigma>' = clear_compartment c
      (\<sigma>\<lparr>active := insert c (active \<sigma>), parent_of := (parent_of \<sigma>)(c \<mapsto> p)\<rparr>)"
    using assms(2) by (auto simp: spec_defs guarded_Inr_iff)
  have "tree_ok bg \<sigma>'" "owned_ok \<sigma>'"
    using assms tree_delegate owned_delegate by (auto simp: spec_inv_def)
  with assms(1) show ?thesis
    unfolding spec_inv_def by (auto simp: \<sigma>' frame_edges intro!: inv_clear_compartment)
qed

lemma inv_deactivate:
  assumes "spec_inv bg \<sigma>" "a \<noteq> root_agent bg"
  shows "spec_inv bg (deactivate a \<sigma>)"
proof -
  have "tree_ok bg (deactivate a \<sigma>)" "owned_ok (deactivate a \<sigma>)"
    using assms tree_deactivate owned_deactivate by (auto simp: spec_inv_def)
  with assms(1) show ?thesis
    unfolding spec_inv_def by (auto simp: deactivate_def frame_edges intro!: inv_clear_compartment)
qed

lemma inv_revoke:
  "spec_inv bg \<sigma> \<Longrightarrow> spec_revoke bg p a \<sigma> = Inr (\<sigma>', act) \<Longrightarrow> spec_inv bg \<sigma>'"
  by (auto simp: spec_defs guarded_Inr_iff intro: inv_deactivate)

lemma inv_cascade_revoke:
  "spec_inv bg \<sigma> \<Longrightarrow> spec_cascade_revoke bg a p \<sigma> = Inr (\<sigma>', act) \<Longrightarrow> spec_inv bg \<sigma>'"
  by (auto simp: spec_defs guarded_Inr_iff intro: inv_deactivate)

lemma inv_grant_capability:
  assumes "spec_inv bg \<sigma>" "spec_grant_capability p c k \<sigma> = Inr (\<sigma>', act)"
  shows "spec_inv bg \<sigma>'"
proof -
  have \<sigma>': "\<sigma>' = \<sigma>\<lparr>caps := (caps \<sigma>)(c := insert k (caps \<sigma> c))\<rparr>"
    using assms(2) by (auto simp: spec_defs guarded_Inr_iff)
  have "tree_ok bg \<sigma>'" "owned_ok \<sigma>'"
    using assms tree_grant_capability owned_grant_capability by (auto simp: spec_inv_def)
  with assms(1) show ?thesis
    unfolding spec_inv_def
    by (auto simp: \<sigma>' grants_ok_def elim!: records_frame challenges_frame confined_frame)
qed

lemma inv_grant_crossing:
  assumes "spec_inv bg \<sigma>" "spec_grant_crossing bg g a d n \<sigma> = Inr (\<sigma>', act)"
  shows "spec_inv bg \<sigma>'"
proof -
  have \<sigma>': "\<sigma>' = \<sigma>\<lparr>grants := (grants \<sigma>)(\<lparr>ck_agent = a, ck_assignment = d\<rparr> \<mapsto>
      \<lparr>remaining = n, provisioned = n\<rparr>)\<rparr>"
    using assms(2) by (auto simp: spec_defs guarded_Inr_iff)
  have "owned_ok \<sigma>'"
    using assms owned_grant_crossing by (auto simp: spec_inv_def)
  with assms(1) show ?thesis
    unfolding spec_inv_def
    by (auto simp: \<sigma>' tree_ok_def grants_ok_def elim!: records_frame challenges_frame confined_frame)
qed

text \<open>Labels that pass the holds may be added; in monitor mode any labels may, with a demotion.\<close>

lemma inv_add_labels:
  assumes "spec_inv bg \<sigma>" "a \<in> active \<sigma>" "holds_of bg \<sigma> a cs is"
  shows "spec_inv bg (add_labels a cs is \<sigma>)"
proof -
  have "owned_ok (add_labels a cs is \<sigma>)" "confined bg (add_labels a cs is \<sigma>)"
    using assms owned_add_labels confined_add_labels by (auto simp: spec_inv_def)
  with assms(1) show ?thesis
    unfolding spec_inv_def
    by (auto simp: add_labels_def tree_ok_def grants_ok_def elim!: records_frame challenges_frame)
qed

lemma inv_add_labels_demote:
  assumes "spec_inv bg \<sigma>" "a \<in> active \<sigma>" "bg_mode bg = Monitor"
  shows "spec_inv bg (demote_all a (add_labels a cs is \<sigma>))"
proof -
  let ?\<tau> = "add_labels a cs is \<sigma>"
  have "owned_ok (demote_all a ?\<tau>)"
    using assms owned_add_labels owned_demote by (auto simp: spec_inv_def)
  moreover have "confined bg (demote_all a ?\<tau>)"
    using assms(1) by (intro confined_demote [where \<sigma> = \<sigma>]) (auto simp: spec_inv_def add_labels_def)
  moreover have "records_ok bg ?\<tau>"
    using assms(1) unfolding spec_inv_def by (auto simp: add_labels_def elim!: records_frame)
  then have "records_ok bg (demote_all a ?\<tau>)"
    using assms(3) by (rule records_demote)
  ultimately show ?thesis
    using assms(1) unfolding spec_inv_def
    by (auto simp: demote_all_def add_labels_def tree_ok_def grants_ok_def elim!: challenges_frame)
qed

lemma inv_ingest:
  assumes "spec_inv bg \<sigma>" "spec_ingest bg a src l i \<sigma> = Inr (\<sigma>', act)"
  shows "spec_inv bg \<sigma>'"
  using assms inv_add_labels inv_add_labels_demote
  by (auto simp: spec_defs guarded_Inr_iff Let_def mode_other)

lemma inv_used_atts:
  assumes "spec_inv bg \<sigma>"
  shows "spec_inv bg (\<sigma>\<lparr>used_atts := used_atts \<sigma> \<union> A\<rparr>)"
  using assms unfolding spec_inv_def
  by (auto simp: tree_ok_def owned_ok_def grants_ok_def elim!: records_frame challenges_frame confined_frame)

text \<open>Closing a record frees its slot, keeping every other record and challenge.\<close>

lemma inv_quarantine:
  assumes "spec_inv bg \<sigma>" "pend \<sigma> i = Some j"
  shows "spec_inv bg (\<sigma>\<lparr>pend := (pend \<sigma>)(i \<mapsto> j\<lparr>quarantined := True\<rparr>)\<rparr>)"
    (is "spec_inv bg ?\<tau>")
proof -
  have "records_ok bg ?\<tau>"
  proof (rule records_admit)
    show "record_ok bg ?\<tau> i (j\<lparr>quarantined := True\<rparr>)"
      using assms by (auto simp: spec_inv_def records_ok_def record_ok_def contained_def)
  qed (use assms in \<open>auto simp: spec_inv_def\<close>)
  moreover have "confined bg ?\<tau>"
    using assms confined_quarantine by (auto simp: spec_inv_def)
  ultimately show ?thesis
    using assms unfolding spec_inv_def
    by (auto simp: tree_ok_def owned_ok_def grants_ok_def elim!: challenges_frame split: if_splits)
qed

lemma inv_close:
  assumes "spec_inv bg \<sigma>"
  shows "spec_inv bg (\<sigma>\<lparr>pend := (pend \<sigma>)(i := None)\<rparr>)"
  using assms unfolding spec_inv_def
  by (auto simp: tree_ok_def owned_ok_def grants_ok_def split: if_splits
      elim!: records_frame challenges_frame confined_frame)

lemma inv_absorb:
  assumes "spec_inv bg \<sigma>" "pend \<sigma> i = Some j" "contained j"
  shows "spec_inv bg (add_labels (pi_agent j) {output_conf (pi_policy j)} {output_integ (pi_policy j)}
    (\<sigma>\<lparr>pend := (pend \<sigma>)(i := None)\<rparr>))"
    (is "spec_inv bg (add_labels ?a ?cs ?is ?\<tau>)")
proof -
  have \<tau>: "spec_inv bg ?\<tau>" using assms(1) by (rule inv_close)
  have "confined bg (add_labels ?a ?cs ?is ?\<tau>)"
    using assms confined_absorb by (auto simp: spec_inv_def)
  moreover have "owned_ok (add_labels ?a ?cs ?is ?\<tau>)"
    using \<tau> assms(1,2) by (intro owned_add_labels) (auto simp: spec_inv_def owned_ok_def)
  ultimately show ?thesis
    using \<tau> unfolding spec_inv_def
    by (auto simp: add_labels_def tree_ok_def grants_ok_def elim!: records_frame challenges_frame)
qed

lemma inv_demote:
  assumes "spec_inv bg \<sigma>" "bg_mode bg = Monitor" "a \<in> active \<sigma>"
  shows "spec_inv bg (demote_all a \<sigma>)"
  using inv_add_labels_demote [OF assms(1) assms(3) assms(2), of "{}" "{}"] by (simp add: add_labels_def)

lemma inv_settle:
  assumes "spec_inv bg \<sigma>" "spec_settle i out att \<sigma> = Inr (\<sigma>', act)"
  shows "spec_inv bg \<sigma>'"
proof -
  obtain j where j: "pend \<sigma> i = Some j"
    using assms(2) by (auto simp: spec_defs split: option.splits)
  let ?a = "pi_agent j"
  let ?closed = "if out = Ambiguous then \<sigma>\<lparr>pend := (pend \<sigma>)(i \<mapsto> j\<lparr>quarantined := True\<rparr>)\<rparr>
    else add_labels ?a {output_conf (pi_policy j)} {output_integ (pi_policy j)}
      (\<sigma>\<lparr>pend := (pend \<sigma>)(i := None)\<rparr>)"
  let ?settled = "if contained j then ?closed else demote_all ?a ?closed"
  have \<sigma>': "\<sigma>' = ?settled\<lparr>used_atts := used_atts \<sigma> \<union> ra_id ` set_option att\<rparr>"
    using assms(2) j by (simp add: spec_defs guarded_Inr_iff Let_def)
  have act: "?a \<in> active \<sigma>"
    using assms(1) j by (auto simp: spec_inv_def owned_ok_def)
  have "spec_inv bg ?settled"
  proof (cases "contained j")
    case True
    then show ?thesis using assms(1) j by (simp add: inv_quarantine inv_absorb)
  next
    case False
    then have "bg_mode bg = Monitor"
      using assms(1) j by (auto simp: spec_inv_def records_ok_def record_ok_def)
    with False act show ?thesis
      using assms(1) j by (auto intro: inv_demote inv_quarantine inv_add_labels_demote inv_close)
  qed
  moreover have "used_atts ?settled = used_atts \<sigma>"
    by (simp add: demote_all_def add_labels_def)
  ultimately show ?thesis
    unfolding \<sigma>' using inv_used_atts [of bg ?settled] by presburger
qed

text \<open>A new pending record that passed the gate, or a bypassed one in monitor mode.\<close>

lemma inv_admit:
  assumes inv: "spec_inv bg \<sigma>" and r: "record_ok bg \<tau> i r" "pi_agent r \<in> active \<sigma>"
    and \<tau>: "\<tau> = \<sigma>\<lparr>pend := (pend \<sigma>)(i \<mapsto> r), chal := (chal \<sigma>)(i := None),
        used_ids := insert i (used_ids \<sigma>), used_atts := used_atts \<sigma> \<union> A\<rparr>"
    and gate: "contained r \<Longrightarrow> gate bg strict \<sigma> (pi_agent r) (pi_policy r) (pi_egress r) auth"
      "strict \<or> vouched r \<or> \<not> contained r"
  shows "spec_inv bg \<tau>"
proof -
  have "confined bg \<tau>"
    using inv gate by (intro confined_admit [of bg \<sigma> \<tau> i r strict auth]) (simp_all add: spec_inv_def \<tau>)
  moreover have "records_ok bg \<tau>"
    using inv r by (intro records_admit [of bg \<sigma> \<tau> i r]) (auto simp: spec_inv_def \<tau>)
  moreover have "challenges_ok bg \<tau>"
    using inv by (intro challenges_frame [of bg \<sigma> \<tau>]) (auto simp: spec_inv_def \<tau> split: if_splits)
  ultimately show ?thesis
    using inv r(2) unfolding spec_inv_def
    by (auto simp: \<tau> tree_ok_def owned_ok_def grants_ok_def split: if_splits)
qed

lemma inv_open_challenge:
  assumes "spec_inv bg \<sigma>" "challenge_ok bg \<tau> i c" "cs_agent c \<in> active \<sigma>"
    and \<tau>: "\<tau> = \<sigma>\<lparr>chal := (chal \<sigma>)(i \<mapsto> c), used_ids := insert i (used_ids \<sigma>)\<rparr>"
  shows "spec_inv bg \<tau>"
proof -
  have "challenges_ok bg \<tau>"
    using assms by (auto simp: challenges_ok_def challenge_ok_def spec_inv_def)
  then show ?thesis
    using assms unfolding spec_inv_def
    by (auto simp: \<tau> tree_ok_def owned_ok_def grants_ok_def split: if_splits
        elim!: records_frame confined_frame)
qed

lemma inv_begin:
  assumes inv: "spec_inv bg \<sigma>" and step: "spec_begin bg a i ch p egr ah auth \<sigma> = Inr (\<sigma>', act)"
  shows "spec_inv bg \<sigma>'"
proof -
  let ?v = "spec_verdict bg \<sigma> a p egr auth"
  let ?rec = "\<lambda>adm disp. \<lparr>pi_agent = a, pi_policy = p, pi_egress = egr, admission = adm,
    disposition_of = disp, pi_authorized = auth, quarantined = False\<rparr>"
  let ?c = "\<lparr>cs_challenge = ch, cs_agent = a, cs_policy = p, cs_egress = egr, cs_args_hash = ah,
    cs_authorized = auth\<rparr>"
  have g: "a \<in> active \<sigma>" "a \<noteq> root_agent bg" "aps_tool p \<in> tools \<sigma>"
      "integ_inspect p \<le> integ_floor p" "pend \<sigma> i = None" "chal \<sigma> i = None" "egress_ok p egr"
      "\<not> (?v = Deny \<and> bg_mode bg = Enforce)"
    using step by (simp_all add: spec_defs guarded_Inr_iff Let_def)
  have \<sigma>': "\<sigma>' = (if ?v = Allow then \<sigma>\<lparr>pend := (pend \<sigma>)(i \<mapsto> ?rec Plain Permitted)\<rparr>
      else if bg_mode bg = Monitor then \<sigma>\<lparr>pend := (pend \<sigma>)(i \<mapsto> ?rec Bypassed MonitorBypassed)\<rparr>
      else \<sigma>\<lparr>chal := (chal \<sigma>)(i \<mapsto> ?c)\<rparr>)\<lparr>used_ids := insert i (used_ids \<sigma>)\<rparr>"
    using step by (simp add: spec_defs guarded_Inr_iff Let_def)
  have same: "(chal \<sigma>)(i := None) = chal \<sigma>" using g by auto
  consider "?v = Allow" | "?v \<noteq> Allow" "bg_mode bg = Monitor" | "?v = InspectionRequired" "bg_mode bg = Enforce"
    using g(8) mode_other by (cases ?v) auto
  then show ?thesis
  proof cases
    case 1
    then have gate: "gate bg True \<sigma> a p egr auth" by (simp add: spec_verdict_def split: if_splits)
    show ?thesis
    proof (rule inv_admit [OF inv, where strict = True])
      show "\<sigma>' = \<sigma>\<lparr>pend := (pend \<sigma>)(i \<mapsto> ?rec Plain Permitted), chal := (chal \<sigma>)(i := None),
          used_ids := insert i (used_ids \<sigma>), used_atts := used_atts \<sigma> \<union> {}\<rparr>"
        using 1 by (simp add: \<sigma>' same)
      show "record_ok bg \<sigma>' i (?rec Plain Permitted)"
        using g gate 1 by (simp add: \<sigma>' record_ok_def contained_def gate_def)
    qed (use g gate in simp_all)
  next
    case 2
    show ?thesis
    proof (rule inv_admit [OF inv, where strict = True])
      show "\<sigma>' = \<sigma>\<lparr>pend := (pend \<sigma>)(i \<mapsto> ?rec Bypassed MonitorBypassed), chal := (chal \<sigma>)(i := None),
          used_ids := insert i (used_ids \<sigma>), used_atts := used_atts \<sigma> \<union> {}\<rparr>"
        using 2 by (simp add: \<sigma>' same)
      show "record_ok bg \<sigma>' i (?rec Bypassed MonitorBypassed)"
        using g 2 by (simp add: \<sigma>' record_ok_def contained_def)
    qed (use g in \<open>simp_all add: contained_def\<close>)
  next
    case 3
    then have auth: auth by (simp add: spec_verdict_def gate_def split: if_splits)
    show ?thesis
    proof (rule inv_open_challenge [OF inv])
      show "\<sigma>' = \<sigma>\<lparr>chal := (chal \<sigma>)(i \<mapsto> ?c), used_ids := insert i (used_ids \<sigma>)\<rparr>"
        using 3 by (simp add: \<sigma>')
      show "challenge_ok bg \<sigma>' i ?c"
        using g 3 auth by (simp add: \<sigma>' challenge_ok_def)
    qed (use g in simp)
  qed
qed

lemma inv_close_challenge:
  assumes "spec_inv bg \<sigma>"
  shows "spec_inv bg (\<sigma>\<lparr>chal := (chal \<sigma>)(i := None), used_atts := used_atts \<sigma> \<union> A\<rparr>)"
  using assms unfolding spec_inv_def
  by (auto simp: tree_ok_def owned_ok_def grants_ok_def split: if_splits
      elim!: records_frame challenges_frame confined_frame)

lemma inv_authorize:
  assumes inv: "spec_inv bg \<sigma>" and step: "spec_authorize bg i att \<sigma> = Inr (\<sigma>', act)"
  shows "spec_inv bg \<sigma>'"
proof -
  obtain c where c: "chal \<sigma> i = Some c"
    using step by (auto simp: spec_defs split: option.splits)
  let ?admit = "ia_positive att \<and> spec_admits bg i c \<sigma>"
  let ?r = "\<lparr>pi_agent = cs_agent c, pi_policy = cs_policy c, pi_egress = cs_egress c,
    admission = Inspected (ia_id att), disposition_of = Permitted,
    pi_authorized = cs_authorized c, quarantined = False\<rparr>"
  have \<sigma>': "\<sigma>' = \<sigma>\<lparr>pend := (if ?admit then (pend \<sigma>)(i \<mapsto> ?r) else pend \<sigma>),
      chal := (chal \<sigma>)(i := None), used_atts := insert (ia_id att) (used_atts \<sigma>)\<rparr>"
    using step c by (simp add: spec_defs guarded_Inr_iff Let_def)
  show ?thesis
  proof (cases ?admit)
    case True
    have used: "insert i (used_ids \<sigma>) = used_ids \<sigma>"
      using inv c by (auto simp: spec_inv_def challenges_ok_def challenge_ok_def)
    from True have adm: "spec_admits bg i c \<sigma>" ..
    then have gate: "gate bg False \<sigma> (cs_agent c) (cs_policy c) (cs_egress c) (cs_authorized c)"
      by (simp add: spec_admits_def)
    show ?thesis
    proof (rule inv_admit [OF inv, where strict = False])
      show "\<sigma>' = \<sigma>\<lparr>pend := (pend \<sigma>)(i \<mapsto> ?r), chal := (chal \<sigma>)(i := None),
          used_ids := insert i (used_ids \<sigma>), used_atts := used_atts \<sigma> \<union> {ia_id att}\<rparr>"
        using True by (simp add: \<sigma>' used)
      show "record_ok bg \<sigma>' i ?r"
        using adm gate used by (auto simp: \<sigma>' record_ok_def contained_def spec_admits_def gate_def)
      show "pi_agent ?r \<in> active \<sigma>" using adm by (simp add: spec_admits_def)
    qed (use gate in \<open>simp_all add: vouched_def\<close>)
  next
    case False
    then have "\<sigma>' = \<sigma>\<lparr>chal := (chal \<sigma>)(i := None), used_atts := used_atts \<sigma> \<union> {ia_id att}\<rparr>"
      by (auto simp: \<sigma>')
    then show ?thesis
      using inv by (simp only: inv_close_challenge)
  qed
qed

lemma word_pred_le: "0 < (w :: 32 word) \<Longrightarrow> w - 1 \<le> w"
  by (auto simp: word_le_nat_alt word_greater_zero_iff unat_minus_one)

lemma grants_spend:
  assumes "grants_ok \<sigma>" "\<And>g. grants \<sigma> k = Some g \<Longrightarrow> remaining g > 0"
    and "spend_grant k (grants \<sigma>) k' = Some g'"
  shows "remaining g' \<le> provisioned g'"
  using assms
  by (auto simp: spend_grant_def grants_ok_def split: option.splits if_splits)
    (meson order.trans word_pred_le)

lemma inv_spend:
  assumes "spec_inv bg \<sigma>" "\<And>g. grants \<sigma> k = Some g \<Longrightarrow> remaining g > 0"
  shows "spec_inv bg (\<sigma>\<lparr>used_atts := used_atts \<sigma> \<union> A, grants := spend_grant k (grants \<sigma>)\<rparr>)"
proof -
  have "grants_ok (\<sigma>\<lparr>used_atts := used_atts \<sigma> \<union> A, grants := spend_grant k (grants \<sigma>)\<rparr>)"
    using assms grants_spend [of \<sigma> k] by (simp add: spec_inv_def grants_ok_def) 
  moreover have "spend_grant k (grants \<sigma>) k' = Some g \<Longrightarrow> \<exists>g'. grants \<sigma> k' = Some g'" for k' g
    by (auto simp: spend_grant_def split: option.splits if_splits)
  ultimately show ?thesis
    using assms(1) unfolding spec_inv_def
    by (auto simp: tree_ok_def owned_ok_def elim!: records_frame challenges_frame confined_frame)
qed

lemma inv_cross:
  assumes inv: "spec_inv bg \<sigma>" and step: "spec_cross bg q \<sigma> = Inr (\<sigma>', act)"
  shows "spec_inv bg \<sigma>'"
proof -
  let ?b = "spec_branch q \<sigma>"
  let ?cs = "fst (spec_release q \<sigma> ?b)" and ?is = "snd (spec_release q \<sigma> ?b)"
  let ?ok = "holds_of bg \<sigma> (x_rcv q) ?cs ?is"
  let ?added = "add_labels (x_rcv q) ?cs ?is \<sigma>"
  let ?released = "if ?ok then ?added else demote_all (x_rcv q) ?added"
  let ?k = "\<lparr>ck_agent = x_rcv q, ck_assignment = x_assignment q\<rparr>"
  let ?spent = "if ?b = Endorsed
    then ?released\<lparr>used_atts := used_atts \<sigma> \<union> ca_id ` set_option (x_evidence q),
      grants := spend_grant ?k (grants \<sigma>)\<rparr> else ?released"
  have \<sigma>': "\<sigma>' = ?spent\<lparr>used_crossings := insert (x_crossing q) (used_crossings \<sigma>)\<rparr>"
    and g: "x_rcv q \<in> active \<sigma>" "\<not> ?ok \<Longrightarrow> bg_mode bg = Monitor"
    using step by (auto simp: spec_defs guarded_Inr_iff Let_def mode_other)
  have released: "spec_inv bg ?released"
    using inv g by (auto intro: inv_add_labels inv_add_labels_demote)
  have frame: "used_atts ?released = used_atts \<sigma>" "grants ?released = grants \<sigma>"
    by (simp_all add: demote_all_def add_labels_def)
  have "remaining g > 0" if "?b = Endorsed" "grants \<sigma> ?k = Some g" for g
    using that by (auto simp: spec_branch_def spec_endorsed_def split: if_splits)
  then have "spec_inv bg ?spent"
    using released inv_spend [OF released, of ?k "ca_id ` set_option (x_evidence q)"]
    unfolding frame by auto
  then show ?thesis
    unfolding \<sigma>' spec_inv_def
    by (auto simp: tree_ok_def owned_ok_def grants_ok_def elim!: records_frame challenges_frame confined_frame)
qed

end
