(* ===== verification/Transition_Systems.thy ===== *)
theory Transition_Systems
  imports Main
begin

text \<open>
  Labelled transition systems: runs with their label sequence, and the interfaces under which the
  kernel's step relation is reasoned about. \<open>invariant_system\<close> carries an invariant along
  runs, \<open>simulation\<close> transports runs to an abstract system, \<open>refined_invariant\<close> combines
  them (and is itself an invariant system), \<open>growing_history\<close> is a set that only grows, and
  \<open>one_use\<close> extends it with the identifiers each step consumes.
\<close>

inductive run :: "('s \<Rightarrow> 'l \<Rightarrow> 's \<Rightarrow> bool) \<Rightarrow> 's \<Rightarrow> 'l list \<Rightarrow> 's \<Rightarrow> bool" for step where
  run_nil: "run step s [] s"
| run_cons: "step s l s' \<Longrightarrow> run step s' ls s'' \<Longrightarrow> run step s (l # ls) s''"

inductive_simps run_Nil_iff [simp]: "run step s [] s'"
inductive_simps run_Cons_iff: "run step s (l # ls) s'"

lemma run_append: "run step s ls s' \<Longrightarrow> run step s' ls' s'' \<Longrightarrow> run step s (ls @ ls') s''"
  by (induction rule: run.induct) (auto intro: run_cons)

lemma run_snoc: "run step s ls s' \<Longrightarrow> step s' l s'' \<Longrightarrow> run step s (ls @ [l]) s''"
  by (erule run_append) (auto intro: run.intros)

lemma run_append_iff:
  "run step s (ls @ ls') s'' \<longleftrightarrow> (\<exists>s'. run step s ls s' \<and> run step s' ls' s'')"
  by (induction ls arbitrary: s) (auto simp: run_Cons_iff)

text \<open>A deterministic step makes runs deterministic.\<close>

lemma run_deterministic:
  assumes det: "\<And>s l s' s''. step s l s' \<Longrightarrow> step s l s'' \<Longrightarrow> s' = s''"
  shows "run step s ls s' \<Longrightarrow> run step s ls s'' \<Longrightarrow> s' = s''"
proof (induction arbitrary: s'' rule: run.induct)
  case (run_cons s l s' ls t)
  from run_cons.prems obtain u where u: "step s l u" "run step u ls s''"
    by (auto simp: run_Cons_iff)
  from det [OF run_cons.hyps(1) u(1)] u(2) show ?case
    by (auto intro: run_cons.IH)
qed simp

locale invariant_system =
  fixes init :: "'s \<Rightarrow> bool"
    and step :: "'s \<Rightarrow> 'l \<Rightarrow> 's \<Rightarrow> bool"
    and inv :: "'s \<Rightarrow> bool"
  assumes inv_init: "init s \<Longrightarrow> inv s"
    and inv_step: "inv s \<Longrightarrow> step s l s' \<Longrightarrow> inv s'"
begin

lemma inv_run: "run step s ls s' \<Longrightarrow> inv s \<Longrightarrow> inv s'"
  by (induction rule: run.induct) (auto intro: inv_step)

lemma inv_reachable: "init s \<Longrightarrow> run step s ls s' \<Longrightarrow> inv s'"
  by (auto intro: inv_run inv_init)

text \<open>Every intermediate state of an execution satisfies the invariant too.\<close>

lemma inv_throughout: "init s \<Longrightarrow> run step s (ls @ ls') s' \<Longrightarrow> \<exists>t. run step s ls t \<and> inv t"
  by (auto simp: run_append_iff intro: inv_reachable)

end

locale simulation =
  fixes cstep :: "'c \<Rightarrow> 'l \<Rightarrow> 'c \<Rightarrow> bool"
    and astep :: "'a \<Rightarrow> 'l \<Rightarrow> 'a \<Rightarrow> bool"
    and abs :: "'c \<Rightarrow> 'a"
  assumes sim_step: "cstep c l c' \<Longrightarrow> astep (abs c) l (abs c')"
begin

lemma sim_run: "run cstep c ls c' \<Longrightarrow> run astep (abs c) ls (abs c')"
  by (induction rule: run.induct) (auto intro: run.intros sim_step)

end

locale refined_invariant = simulation cstep astep abs + abstract: invariant_system ainit astep ainv
  for cstep :: "'c \<Rightarrow> 'l \<Rightarrow> 'c \<Rightarrow> bool" and astep :: "'a \<Rightarrow> 'l \<Rightarrow> 'a \<Rightarrow> bool" and abs :: "'c \<Rightarrow> 'a"
    and ainit :: "'a \<Rightarrow> bool" and ainv :: "'a \<Rightarrow> bool" +
  fixes cinit :: "'c \<Rightarrow> bool"
  assumes sim_init: "cinit c \<Longrightarrow> ainit (abs c)"

sublocale refined_invariant \<subseteq> concrete: invariant_system cinit cstep "\<lambda>c. ainv (abs c)"
  by unfold_locales (auto intro: sim_init abstract.inv_init abstract.inv_step sim_step)

locale growing_history =
  fixes step :: "'s \<Rightarrow> 'l \<Rightarrow> 's \<Rightarrow> bool"
    and hist :: "'s \<Rightarrow> 'h set"
  assumes hist_step: "step s l s' \<Longrightarrow> hist s \<subseteq> hist s'"
begin

lemma hist_run: "run step s ls s' \<Longrightarrow> hist s \<subseteq> hist s'"
  by (induction rule: run.induct) (auto dest: hist_step)

end

locale one_use = growing_history step hist
  for step :: "'s \<Rightarrow> 'l \<Rightarrow> 's \<Rightarrow> bool" and hist :: "'s \<Rightarrow> 'h set" +
  fixes uses :: "'l \<Rightarrow> 'h option"
  assumes use_fresh: "step s l s' \<Longrightarrow> uses l = Some h \<Longrightarrow> h \<notin> hist s"
    and use_recorded: "step s l s' \<Longrightarrow> uses l = Some h \<Longrightarrow> h \<in> hist s'"
begin

lemma used_run:
  "run step s ls s' \<Longrightarrow>
     distinct (List.map_filter uses ls) \<and> set (List.map_filter uses ls) \<inter> hist s = {} \<and>
     set (List.map_filter uses ls) \<subseteq> hist s'"
proof (induction rule: run.induct)
  case (run_nil s)
  then show ?case by (simp add: List.map_filter_simps)
next
  case (run_cons s l s' ls s'')
  then show ?case
    using hist_step [OF run_cons.hyps(1)] hist_run [OF run_cons.hyps(2)]
      use_fresh [OF run_cons.hyps(1)] use_recorded [OF run_cons.hyps(1)]
    by (auto simp: List.map_filter_simps split: option.split)
qed

end

end
