(* ===== verification/Kernel_Reach.thy ===== *)
theory Kernel_Reach
  imports Kernel_Refinement Spec_Invariants Transition_Systems
begin

text \<open>
  The kernel as a transition system: one rule per transition function, labelled with the recorded
  action. The invariants of \<open>Spec_Invariants\<close> carry over to every state the detailed kernel
  reaches from \<open>initial_state\<close>, the vectors stay free of duplicates, and the three consumed
  histories make every invocation, attestation and crossing identifier usable at most once. Those
  identifiers are read from the call and its recorded action together, since the evidence of an
  endorsed crossing is an argument of the call only.
\<close>

inductive kstep :: "background_theory \<Rightarrow> kernel_state \<Rightarrow> kernel_action \<Rightarrow> kernel_state \<Rightarrow> bool"
  for bg where
  step_register: "register_tool s t = Inr (s', act) \<Longrightarrow> kstep bg s act s'"
| step_unregister: "unregister_tool s t = Inr (s', act) \<Longrightarrow> kstep bg s act s'"
| step_delegate: "delegate s bg p c = Inr (s', act) \<Longrightarrow> kstep bg s act s'"
| step_grant_capability: "grant_capability s p c k = Inr (s', act) \<Longrightarrow> kstep bg s act s'"
| step_grant_crossing: "grant_crossing s bg g a d n = Inr (s', act) \<Longrightarrow> kstep bg s act s'"
| step_revoke: "revoke s bg p a = Inr (s', act) \<Longrightarrow> kstep bg s act s'"
| step_cascade_revoke: "cascade_revoke s bg a p = Inr (s', act) \<Longrightarrow> kstep bg s act s'"
| step_ingest: "ingest s bg a src l i = Inr (s', act) \<Longrightarrow> kstep bg s act s'"
| step_settle: "settle_invocation s ivk out att = Inr (s', act) \<Longrightarrow> kstep bg s act s'"
| step_begin: "begin_invocation s bg a ivk ch p egr ah auth = Inr (s', act) \<Longrightarrow> kstep bg s act s'"
| step_authorize: "authorize_inspected s bg ivk ia = Inr (s', act) \<Longrightarrow> kstep bg s act s'"
| step_cross: "cross_output s bg q = Inr (s', act) \<Longrightarrow> kstep bg s act s'"

inductive spec_step :: "background_theory \<Rightarrow> spec_state \<Rightarrow> kernel_action \<Rightarrow> spec_state \<Rightarrow> bool"
  for bg where
  spec_step_register: "spec_register t \<sigma> = Inr (\<sigma>', act) \<Longrightarrow> spec_step bg \<sigma> act \<sigma>'"
| spec_step_unregister: "spec_unregister t \<sigma> = Inr (\<sigma>', act) \<Longrightarrow> spec_step bg \<sigma> act \<sigma>'"
| spec_step_delegate: "spec_delegate bg p c \<sigma> = Inr (\<sigma>', act) \<Longrightarrow> spec_step bg \<sigma> act \<sigma>'"
| spec_step_grant_capability: "spec_grant_capability p c k \<sigma> = Inr (\<sigma>', act) \<Longrightarrow> spec_step bg \<sigma> act \<sigma>'"
| spec_step_grant_crossing: "spec_grant_crossing bg g a d n \<sigma> = Inr (\<sigma>', act) \<Longrightarrow> spec_step bg \<sigma> act \<sigma>'"
| spec_step_revoke: "spec_revoke bg p a \<sigma> = Inr (\<sigma>', act) \<Longrightarrow> spec_step bg \<sigma> act \<sigma>'"
| spec_step_cascade_revoke: "spec_cascade_revoke bg a p \<sigma> = Inr (\<sigma>', act) \<Longrightarrow> spec_step bg \<sigma> act \<sigma>'"
| spec_step_ingest: "spec_ingest bg a src l i \<sigma> = Inr (\<sigma>', act) \<Longrightarrow> spec_step bg \<sigma> act \<sigma>'"
| spec_step_settle: "spec_settle ivk out att \<sigma> = Inr (\<sigma>', act) \<Longrightarrow> spec_step bg \<sigma> act \<sigma>'"
| spec_step_begin: "spec_begin bg a ivk ch p egr ah auth \<sigma> = Inr (\<sigma>', act) \<Longrightarrow> spec_step bg \<sigma> act \<sigma>'"
| spec_step_authorize: "spec_authorize bg ivk ia \<sigma> = Inr (\<sigma>', act) \<Longrightarrow> spec_step bg \<sigma> act \<sigma>'"
| spec_step_cross: "spec_cross bg q \<sigma> = Inr (\<sigma>', act) \<Longrightarrow> spec_step bg \<sigma> act \<sigma>'"

lemmas kernel_refines = register_refines unregister_refines delegate_refines
  grant_capability_refines grant_crossing_refines revoke_refines cascade_revoke_refines
  ingest_refines settle_refines begin_refines authorize_refines cross_refines

lemma refines_step: "r = Inr (s', act) \<Longrightarrow> abs_result r = Inr (abs_state s', act)"
  by simp

lemma kstep_refines: "kstep bg s act s' \<Longrightarrow> spec_step bg (abs_state s) act (abs_state s')"
  by (induction rule: kstep.induct; drule refines_step; simp only: kernel_refines)
    (erule spec_step.intros)+

lemma spec_inv_step: "spec_step bg \<sigma> act \<sigma>' \<Longrightarrow> spec_inv bg \<sigma> \<Longrightarrow> spec_inv bg \<sigma>'"
  by (erule spec_step.cases)
    (auto intro: inv_register inv_unregister inv_delegate inv_grant_capability inv_grant_crossing
      inv_revoke inv_cascade_revoke inv_ingest inv_settle inv_begin inv_authorize inv_cross)

subsection \<open>The initial state\<close>

lemma initial_caps: "set (items (index_loop (length cap_all) (\<lambda>i caps. vs_insert caps (cap_all ! i)) 0 vs_new)) = UNIV"
  using index_loop_nth [of cap_all "\<lambda>c caps. vs_insert caps c" vs_new] set_items_from_iter [of cap_all]
  by (simp add: vs_from_iter_def cap_kind_UNIV)

lemma abs_initial:
  "abs_state initial_state =
     \<lparr>active = {root_id}, parent_of = Map.empty, caps = (\<lambda>_. {})(root_id := UNIV),
      taint = (\<lambda>_. {}), integ = (\<lambda>_. {}), pend = Map.empty, chal = Map.empty, used_ids = {},
      used_atts = {}, used_crossings = {}, grants = Map.empty, tools = {}\<rparr>"
  by (rule spec_state_eqI) (simp_all add: initial_state_def Let_def vec_simps initial_caps)

lemma inv_initial: "root_agent bg = root_id \<Longrightarrow> spec_inv bg (abs_state initial_state)"
  by (simp add: abs_initial spec_inv_def tree_ok_def owned_ok_def records_ok_def challenges_ok_def
      confined_def grants_ok_def forest_def acyclic_def)

subsection \<open>The kernel as an invariant system\<close>

text \<open>
  The builder's default root is \<open>root_id\<close>, the identity \<open>initial_state\<close> activates. A
  background with another root never starts a run here.
\<close>

definition starts :: "background_theory \<Rightarrow> kernel_state \<Rightarrow> bool" where
  "starts bg s \<longleftrightarrow> s = initial_state \<and> root_agent bg = root_id"

interpretation kernel: refined_invariant "kstep bg" "spec_step bg" abs_state
  "\<lambda>\<sigma>. \<sigma> = abs_state initial_state \<and> root_agent bg = root_id" "spec_inv bg" "starts bg" for bg
  by unfold_locales (auto simp: starts_def intro: kstep_refines inv_initial spec_inv_step)

definition reachable :: "background_theory \<Rightarrow> kernel_state \<Rightarrow> bool" where
  "reachable bg s \<longleftrightarrow> root_agent bg = root_id \<and> (\<exists>acts. run (kstep bg) initial_state acts s)"

lemma reachable_inv: "reachable bg s \<Longrightarrow> spec_inv bg (abs_state s)"
  using kernel.concrete.inv_reachable [of bg] by (auto simp: reachable_def starts_def)

lemma reachable_initial: "root_agent bg = root_id \<Longrightarrow> reachable bg initial_state"
  by (auto simp: reachable_def intro: run_nil)

lemma reachable_step: "reachable bg s \<Longrightarrow> kstep bg s act s' \<Longrightarrow> reachable bg s'"
  by (auto simp: reachable_def intro: run_snoc)

text \<open>
  The parts of the invariant, as facts on a reachable state.
\<close>

lemma reachable_parts:
  assumes "reachable bg s"
  shows reach_tree: "tree_ok bg (abs_state s)" and reach_owned: "owned_ok (abs_state s)"
    and reach_records: "records_ok bg (abs_state s)"
    and reach_challenges: "challenges_ok bg (abs_state s)"
    and reach_confined: "confined bg (abs_state s)" and reach_grants: "grants_ok (abs_state s)"
  using reachable_inv [OF assms] by (simp_all add: spec_inv_def)

text \<open>
  Parent edges never form a cycle and are finitely many, so they lead from every active agent up to
  the root, or to an ancestor that was revoked while its children stayed active.
\<close>

lemma parent_chain:
  fixes m :: "(agent_id, agent_id) vec_map"
  defines "E \<equiv> {(x, y). vm_get m x = Some y}"
  assumes "acyclic E" and edge: "\<And>x. x \<in> A \<Longrightarrow> x \<noteq> r \<Longrightarrow> vm_get m x \<noteq> None" and "a \<in> A"
  shows "(a, r) \<in> E\<^sup>* \<or> (\<exists>b. (a, b) \<in> E\<^sup>+ \<and> b \<notin> A)"
proof -
  have "E \<subseteq> set (entries m)" by (auto simp: E_def dest: vm_get_entry)
  then have "finite E" by (rule finite_subset) simp
  then have "wf (E\<inverse>)" using \<open>acyclic E\<close> by (rule finite_acyclic_wf_converse)
  then show ?thesis using \<open>a \<in> A\<close>
  proof (induction a)
    case (less a)
    show ?case
    proof (cases "a = r")
      case False
      then obtain p where p: "(a, p) \<in> E" using edge less.prems by (auto simp: E_def)
      show ?thesis
      proof (cases "p \<in> A")
        case True
        with less.IH [of p] p have "(p, r) \<in> E\<^sup>* \<or> (\<exists>b. (p, b) \<in> E\<^sup>+ \<and> b \<notin> A)" by blast
        with p show ?thesis by (meson converse_rtrancl_into_rtrancl trancl_into_trancl2)
      qed (use p in blast)
    qed simp
  qed
qed

subsection \<open>One-use identifiers\<close>

text \<open>
  A call of a transition with its arguments. The recorded action of a crossing does not name the
  evidence, so the identifiers a step uses are read from the call and the action together.
\<close>

datatype kernel_call =
    CallRegisterTool tool_id
  | CallUnregisterTool tool_id
  | CallDelegate agent_id agent_id
  | CallGrantCapability agent_id agent_id cap_kind
  | CallGrantCrossing agent_id agent_id assignment_digest u32
  | CallRevoke agent_id agent_id
  | CallCascadeRevoke agent_id agent_id
  | CallIngest agent_id "agent_id option" conf_level integ_level
  | CallSettleInvocation invocation_id outcome "resolution_attestation option"
  | CallBeginInvocation agent_id invocation_id challenge_id action_policy_snapshot
      "egress_kind vec_set" content_hash bool
  | CallAuthorizeInspected invocation_id inspection_attestation
  | CallCrossOutput cross_input

fun call_transition :: "kernel_call \<Rightarrow> background_theory \<Rightarrow> kernel_state \<Rightarrow> kernel_result" where
  "call_transition (CallRegisterTool t) bg s = register_tool s t"
| "call_transition (CallUnregisterTool t) bg s = unregister_tool s t"
| "call_transition (CallDelegate p c) bg s = delegate s bg p c"
| "call_transition (CallGrantCapability p c k) bg s = grant_capability s p c k"
| "call_transition (CallGrantCrossing g a d n) bg s = grant_crossing s bg g a d n"
| "call_transition (CallRevoke p a) bg s = revoke s bg p a"
| "call_transition (CallCascadeRevoke a p) bg s = cascade_revoke s bg a p"
| "call_transition (CallIngest a src l i) bg s = ingest s bg a src l i"
| "call_transition (CallSettleInvocation ivk out att) bg s = settle_invocation s ivk out att"
| "call_transition (CallBeginInvocation a ivk ch p egr ah auth) bg s =
     begin_invocation s bg a ivk ch p egr ah auth"
| "call_transition (CallAuthorizeInspected ivk ia) bg s = authorize_inspected s bg ivk ia"
| "call_transition (CallCrossOutput q) bg s = cross_output s bg q"

fun called :: "background_theory \<Rightarrow> kernel_state \<Rightarrow> kernel_call \<times> kernel_action \<Rightarrow> kernel_state \<Rightarrow> bool" where
  "called bg s (c, act) s' \<longleftrightarrow> call_transition c bg s = Inr (s', act)"

text \<open>The calls are the steps of the kernel, no more and no fewer.\<close>

lemma called_kstep: "called bg s (c, act) s' \<Longrightarrow> kstep bg s act s'"
  by (cases c) (auto intro: kstep.intros)

lemma kstep_called: "kstep bg s act s' \<Longrightarrow> \<exists>c. called bg s (c, act) s'"
  by (induction rule: kstep.induct) (use call_transition.simps in \<open>simp only: called.simps, metis\<close>)+

fun begun_id :: "kernel_call \<times> kernel_action \<Rightarrow> invocation_id option" where
  "begun_id (CallBeginInvocation a ivk ch p egr ah auth, act) = Some ivk"
| "begun_id _ = None"

fun crossed_id :: "kernel_call \<times> kernel_action \<Rightarrow> crossing_id option" where
  "crossed_id (CallCrossOutput q, act) = Some (x_crossing q)"
| "crossed_id _ = None"

text \<open>An inspection, a quarantine resolution, or the evidence of a crossing that was endorsed.\<close>

fun attested_id :: "kernel_call \<times> kernel_action \<Rightarrow> attestation_id option" where
  "attested_id (CallAuthorizeInspected ivk ia, act) = Some (ia_id ia)"
| "attested_id (CallSettleInvocation ivk out att, act) = map_option ra_id att"
| "attested_id (CallCrossOutput q, ActCrossOutput src rcv x Endorsed d) = map_option ca_id (x_evidence q)"
| "attested_id _ = None"

fun spec_call :: "kernel_call \<Rightarrow> background_theory \<Rightarrow> spec_state \<Rightarrow> spec_result" where
  "spec_call (CallRegisterTool t) bg \<sigma> = spec_register t \<sigma>"
| "spec_call (CallUnregisterTool t) bg \<sigma> = spec_unregister t \<sigma>"
| "spec_call (CallDelegate p c) bg \<sigma> = spec_delegate bg p c \<sigma>"
| "spec_call (CallGrantCapability p c k) bg \<sigma> = spec_grant_capability p c k \<sigma>"
| "spec_call (CallGrantCrossing g a d n) bg \<sigma> = spec_grant_crossing bg g a d n \<sigma>"
| "spec_call (CallRevoke p a) bg \<sigma> = spec_revoke bg p a \<sigma>"
| "spec_call (CallCascadeRevoke a p) bg \<sigma> = spec_cascade_revoke bg a p \<sigma>"
| "spec_call (CallIngest a src l i) bg \<sigma> = spec_ingest bg a src l i \<sigma>"
| "spec_call (CallSettleInvocation ivk out att) bg \<sigma> = spec_settle ivk out att \<sigma>"
| "spec_call (CallBeginInvocation a ivk ch p egr ah auth) bg \<sigma> = spec_begin bg a ivk ch p egr ah auth \<sigma>"
| "spec_call (CallAuthorizeInspected ivk ia) bg \<sigma> = spec_authorize bg ivk ia \<sigma>"
| "spec_call (CallCrossOutput q) bg \<sigma> = spec_cross bg q \<sigma>"

lemma called_refines: "called bg s (c, act) s' \<Longrightarrow> spec_call c bg (abs_state s) = Inr (abs_state s', act)"
  by (cases c; simp only: called.simps call_transition.simps spec_call.simps; drule refines_step;
      simp only: kernel_refines)

lemma spec_call_ids:
  assumes "spec_call c bg \<sigma> = Inr (\<sigma>', act)"
  shows "used_ids \<sigma>' = used_ids \<sigma> \<union> set_option (begun_id (c, act))" "set_option (begun_id (c, act)) \<inter> used_ids \<sigma> = {}"
proof -
  from assms show "used_ids \<sigma>' = used_ids \<sigma> \<union> set_option (begun_id (c, act))"
    by (cases c; force simp: step_defs Let_def split: option.splits)
  from assms show "set_option (begun_id (c, act)) \<inter> used_ids \<sigma> = {}"
    by (cases c; force simp: step_defs Let_def split: option.splits)
qed

lemma spec_call_crossings:
  assumes "spec_call c bg \<sigma> = Inr (\<sigma>', act)"
  shows "used_crossings \<sigma>' = used_crossings \<sigma> \<union> set_option (crossed_id (c, act))" "set_option (crossed_id (c, act)) \<inter> used_crossings \<sigma> = {}"
proof -
  from assms show "used_crossings \<sigma>' = used_crossings \<sigma> \<union> set_option (crossed_id (c, act))"
    by (cases c; force simp: step_defs Let_def split: option.splits)
  from assms show "set_option (crossed_id (c, act)) \<inter> used_crossings \<sigma> = {}"
    by (cases c; force simp: step_defs Let_def split: option.splits)
qed

lemma spec_cross_atts:
  assumes "spec_cross bg q \<sigma> = Inr (\<sigma>', act)"
  shows "used_atts \<sigma>' = used_atts \<sigma> \<union> set_option (attested_id (CallCrossOutput q, act))"
    and "set_option (attested_id (CallCrossOutput q, act)) \<inter> used_atts \<sigma> = {}"
proof -
  have "spec_branch q \<sigma> = Endorsed \<longleftrightarrow> spec_endorsed q \<sigma>" by (simp add: spec_branch_def)
  then have fresh: "set_option (map_option ca_id (x_evidence q)) \<inter> used_atts \<sigma> = {}"
    if "spec_branch q \<sigma> = Endorsed"
    using that by (auto simp: spec_endorsed_def)
  show "used_atts \<sigma>' = used_atts \<sigma> \<union> set_option (attested_id (CallCrossOutput q, act))"
    using assms by (cases "spec_branch q \<sigma>")
      (simp_all add: spec_cross_def guarded_Inr_iff Let_def add_labels_def demote_all_def option.set_map)
  show "set_option (attested_id (CallCrossOutput q, act)) \<inter> used_atts \<sigma> = {}"
    using assms fresh by (cases "spec_branch q \<sigma>") (simp_all add: spec_cross_def guarded_Inr_iff Let_def)
qed

lemma spec_settle_atts:
  assumes "spec_settle ivk out att \<sigma> = Inr (\<sigma>', act)"
  shows "used_atts \<sigma>' = used_atts \<sigma> \<union> ra_id ` set_option att" "ra_id ` set_option att \<inter> used_atts \<sigma> = {}"
proof -
  obtain j where "pend \<sigma> ivk = Some j" using assms by (auto simp: spec_settle_def split: option.splits)
  with assms show "used_atts \<sigma>' = used_atts \<sigma> \<union> ra_id ` set_option att"
    "ra_id ` set_option att \<inter> used_atts \<sigma> = {}"
    by (simp add: spec_settle_def guarded_Inr_iff Let_def)
      (cases "quarantined j"; use \<open>pend \<sigma> ivk = Some j\<close> assms in
        \<open>auto simp: spec_settle_def guarded_Inr_iff Let_def\<close>)
qed

lemma spec_call_atts:
  assumes "spec_call c bg \<sigma> = Inr (\<sigma>', act)"
  shows "used_atts \<sigma>' = used_atts \<sigma> \<union> set_option (attested_id (c, act))"
    and "set_option (attested_id (c, act)) \<inter> used_atts \<sigma> = {}"
proof -
  have "used_atts \<sigma>' = used_atts \<sigma> \<union> set_option (attested_id (c, act)) \<and>
      set_option (attested_id (c, act)) \<inter> used_atts \<sigma> = {}"
  proof (cases c)
    case (CallSettleInvocation ivk out att)
    with assms spec_settle_atts show ?thesis by (auto simp: option.set_map)
  next
    case (CallCrossOutput q)
    with assms spec_cross_atts show ?thesis by simp
  qed (use assms in \<open>auto simp: step_defs Let_def split: if_splits option.splits\<close>)
  then show "used_atts \<sigma>' = used_atts \<sigma> \<union> set_option (attested_id (c, act))"
    "set_option (attested_id (c, act)) \<inter> used_atts \<sigma> = {}" by simp_all
qed

interpretation begins: one_use "called bg" "\<lambda>s. set (items (consumed_ids s))" begun_id for bg
  by unfold_locales (use spec_call_ids [OF called_refines] in \<open>force simp: split_paired_all\<close>)+

interpretation crossings: one_use "called bg" "\<lambda>s. set (items (consumed_crossings s))" crossed_id for bg
  by unfold_locales (use spec_call_crossings [OF called_refines] in \<open>force simp: split_paired_all\<close>)+

interpretation attestations: one_use "called bg" "\<lambda>s. set (items (consumed_attestations s))" attested_id
  for bg
  by unfold_locales (use spec_call_atts [OF called_refines] in \<open>force simp: split_paired_all\<close>)+

end
