(* ===== verification/Kernel_Wf.thy ===== *)
theory Kernel_Wf
  imports Kernel_Reach
begin

text \<open>
  Every operation keeps the representation invariant \<open>state_wf\<close>: no collection of the state
  ever holds a key or an element twice, given that the policies and egress sets handed in are
  themselves duplicate-free (which \<open>FromIterator\<close> of the collections ensures).
\<close>

lemma wf_drop_pending_of [wf_intros]: "state_wf s \<Longrightarrow> state_wf (drop_pending_of s a)"
  by (auto simp: state_wf_def drop_pending_of_def intro!: vm_wf_scan vm_all_values_scan intro: wf_intros)

lemma wf_drop_challenges_of [wf_intros]: "state_wf s \<Longrightarrow> state_wf (drop_challenges_of s a)"
  by (auto simp: state_wf_def drop_challenges_of_def intro!: vm_wf_scan vm_all_values_scan intro: wf_intros)

lemma wf_drop_grants_of [wf_intros]: "state_wf s \<Longrightarrow> state_wf (drop_grants_of s a)"
  by (auto simp: state_wf_def drop_grants_of_def intro!: vm_wf_scan intro: wf_intros)

lemma wf_demote_all_of [wf_intros]: "state_wf s \<Longrightarrow> state_wf (demote_all_of s a)"
  by (auto simp: state_wf_def demote_all_of_def Let_def pending_wf_def
      intro!: vm_wf_scan vm_all_values_scan intro: wf_intros)

lemma wf_decrement_grant_at [wf_intros]: "state_wf s \<Longrightarrow> state_wf (decrement_grant_at s a d)"
  by (auto simp: state_wf_def decrement_grant_at_def Let_def intro: wf_intros split: option.split)

text \<open>Updates of single fields.\<close>

lemma wf_update [wf_intros]:
  "state_wf s \<Longrightarrow> vs_wf A \<Longrightarrow> state_wf (s\<lparr>agent_active := A\<rparr>)"
  "state_wf s \<Longrightarrow> vm_wf P \<Longrightarrow> state_wf (s\<lparr>agent_parent := P\<rparr>)"
  "state_wf s \<Longrightarrow> vm_sets_wf C \<Longrightarrow> state_wf (s\<lparr>agent_cap := C\<rparr>)"
  "state_wf s \<Longrightarrow> vm_sets_wf T \<Longrightarrow> state_wf (s\<lparr>taint_levels := T\<rparr>)"
  "state_wf s \<Longrightarrow> vm_sets_wf I \<Longrightarrow> state_wf (s\<lparr>integ_levels := I\<rparr>)"
  "state_wf s \<Longrightarrow> vm_wf J \<Longrightarrow> vm_all_values pending_wf J \<Longrightarrow> state_wf (s\<lparr>pending := J\<rparr>)"
  "state_wf s \<Longrightarrow> vm_wf Ch \<Longrightarrow> vm_all_values challenge_wf Ch \<Longrightarrow> state_wf (s\<lparr>challenges := Ch\<rparr>)"
  "state_wf s \<Longrightarrow> vs_wf U \<Longrightarrow> state_wf (s\<lparr>consumed_ids := U\<rparr>)"
  "state_wf s \<Longrightarrow> vs_wf V \<Longrightarrow> state_wf (s\<lparr>consumed_attestations := V\<rparr>)"
  "state_wf s \<Longrightarrow> vs_wf X \<Longrightarrow> state_wf (s\<lparr>consumed_crossings := X\<rparr>)"
  "state_wf s \<Longrightarrow> vm_wf G \<Longrightarrow> state_wf (s\<lparr>crossing_grants := G\<rparr>)"
  "state_wf s \<Longrightarrow> vs_wf R \<Longrightarrow> state_wf (s\<lparr>tool_registered := R\<rparr>)"
  by (simp_all add: state_wf_def)

lemma wf_fields [wf_intros]:
  "state_wf s \<Longrightarrow> vs_wf (agent_active s)" "state_wf s \<Longrightarrow> vm_wf (agent_parent s)"
  "state_wf s \<Longrightarrow> vm_sets_wf (agent_cap s)" "state_wf s \<Longrightarrow> vm_sets_wf (taint_levels s)"
  "state_wf s \<Longrightarrow> vm_sets_wf (integ_levels s)" "state_wf s \<Longrightarrow> vm_wf (pending s)"
  "state_wf s \<Longrightarrow> vm_all_values pending_wf (pending s)" "state_wf s \<Longrightarrow> vm_wf (challenges s)"
  "state_wf s \<Longrightarrow> vm_all_values challenge_wf (challenges s)" "state_wf s \<Longrightarrow> vs_wf (consumed_ids s)"
  "state_wf s \<Longrightarrow> vs_wf (consumed_attestations s)" "state_wf s \<Longrightarrow> vs_wf (consumed_crossings s)"
  "state_wf s \<Longrightarrow> vm_wf (crossing_grants s)" "state_wf s \<Longrightarrow> vs_wf (tool_registered s)"
  by (simp_all add: state_wf_def)

lemma wf_pending_record: "state_wf s \<Longrightarrow> vm_get (pending s) i = Some j \<Longrightarrow> pending_wf j"
  by (auto dest: wf_fields(7) vm_all_values_get)

lemma wf_challenge_record: "state_wf s \<Longrightarrow> vm_get (challenges s) i = Some c \<Longrightarrow> challenge_wf c"
  by (auto dest: wf_fields(9) vm_all_values_get)

lemma wf_release_labels [wf_intros]: "state_wf s \<Longrightarrow> state_wf (release_labels s q b)"
  unfolding release_labels_fields by (intro wf_intros)

lemma wf_clear_agent [wf_intros]: "state_wf s \<Longrightarrow> state_wf (clear_agent s a)"
  unfolding clear_agent_def Let_def by (intro wf_intros)

lemma wf_initial: "state_wf initial_state"
proof -
  have "vs_wf (index_loop (length cap_all) (\<lambda>i caps. vs_insert caps (cap_all ! i)) 0 vs_new)"
    using index_loop_nth [of cap_all "\<lambda>c caps. vs_insert caps c" vs_new] vs_wf_from_iter [of cap_all]
    by (simp add: vs_from_iter_def)
  then show ?thesis
    by (simp add: state_wf_def initial_state_def Let_def wf_intros)
qed

subsection \<open>The twelve transitions\<close>

lemma wf_register: "register_tool s t = Inr (s', act) \<Longrightarrow> state_wf s \<Longrightarrow> state_wf s'"
  by (auto simp: register_tool_def intro: wf_intros split: if_splits)

lemma wf_unregister: "unregister_tool s t = Inr (s', act) \<Longrightarrow> state_wf s \<Longrightarrow> state_wf s'"
  by (auto simp: unregister_tool_def Let_def intro: wf_intros split: if_splits)

lemma wf_delegate: "delegate s bg p c = Inr (s', act) \<Longrightarrow> state_wf s \<Longrightarrow> state_wf s'"
  by (auto simp: delegate_def Let_def intro!: wf_intros vm_wf_scan split: if_splits)

lemma wf_grant_capability: "grant_capability s p c k = Inr (s', act) \<Longrightarrow> state_wf s \<Longrightarrow> state_wf s'"
  by (auto simp: grant_capability_def intro: wf_intros split: if_splits)

lemma wf_grant_crossing: "grant_crossing s bg g a d n = Inr (s', act) \<Longrightarrow> state_wf s \<Longrightarrow> state_wf s'"
  by (auto simp: grant_crossing_def Let_def intro: wf_intros split: if_splits)

lemma wf_revoke: "revoke s bg p a = Inr (s', act) \<Longrightarrow> state_wf s \<Longrightarrow> state_wf s'"
  by (auto simp: revoke_def intro: wf_intros split: if_splits)

lemma wf_cascade_revoke: "cascade_revoke s bg a p = Inr (s', act) \<Longrightarrow> state_wf s \<Longrightarrow> state_wf s'"
  by (auto simp: cascade_revoke_def intro: wf_intros split: if_splits)

lemma wf_ingest: "ingest s bg a src l i = Inr (s', act) \<Longrightarrow> state_wf s \<Longrightarrow> state_wf s'"
  by (auto simp: ingest_def Let_def intro!: wf_intros split: if_splits)

lemma wf_settle: "settle_invocation s ivk out att = Inr (s', act) \<Longrightarrow> state_wf s \<Longrightarrow> state_wf s'"
  by (auto simp: settle_invocation_def Let_def pending_wf_def dest: wf_pending_record
      intro!: wf_intros split: if_splits option.splits)

lemma wf_begin:
  "begin_invocation s bg a ivk ch p egr ah auth = Inr (s', act) \<Longrightarrow> policy_wf p \<Longrightarrow> vs_wf egr \<Longrightarrow>
     state_wf s \<Longrightarrow> state_wf s'"
  by (auto simp: begin_invocation_def Let_def pending_wf_def challenge_wf_def
      intro!: wf_intros split: if_splits verdict.splits enforcement_mode.splits)

lemma wf_authorize: "authorize_inspected s bg ivk ia = Inr (s', act) \<Longrightarrow> state_wf s \<Longrightarrow> state_wf s'"
  by (auto simp: authorize_inspected_def Let_def pending_wf_def challenge_wf_def
      dest: wf_challenge_record intro!: wf_intros split: if_splits option.splits)

lemma wf_cross: "cross_output s bg q = Inr (s', act) \<Longrightarrow> state_wf s \<Longrightarrow> state_wf s'"
  by (auto simp: cross_output_def Let_def intro!: wf_intros split: if_splits option.splits)

end
