(* ===== verification/Kernel_Scenario.thy ===== *)
theory Kernel_Scenario
  imports Kernel_Wf
begin

text \<open>
  A small session of the kernel, run step by step from the initial state: two children of the
  root, one with a permitted pending invocation, the other with an inspected one, and a crossing
  grant. Theorems on reachable states are instantiated here.
\<close>

definition ok_state :: "kernel_result \<Rightarrow> kernel_state" where
  "ok_state r = (case r of Inr (s, act) \<Rightarrow> s | Inl e \<Rightarrow> initial_state)"

definition ok_action :: "kernel_result \<Rightarrow> kernel_action" where
  "ok_action r = (case r of Inr (s, act) \<Rightarrow> act | Inl e \<Rightarrow> ActRegisterTool (ToolId ''none''))"

definition succeeds :: "kernel_result \<Rightarrow> bool" where
  "succeeds r \<longleftrightarrow> (case r of Inr _ \<Rightarrow> True | Inl _ \<Rightarrow> False)"

lemma succeeds_eq: "succeeds r \<Longrightarrow> r = Inr (ok_state r, ok_action r)"
  by (auto simp: succeeds_def ok_state_def ok_action_def split: sum.splits)

definition demo_bg :: "enforcement_mode \<Rightarrow> background_theory" where
  "demo_bg m = builder_build (set_mode
     (set_egress_ceilings builder_new EgNetworkExternal (Some Internal) (Some Sensitive)) m)"

abbreviation worker :: agent_id where "worker \<equiv> AgentId ''w''"
abbreviation helper :: agent_id where "helper \<equiv> AgentId ''h''"
abbreviation mailer :: tool_id where "mailer \<equiv> ToolId ''t''"

definition demo_policy :: action_policy_snapshot where
  "demo_policy =
     \<lparr>aps_tool = mailer, required_caps = VecSet [CapNetworkEgress], conf_clearance = Restricted,
      integ_floor = Standard, integ_inspect = Untrusted, output_conf = Internal,
      output_integ = Trusted, declared_egress = VecSet [EgNetworkExternal],
      policy_digest = PolicyDigest ''p''\<rparr>"

definition demo_egress :: "egress_kind vec_set" where
  "demo_egress = VecSet [EgNetworkExternal]"

definition demo_begin :: "enforcement_mode \<Rightarrow> kernel_state \<Rightarrow> agent_id \<Rightarrow> string \<Rightarrow> kernel_result" where
  "demo_begin m s a i =
     begin_invocation s (demo_bg m) a (InvocationId i) (ChallengeId i) demo_policy demo_egress
       (ContentHash ''args'') True"

definition demo_attestation :: inspection_attestation where
  "demo_attestation =
     \<lparr>ia_id = AttestationId ''x1'', ia_inv = InvocationId ''2'', ia_challenge = ChallengeId ''2'',
      ia_args_hash = ContentHash ''args'', ia_policy_digest = PolicyDigest ''p'', ia_positive = True\<rparr>"

text \<open>The session, as the list of the calls made.\<close>

definition demo_calls :: "enforcement_mode \<Rightarrow> (kernel_state \<Rightarrow> kernel_result) list" where
  "demo_calls m =
     [\<lambda>s. delegate s (demo_bg m) root_id worker,
      \<lambda>s. delegate s (demo_bg m) root_id helper,
      \<lambda>s. register_tool s mailer,
      \<lambda>s. grant_capability s root_id worker CapNetworkEgress,
      \<lambda>s. grant_capability s root_id helper CapNetworkEgress,
      \<lambda>s. ingest s (demo_bg m) worker None Internal Trusted,
      \<lambda>s. ingest s (demo_bg m) helper None Sensitive Untrusted,
      \<lambda>s. grant_crossing s (demo_bg m) root_id worker (AssignmentDigest ''d'') 2,
      \<lambda>s. demo_begin m s worker ''1'',
      \<lambda>s. demo_begin m s helper ''2'']"

definition demo_state :: "enforcement_mode \<Rightarrow> nat \<Rightarrow> kernel_state" where
  "demo_state m n = fold (\<lambda>f s. ok_state (f s)) (take n (demo_calls m)) initial_state"

lemma demo_state_Suc:
  "n < length (demo_calls m) \<Longrightarrow> demo_state m (Suc n) = ok_state ((demo_calls m ! n) (demo_state m n))"
  by (simp add: demo_state_def take_Suc_conv_app_nth)

lemma demo_call_step:
  "f \<in> set (demo_calls m) \<Longrightarrow> f s = Inr (s', act) \<Longrightarrow> kstep (demo_bg m) s act s'"
  by (auto simp: demo_calls_def demo_begin_def intro: kstep.intros)

lemma demo_calls_succeed:
  "list_all (\<lambda>n. succeeds ((demo_calls Enforce ! n) (demo_state Enforce n))) [0..<10]"
  "list_all (\<lambda>n. succeeds ((demo_calls Monitor ! n) (demo_state Monitor n))) [0..<10]"
  by code_simp+

lemma length_demo_calls: "length (demo_calls m) = 10"
  by (simp add: demo_calls_def)

lemma root_agent_demo [simp]: "root_agent (demo_bg m) = root_id"
  by (simp add: demo_bg_def builder_build_def set_mode_def set_egress_ceilings_def builder_new_def)

lemma demo_step:
  assumes "n < 10"
  shows "kstep (demo_bg m) (demo_state m n) (ok_action ((demo_calls m ! n) (demo_state m n)))
    (demo_state m (Suc n))"
proof -
  have "succeeds ((demo_calls m ! n) (demo_state m n))"
    using demo_calls_succeed assms by (cases m) (auto simp: list_all_iff)
  from succeeds_eq [OF this] show ?thesis
    unfolding demo_state_Suc [of n m, unfolded length_demo_calls, OF assms]
    by (rule demo_call_step [rotated]) (use assms in \<open>simp add: length_demo_calls\<close>)
qed

lemma demo_reachable: "n \<le> 10 \<Longrightarrow> reachable (demo_bg m) (demo_state m n)"
proof (induction n)
  case 0
  then show ?case by (simp add: demo_state_def reachable_initial)
next
  case (Suc n)
  then show ?case using reachable_step [OF _ demo_step [of n m]] by simp
qed

text \<open>The helper's invocation is a challenge in enforce mode; its inspection admits it.\<close>

definition demo_inspected :: kernel_state where
  "demo_inspected =
     ok_state (authorize_inspected (demo_state Enforce 10) (demo_bg Enforce) (InvocationId ''2'')
       demo_attestation)"

lemma demo_inspected_succeeds:
  "succeeds (authorize_inspected (demo_state Enforce 10) (demo_bg Enforce) (InvocationId ''2'')
     demo_attestation)"
  by code_simp

lemma demo_inspected_reachable: "reachable (demo_bg Enforce) demo_inspected"
  unfolding demo_inspected_def
  by (rule reachable_step [OF demo_reachable [OF order_refl]])
    (rule step_authorize [OF succeeds_eq [OF demo_inspected_succeeds]])

text \<open>After the inspection the root crosses to the worker, endorsed by evidence and the grant.\<close>

definition demo_crossing :: cross_input where
  "demo_crossing =
     \<lparr>x_src = root_id, x_rcv = worker, x_crossing = CrossingId ''c1'', x_output_hash = ContentHash ''out'',
      x_descriptor = ContentHash ''desc'', x_fallback = FbFail, t_integ = Trusted, t_conf = None,
      x_assignment = AssignmentDigest ''d'',
      x_evidence = Some \<lparr>ca_id = AttestationId ''x2'', ca_output = ContentHash ''out'', ca_src = root_id,
        ca_rcv = worker, ca_descriptor = ContentHash ''desc'', ca_assignment = AssignmentDigest ''d'',
        ca_positive = True\<rparr>,
      released_conf = Internal, released_integ = Trusted\<rparr>"

definition demo_crossed :: kernel_state where
  "demo_crossed = ok_state (cross_output demo_inspected (demo_bg Enforce) demo_crossing)"

definition demo_evidence_calls :: "(kernel_call \<times> kernel_action) list" where
  "demo_evidence_calls =
     [(CallAuthorizeInspected (InvocationId ''2'') demo_attestation,
       ActAuthorizeInspected (InvocationId ''2'') (AttestationId ''x1'') True),
      (CallCrossOutput demo_crossing,
       ActCrossOutput root_id worker (CrossingId ''c1'') Endorsed Permitted)]"

lemma demo_evidence_run:
  "run (called (demo_bg Enforce)) (demo_state Enforce 10) demo_evidence_calls demo_crossed"
proof -
  have "succeeds (cross_output demo_inspected (demo_bg Enforce) demo_crossing)"
    "ok_action (authorize_inspected (demo_state Enforce 10) (demo_bg Enforce) (InvocationId ''2'')
       demo_attestation) = ActAuthorizeInspected (InvocationId ''2'') (AttestationId ''x1'') True"
    "ok_action (cross_output demo_inspected (demo_bg Enforce) demo_crossing) =
       ActCrossOutput root_id worker (CrossingId ''c1'') Endorsed Permitted"
    by code_simp+
  with succeeds_eq [OF demo_inspected_succeeds] succeeds_eq [of "cross_output demo_inspected (demo_bg Enforce) demo_crossing"]
  show ?thesis
    by (auto simp: demo_evidence_calls_def run_Cons_iff demo_inspected_def demo_crossed_def)
qed

text \<open>The records of the session.\<close>

definition demo_record :: "agent_id \<Rightarrow> admission_kind \<Rightarrow> disposition \<Rightarrow> pending_invocation" where
  "demo_record a adm d =
     \<lparr>pi_agent = a, pi_policy = demo_policy, pi_egress = demo_egress, admission = adm,
      disposition_of = d, pi_authorized = True, quarantined = False\<rparr>"

lemma demo_pending:
  "vm_get (pending (demo_state Enforce 10)) (InvocationId ''1'') = Some (demo_record worker Plain Permitted)"
  "vm_get (pending (demo_state Monitor 10)) (InvocationId ''2'') =
     Some (demo_record helper Bypassed MonitorBypassed)"
  "vm_get (pending demo_inspected) (InvocationId ''2'') =
     Some (demo_record helper (Inspected (AttestationId ''x1'')) Permitted)"
  by code_simp+

lemma demo_challenge:
  "vm_get (challenges (demo_state Enforce 10)) (InvocationId ''2'') =
     Some \<lparr>cs_challenge = ChallengeId ''2'', cs_agent = helper, cs_policy = demo_policy,
       cs_egress = demo_egress, cs_args_hash = ContentHash ''args'', cs_authorized = True\<rparr>"
  by code_simp

end
