(* ===== verification/Kernel_Effects.thy ===== *)
theory Kernel_Effects
  imports Kernel_Scenario
begin

text \<open>
  What a single transition does to a state: which labels grow, which grants are spent, and which
  rejection reasons occur. Everything is read off the abstract transitions.
\<close>

lemma refined_Inr:
  assumes "r = Inr (s', act)" "abs_result r = R"
  shows "R = Inr (abs_state s', act)"
  using assms by auto

text \<open>The fields of a state whose abstraction is known.\<close>

lemma abs_fields_eq:
  assumes "abs_state s = \<sigma>"
  shows "set (items (agent_active s)) = active \<sigma>" "vm_get (agent_parent s) = parent_of \<sigma>"
    "vm_elems (agent_cap s) = caps \<sigma>" "vm_elems (taint_levels s) = taint \<sigma>"
    "vm_elems (integ_levels s) = integ \<sigma>" "vm_get (pending s) = pend \<sigma>"
    "vm_get (challenges s) = chal \<sigma>" "set (items (consumed_ids s)) = used_ids \<sigma>"
    "set (items (consumed_attestations s)) = used_atts \<sigma>"
    "set (items (consumed_crossings s)) = used_crossings \<sigma>"
    "vm_get (crossing_grants s) = grants \<sigma>" "set (items (tool_registered s)) = tools \<sigma>"
  using assms by (auto simp: abs_state_def)

subsection \<open>Labels\<close>

lemma spec_step_labels:
  assumes "spec_step bg \<sigma> act \<sigma>'" "a \<in> active \<sigma>" "a \<in> active \<sigma>'"
  shows "taint \<sigma> a \<subseteq> taint \<sigma>' a" "integ \<sigma> a \<subseteq> integ \<sigma>' a"
  using assms
  by (cases rule: spec_step.cases; force simp: step_defs Let_def split: option.splits if_splits)+

subsection \<open>Crossing grants\<close>

fun provisions :: "kernel_action \<Rightarrow> (crossing_key \<times> u32) option" where
  "provisions (ActGrantCrossing g a d n) = Some (\<lparr>ck_agent = a, ck_assignment = d\<rparr>, n)"
| "provisions _ = None"

fun endorses :: "kernel_action \<Rightarrow> agent_id option" where
  "endorses (ActCrossOutput src rcv x Endorsed d) = Some rcv"
| "endorses _ = None"

text \<open>How the grant at one key may change in a step.\<close>

definition grant_change ::
  "kernel_action \<Rightarrow> crossing_key \<Rightarrow> crossing_grant option \<Rightarrow> crossing_grant option \<Rightarrow> bool" where
  "grant_change act k old new \<longleftrightarrow>
     new = old \<or> new = None \<or>
     (\<exists>n. provisions act = Some (k, n) \<and> new = Some \<lparr>remaining = n, provisioned = n\<rparr>) \<or>
     (\<exists>g. old = Some g \<and> endorses act = Some (ck_agent k) \<and> remaining g > 0 \<and>
        new = Some (g\<lparr>remaining := remaining g - 1\<rparr>))"

lemma spec_cross_grants:
  assumes "spec_cross bg q \<sigma> = Inr (\<sigma>', act)"
  shows "grant_change act k (grants \<sigma> k) (grants \<sigma>' k)"
proof -
  let ?k = "\<lparr>ck_agent = x_rcv q, ck_assignment = x_assignment q\<rparr>"
  have "grants \<sigma>' = (if spec_branch q \<sigma> = Endorsed then spend_grant ?k (grants \<sigma>) else grants \<sigma>)"
    "\<exists>d. act = ActCrossOutput (x_src q) (x_rcv q) (x_crossing q) (spec_branch q \<sigma>) d"
    using assms by (auto simp: step_defs Let_def)
  moreover have "\<exists>g. grants \<sigma> ?k = Some g \<and> remaining g > 0" if "spec_branch q \<sigma> = Endorsed"
    using that by (auto simp: spec_branch_def spec_endorsed_def split: if_splits)
  ultimately show ?thesis
    by (cases "k = ?k") (auto simp: grant_change_def spend_grant_def)
qed

lemma spec_step_grants:
  assumes "spec_step bg \<sigma> act \<sigma>'"
  shows "grant_change act k (grants \<sigma> k) (grants \<sigma>' k)"
  using assms
proof (cases rule: spec_step.cases)
  case (spec_step_cross q)
  then show ?thesis by (rule spec_cross_grants)
qed (force simp: step_defs grant_change_def Let_def split: option.splits if_splits)+

subsection \<open>Rejections that never happen\<close>

definition unused_errors :: "kernel_error set" where
  "unused_errors = {PairwiseConflict, InspectionNegative, GrantMissing, GrantExhausted, EventStoreError}"

lemma guarded_Inl_mem: "guarded gs x = Inl e \<Longrightarrow> e \<in> snd ` set gs"
  by (induction gs) (auto simp: guarded_eval split: if_splits)

lemma refined_Inl: "r = Inl e \<Longrightarrow> abs_result r = R \<Longrightarrow> R = Inl e"
  by auto

lemma spec_errors_used:
  "spec_register t \<sigma> = Inl e \<Longrightarrow> e \<notin> unused_errors"
  "spec_unregister t \<sigma> = Inl e \<Longrightarrow> e \<notin> unused_errors"
  "spec_delegate bg p c \<sigma> = Inl e \<Longrightarrow> e \<notin> unused_errors"
  "spec_grant_capability p c k \<sigma> = Inl e \<Longrightarrow> e \<notin> unused_errors"
  "spec_grant_crossing bg p a d n \<sigma> = Inl e \<Longrightarrow> e \<notin> unused_errors"
  "spec_revoke bg p a \<sigma> = Inl e \<Longrightarrow> e \<notin> unused_errors"
  "spec_cascade_revoke bg a p \<sigma> = Inl e \<Longrightarrow> e \<notin> unused_errors"
  "spec_ingest bg a src l i \<sigma> = Inl e \<Longrightarrow> e \<notin> unused_errors"
  "spec_settle ivk out att \<sigma> = Inl e \<Longrightarrow> e \<notin> unused_errors"
  "spec_begin bg a ivk ch pol egr ah auth \<sigma> = Inl e \<Longrightarrow> e \<notin> unused_errors"
  "spec_authorize bg ivk ia \<sigma> = Inl e \<Longrightarrow> e \<notin> unused_errors"
  "spec_cross bg q \<sigma> = Inl e \<Longrightarrow> e \<notin> unused_errors"
  by (auto simp: spec_defs Let_def unused_errors_def dest!: guarded_Inl_mem split: option.splits)

lemma errors_used:
  "register_tool s t = Inl e \<Longrightarrow> e \<notin> unused_errors"
  "unregister_tool s t = Inl e \<Longrightarrow> e \<notin> unused_errors"
  "delegate s bg p c = Inl e \<Longrightarrow> e \<notin> unused_errors"
  "grant_capability s p c k = Inl e \<Longrightarrow> e \<notin> unused_errors"
  "grant_crossing s bg p a d n = Inl e \<Longrightarrow> e \<notin> unused_errors"
  "revoke s bg p a = Inl e \<Longrightarrow> e \<notin> unused_errors"
  "cascade_revoke s bg a p = Inl e \<Longrightarrow> e \<notin> unused_errors"
  "ingest s bg a src l i = Inl e \<Longrightarrow> e \<notin> unused_errors"
  "settle_invocation s ivk out att = Inl e \<Longrightarrow> e \<notin> unused_errors"
  "begin_invocation s bg a ivk ch pol egr ah auth = Inl e \<Longrightarrow> e \<notin> unused_errors"
  "authorize_inspected s bg ivk ia = Inl e \<Longrightarrow> e \<notin> unused_errors"
  "cross_output s bg q = Inl e \<Longrightarrow> e \<notin> unused_errors"
  by (drule refined_Inl, rule kernel_refines, erule spec_errors_used)+

subsection \<open>The successor states\<close>

lemma delegate_effect:
  assumes "delegate s bg p c = Inr (s', act)"
  shows "abs_state s' = clear_compartment c
      (abs_state s\<lparr>active := insert c (set (items (agent_active s))),
        parent_of := (vm_get (agent_parent s))(c \<mapsto> p)\<rparr>)"
    and "p \<in> set (items (agent_active s))" "c \<notin> set (items (agent_active s))" "c \<noteq> root_agent bg"
  using refined_Inr [OF assms delegate_refines] by (auto simp: spec_defs guarded_Inr_iff)

lemma revoke_effect:
  assumes "revoke s bg p a = Inr (s', act)"
  shows "abs_state s' = deactivate a (abs_state s)"
    and "vm_get (agent_parent s) a = Some p" "p \<in> set (items (agent_active s))" "a \<noteq> root_agent bg"
  using refined_Inr [OF assms revoke_refines] by (auto simp: spec_defs guarded_Inr_iff)

lemma cascade_revoke_effect:
  assumes "cascade_revoke s bg a p = Inr (s', act)"
  shows "abs_state s' = deactivate a (abs_state s)"
    and "vm_get (agent_parent s) a = Some p" "p \<notin> set (items (agent_active s))" "a \<noteq> root_agent bg"
  using refined_Inr [OF assms cascade_revoke_refines] by (auto simp: spec_defs guarded_Inr_iff)

lemma ingest_effect:
  assumes "ingest s bg a src l i = Inr (s', act)"
  shows "abs_state s' =
      (if ingest_holds s bg a l i then add_labels a {l} {i} (abs_state s)
       else demote_all a (add_labels a {l} {i} (abs_state s)))"
    and "\<not> ingest_holds s bg a l i \<Longrightarrow> bg_mode bg = Monitor"
    and "a \<in> set (items (agent_active s))"
    and "src = Some b \<Longrightarrow> provenance_dominated s b l i"
  using refined_Inr [OF assms ingest_refines]
  by (auto simp: spec_defs guarded_Inr_iff Let_def abs_ingest_holds mode_other provenance_dominated_iff)

lemma settle_effect:
  assumes "settle_invocation s i out att = Inr (s', act)" "vm_get (pending s) i = Some j"
  defines "closed \<equiv> (if out = Ambiguous
      then abs_state s\<lparr>pend := (vm_get (pending s))(i \<mapsto> j\<lparr>quarantined := True\<rparr>)\<rparr>
      else add_labels (pi_agent j) {output_conf (pi_policy j)} {output_integ (pi_policy j)}
        (abs_state s\<lparr>pend := (vm_get (pending s))(i := None)\<rparr>))"
  shows "abs_state s' = (if contained j then closed else demote_all (pi_agent j) closed)
      \<lparr>used_atts := set (items (consumed_attestations s)) \<union> ra_id ` set_option att\<rparr>"
  using refined_Inr [OF assms(1) settle_refines] assms(2)
  by (simp add: spec_defs guarded_Inr_iff Let_def closed_def)

lemma cross_effect:
  assumes "cross_output s bg q = Inr (s', act)"
  defines "b \<equiv> select_branch s q"
  defines "added \<equiv> add_labels (x_rcv q) (fst (spec_release q (abs_state s) b))
      (snd (spec_release q (abs_state s) b)) (abs_state s)"
  defines "released \<equiv> (if cross_holds s bg q b then added else demote_all (x_rcv q) added)"
  shows "abs_state s' =
      (if b = Endorsed
       then released\<lparr>used_atts := set (items (consumed_attestations s)) \<union> ca_id ` set_option (x_evidence q),
         grants := spend_grant \<lparr>ck_agent = x_rcv q, ck_assignment = x_assignment q\<rparr>
           (vm_get (crossing_grants s))\<rparr>
       else released)\<lparr>used_crossings := insert (x_crossing q) (set (items (consumed_crossings s)))\<rparr>"
    and "act = ActCrossOutput (x_src q) (x_rcv q) (x_crossing q) b
      (if cross_holds s bg q b then Permitted else MonitorBypassed)"
    and "\<not> cross_holds s bg q b \<Longrightarrow> bg_mode bg = Monitor"
    and "b = Endorsed \<Longrightarrow> bounds_ok s q"
    and "\<not> source_in_flight s (x_src q)" "\<not> vs_contains (consumed_crossings s) (x_crossing q)"
  using refined_Inr [OF assms(1) cross_refines]
  unfolding spec_cross_def Let_def guarded_Inr_iff abs_branch abs_cross_holds abs_bounds_ok
    abs_in_flight b_def added_def released_def
  by (auto simp: mode_other vec_simps)

end
