(* ===== verification/Kernel_Driver.thy ===== *)
theory Kernel_Driver
  imports Kernel_Effects
begin

text \<open>
  The stateful driver of \<open>kernel.rs\<close> over the oracle and store traits of \<open>traits.rs\<close>. The
  authorizer is a parameter (a verdict function of its five arguments), and so is the event store:
  \<open>sink\<close> (its \<open>append\<close>) maps the store's own state and an event to a result and the store's next state, since
  \<open>append(&self, ..)\<close> may change the store behind a shared reference.
\<close>

type_synonym authorizer = "agent_id \<Rightarrow> tool_id \<Rightarrow> invocation_id \<Rightarrow> kernel_state \<Rightarrow> background_theory \<Rightarrow> bool"
type_synonym 'e event_append = "'e \<Rightarrow> kernel_event \<Rightarrow> (kernel_error + unit) \<times> 'e"

record 'e kernel =
  k_state :: kernel_state
  k_background :: background_theory
  k_sequence :: u64
  k_authorizer :: authorizer
  k_events :: 'e

definition kernel_new :: "background_theory \<Rightarrow> authorizer \<Rightarrow> 'e \<Rightarrow> 'e kernel" where
  "kernel_new bg authorizer events =
     \<lparr>k_state = initial_state, k_background = bg, k_sequence = 0, k_authorizer = authorizer,
      k_events = events\<rparr>"

type_synonym 'e driver_result = "(kernel_error + kernel_event) \<times> 'e kernel"

text \<open>
  \<open>self.sequence + 1\<close> is \<open>u64\<close> addition; it wraps only after \<open>2^64\<close> events.
\<close>

definition kernel_apply :: "'e event_append \<Rightarrow> 'e kernel \<Rightarrow> kernel_result \<Rightarrow> 'e driver_result" where
  "kernel_apply sink k result =
     (case result of
        Inl e \<Rightarrow> (Inl e, k)
      | Inr (new_state, action) \<Rightarrow>
          let next_seq = k_sequence k + 1;
              event = kernel_event_new next_seq action;
              (appended, events) = sink (k_events k) event;
              k = k\<lparr>k_events := events\<rparr>
          in (case appended of
                Inl e \<Rightarrow> (Inl e, k)
              | Inr _ \<Rightarrow> (Inr event, k\<lparr>k_sequence := next_seq, k_state := new_state\<rparr>)))"

definition kernel_register_tool :: "'e event_append \<Rightarrow> 'e kernel \<Rightarrow> tool_id \<Rightarrow> 'e driver_result" where
  "kernel_register_tool sink k tool = kernel_apply sink k (register_tool (k_state k) tool)"

definition kernel_unregister_tool :: "'e event_append \<Rightarrow> 'e kernel \<Rightarrow> tool_id \<Rightarrow> 'e driver_result" where
  "kernel_unregister_tool sink k tool = kernel_apply sink k (unregister_tool (k_state k) tool)"

definition kernel_delegate ::
  "'e event_append \<Rightarrow> 'e kernel \<Rightarrow> agent_id \<Rightarrow> agent_id \<Rightarrow> 'e driver_result" where
  "kernel_delegate sink k grantor grantee =
     kernel_apply sink k (delegate (k_state k) (k_background k) grantor grantee)"

definition kernel_grant_capability ::
  "'e event_append \<Rightarrow> 'e kernel \<Rightarrow> agent_id \<Rightarrow> agent_id \<Rightarrow> cap_kind \<Rightarrow> 'e driver_result" where
  "kernel_grant_capability sink k parent child cap =
     kernel_apply sink k (grant_capability (k_state k) parent child cap)"

definition kernel_grant_crossing ::
  "'e event_append \<Rightarrow> 'e kernel \<Rightarrow> agent_id \<Rightarrow> agent_id \<Rightarrow> assignment_digest \<Rightarrow> u32 \<Rightarrow> 'e driver_result" where
  "kernel_grant_crossing sink k grantor agent assignment n =
     kernel_apply sink k (grant_crossing (k_state k) (k_background k) grantor agent assignment n)"

definition kernel_revoke ::
  "'e event_append \<Rightarrow> 'e kernel \<Rightarrow> agent_id \<Rightarrow> agent_id \<Rightarrow> 'e driver_result" where
  "kernel_revoke sink k parent target =
     kernel_apply sink k (revoke (k_state k) (k_background k) parent target)"

definition kernel_cascade_revoke ::
  "'e event_append \<Rightarrow> 'e kernel \<Rightarrow> agent_id \<Rightarrow> agent_id \<Rightarrow> 'e driver_result" where
  "kernel_cascade_revoke sink k child parent =
     kernel_apply sink k (cascade_revoke (k_state k) (k_background k) child parent)"

definition kernel_ingest ::
  "'e event_append \<Rightarrow> 'e kernel \<Rightarrow> agent_id \<Rightarrow> agent_id option \<Rightarrow> conf_level \<Rightarrow> integ_level \<Rightarrow>
   'e driver_result" where
  "kernel_ingest sink k agent src pconf pinteg =
     kernel_apply sink k (ingest (k_state k) (k_background k) agent src pconf pinteg)"

definition kernel_settle_invocation ::
  "'e event_append \<Rightarrow> 'e kernel \<Rightarrow> invocation_id \<Rightarrow> outcome \<Rightarrow> resolution_attestation option \<Rightarrow>
   'e driver_result" where
  "kernel_settle_invocation sink k ivk outcome att =
     kernel_apply sink k (settle_invocation (k_state k) ivk outcome att)"

definition kernel_begin_invocation ::
  "'e event_append \<Rightarrow> 'e kernel \<Rightarrow> agent_id \<Rightarrow> invocation_id \<Rightarrow> challenge_id \<Rightarrow>
   action_policy_snapshot \<Rightarrow> egress_kind vec_set \<Rightarrow> content_hash \<Rightarrow> 'e driver_result" where
  "kernel_begin_invocation sink k agent ivk ch snap attested_egress args_hash =
     (let authorized = k_authorizer k agent (aps_tool snap) ivk (k_state k) (k_background k)
      in kernel_apply sink k
           (begin_invocation (k_state k) (k_background k) agent ivk ch snap attested_egress
              args_hash authorized))"

definition kernel_authorize_inspected ::
  "'e event_append \<Rightarrow> 'e kernel \<Rightarrow> invocation_id \<Rightarrow> inspection_attestation \<Rightarrow> 'e driver_result" where
  "kernel_authorize_inspected sink k ivk att =
     kernel_apply sink k (authorize_inspected (k_state k) (k_background k) ivk att)"

definition kernel_cross_output :: "'e event_append \<Rightarrow> 'e kernel \<Rightarrow> cross_input \<Rightarrow> 'e driver_result" where
  "kernel_cross_output sink k q = kernel_apply sink k (cross_output (k_state k) (k_background k) q)"

text \<open>One call of any of the twelve methods.\<close>

inductive driver_call ::
  "'e event_append \<Rightarrow> 'e kernel \<Rightarrow> kernel_error + kernel_event \<Rightarrow> 'e kernel \<Rightarrow> bool"
  for sink where
  call_register: "kernel_register_tool sink k t = (res, k') \<Longrightarrow> driver_call sink k res k'"
| call_unregister: "kernel_unregister_tool sink k t = (res, k') \<Longrightarrow> driver_call sink k res k'"
| call_delegate: "kernel_delegate sink k p c = (res, k') \<Longrightarrow> driver_call sink k res k'"
| call_grant_capability: "kernel_grant_capability sink k p c cap = (res, k') \<Longrightarrow> driver_call sink k res k'"
| call_grant_crossing: "kernel_grant_crossing sink k g a d n = (res, k') \<Longrightarrow> driver_call sink k res k'"
| call_revoke: "kernel_revoke sink k p a = (res, k') \<Longrightarrow> driver_call sink k res k'"
| call_cascade_revoke: "kernel_cascade_revoke sink k a p = (res, k') \<Longrightarrow> driver_call sink k res k'"
| call_ingest: "kernel_ingest sink k a src l i = (res, k') \<Longrightarrow> driver_call sink k res k'"
| call_settle: "kernel_settle_invocation sink k ivk out att = (res, k') \<Longrightarrow> driver_call sink k res k'"
| call_begin: "kernel_begin_invocation sink k a ivk ch p egr ah = (res, k') \<Longrightarrow> driver_call sink k res k'"
| call_authorize: "kernel_authorize_inspected sink k ivk ia = (res, k') \<Longrightarrow> driver_call sink k res k'"
| call_cross: "kernel_cross_output sink k q = (res, k') \<Longrightarrow> driver_call sink k res k'"

lemmas driver_defs = kernel_register_tool_def kernel_unregister_tool_def kernel_delegate_def
  kernel_grant_capability_def kernel_grant_crossing_def kernel_revoke_def kernel_cascade_revoke_def
  kernel_ingest_def kernel_settle_invocation_def kernel_begin_invocation_def
  kernel_authorize_inspected_def kernel_cross_output_def

lemma driver_call_apply:
  assumes "driver_call sink k res k'"
  shows "\<exists>r. kernel_apply sink k r = (res, k') \<and>
    (\<forall>s' act. r = Inr (s', act) \<longrightarrow> kstep (k_background k) (k_state k) act s') \<and>
    (\<forall>e. r = Inl e \<longrightarrow> e \<notin> unused_errors)"
  using assms
  by (cases rule: driver_call.cases)
    (simp only: driver_defs Let_def, intro exI conjI allI impI, assumption, erule kstep.intros,
      erule errors_used)+

lemma kernel_apply_error:
  "kernel_apply sink k r = (Inl e, k') \<Longrightarrow>
     k_state k' = k_state k \<and> k_sequence k' = k_sequence k \<and> k_background k' = k_background k \<and>
     k_authorizer k' = k_authorizer k"
  by (auto simp: kernel_apply_def Let_def split: sum.splits prod.splits)

lemma kernel_apply_ok:
  "kernel_apply sink k r = (Inr ev, k') \<Longrightarrow>
     \<exists>u. r = Inr (k_state k', ev_action ev) \<and> ev_sequence ev = k_sequence k + 1 \<and>
       k_sequence k' = k_sequence k + 1 \<and> k_background k' = k_background k \<and>
       k_authorizer k' = k_authorizer k \<and> sink (k_events k) ev = (Inr u, k_events k')"
  by (auto simp: kernel_apply_def kernel_event_new_def Let_def split: sum.splits prod.splits)

text \<open>
  What the driver expects of a store: a successful append adds the event to the log, a failed one
  leaves the log alone.
\<close>

definition event_sink :: "'e event_append \<Rightarrow> ('e \<Rightarrow> kernel_event list) \<Rightarrow> bool" where
  "event_sink sink log \<longleftrightarrow>
     (\<forall>st ev st'. (\<forall>e. sink st ev = (Inl e, st') \<longrightarrow> log st' = log st) \<and>
        (\<forall>u. sink st ev = (Inr u, st') \<longrightarrow> log st' = log st @ [ev]))"

lemma event_sink_apply:
  assumes "event_sink sink log"
  shows "kernel_apply sink k r = (Inl e, k') \<Longrightarrow> log (k_events k') = log (k_events k)"
    and "kernel_apply sink k r = (Inr ev, k') \<Longrightarrow> log (k_events k') = log (k_events k) @ [ev]"
proof -
  have keep: "sink st ev = (Inl e, st') \<Longrightarrow> log st' = log st"
    and add: "sink st ev = (Inr u, st') \<Longrightarrow> log st' = log st @ [ev]" for st ev st' e u
    using assms unfolding event_sink_def by blast+
  show "kernel_apply sink k r = (Inl e, k') \<Longrightarrow> log (k_events k') = log (k_events k)"
    by (auto simp: kernel_apply_def Let_def dest: keep split: sum.splits prod.splits)
  show "kernel_apply sink k r = (Inr ev, k') \<Longrightarrow> log (k_events k') = log (k_events k) @ [ev]"
    by (auto simp: kernel_apply_def Let_def dest: add split: sum.splits prod.splits)
qed

text \<open>The driver's log explains its state: actions and gapless sequence numbers.\<close>

definition logged :: "background_theory \<Rightarrow> ('e \<Rightarrow> kernel_event list) \<Rightarrow> 'e kernel \<Rightarrow> bool" where
  "logged bg log k \<longleftrightarrow>
     k_background k = bg \<and>
     run (kstep bg) initial_state (map ev_action (log (k_events k))) (k_state k) \<and>
     map ev_sequence (log (k_events k)) = map (\<lambda>n. of_nat (Suc n)) [0..<length (log (k_events k))] \<and>
     k_sequence k = of_nat (length (log (k_events k)))"

lemma logged_call:
  assumes "event_sink sink log" "driver_call sink k res k'" "logged bg log k"
  shows "logged bg log k'"
proof -
  obtain r where r: "kernel_apply sink k r = (res, k')"
    and step: "\<forall>s' act. r = Inr (s', act) \<longrightarrow> kstep (k_background k) (k_state k) act s'"
    using driver_call_apply [OF assms(2)] by blast
  show ?thesis
  proof (cases res)
    case (Inl e)
    then show ?thesis
      using kernel_apply_error event_sink_apply(1) [OF assms(1)] r assms(3)
      by (metis logged_def)
  next
    case (Inr ev)
    from kernel_apply_ok [OF r [unfolded Inr]]
    have ok: "r = Inr (k_state k', ev_action ev)" "ev_sequence ev = k_sequence k + 1"
      "k_sequence k' = k_sequence k + 1" "k_background k' = k_background k" by auto
    have "log (k_events k') = log (k_events k) @ [ev]"
      by (rule event_sink_apply(2) [OF assms(1) r [unfolded Inr]])
    with ok step [rule_format, OF ok(1)] assms(3) show ?thesis
      by (auto simp: logged_def add.commute intro: run_snoc)
  qed
qed

lemma logged_new: "log events = [] \<Longrightarrow> logged bg log (kernel_new bg authorizer events)"
  by (simp add: logged_def kernel_new_def run_nil)

interpretation driver: invariant_system
  "\<lambda>k. event_sink sink log \<and> logged bg log k"
  "\<lambda>k res k'. driver_call sink k res k'"
  "\<lambda>k. event_sink sink log \<and> logged bg log k" for sink log bg
  by unfold_locales (auto intro: logged_call)

end
