(* ===== verification/Wire_Enums.thy ===== *)
theory Wire_Enums
  imports Kernel_Types
begin

text \<open>
  The wire enumerations of \<open>argus_nif/src/enums.rs\<close>: closed copies of the kernel's vocabulary,
  each with its conversion to and from the kernel type. The last part shows that every pair of
  conversions is a bijection.
\<close>

datatype conf_level_n = PublicN | InternalN | SensitiveN | RestrictedN

fun conf_into_kernel :: "conf_level_n \<Rightarrow> conf_level" where
  "conf_into_kernel PublicN = Public"
| "conf_into_kernel InternalN = Internal"
| "conf_into_kernel SensitiveN = Sensitive"
| "conf_into_kernel RestrictedN = Restricted"

fun conf_from_kernel :: "conf_level \<Rightarrow> conf_level_n" where
  "conf_from_kernel Public = PublicN"
| "conf_from_kernel Internal = InternalN"
| "conf_from_kernel Sensitive = SensitiveN"
| "conf_from_kernel Restricted = RestrictedN"

datatype integ_level_n = UntrustedN | StandardN | TrustedN | AttestedN

fun integ_into_kernel :: "integ_level_n \<Rightarrow> integ_level" where
  "integ_into_kernel UntrustedN = Untrusted"
| "integ_into_kernel StandardN = Standard"
| "integ_into_kernel TrustedN = Trusted"
| "integ_into_kernel AttestedN = Attested"

fun integ_from_kernel :: "integ_level \<Rightarrow> integ_level_n" where
  "integ_from_kernel Untrusted = UntrustedN"
| "integ_from_kernel Standard = StandardN"
| "integ_from_kernel Trusted = TrustedN"
| "integ_from_kernel Attested = AttestedN"

datatype egress_kind_n = NEgNetworkExternal | NEgNetworkInternal | NEgFilesystemWrite | NEgIpc

fun egress_into_kernel :: "egress_kind_n \<Rightarrow> egress_kind" where
  "egress_into_kernel NEgNetworkExternal = EgNetworkExternal"
| "egress_into_kernel NEgNetworkInternal = EgNetworkInternal"
| "egress_into_kernel NEgFilesystemWrite = EgFilesystemWrite"
| "egress_into_kernel NEgIpc = EgIpc"

fun egress_from_kernel :: "egress_kind \<Rightarrow> egress_kind_n" where
  "egress_from_kernel EgNetworkExternal = NEgNetworkExternal"
| "egress_from_kernel EgNetworkInternal = NEgNetworkInternal"
| "egress_from_kernel EgFilesystemWrite = NEgFilesystemWrite"
| "egress_from_kernel EgIpc = NEgIpc"

datatype cap_kind_n = NCapFilesystemRead | NCapFilesystemWrite | NCapFilesystemDelete
  | NCapNetworkEgress | NCapNetworkIngress | NCapExecutionShell | NCapExecutionCode
  | NCapCredentials | NCapSystemInfo | NCapSystemModify | NCapClipboard | NCapBrowserNavigate
  | NCapDatabaseRead | NCapDatabaseWrite | NCapIpc

fun cap_into_kernel :: "cap_kind_n \<Rightarrow> cap_kind" where
  "cap_into_kernel NCapFilesystemRead = CapFilesystemRead"
| "cap_into_kernel NCapFilesystemWrite = CapFilesystemWrite"
| "cap_into_kernel NCapFilesystemDelete = CapFilesystemDelete"
| "cap_into_kernel NCapNetworkEgress = CapNetworkEgress"
| "cap_into_kernel NCapNetworkIngress = CapNetworkIngress"
| "cap_into_kernel NCapExecutionShell = CapExecutionShell"
| "cap_into_kernel NCapExecutionCode = CapExecutionCode"
| "cap_into_kernel NCapCredentials = CapCredentials"
| "cap_into_kernel NCapSystemInfo = CapSystemInfo"
| "cap_into_kernel NCapSystemModify = CapSystemModify"
| "cap_into_kernel NCapClipboard = CapClipboard"
| "cap_into_kernel NCapBrowserNavigate = CapBrowserNavigate"
| "cap_into_kernel NCapDatabaseRead = CapDatabaseRead"
| "cap_into_kernel NCapDatabaseWrite = CapDatabaseWrite"
| "cap_into_kernel NCapIpc = CapIpc"

fun cap_from_kernel :: "cap_kind \<Rightarrow> cap_kind_n" where
  "cap_from_kernel CapFilesystemRead = NCapFilesystemRead"
| "cap_from_kernel CapFilesystemWrite = NCapFilesystemWrite"
| "cap_from_kernel CapFilesystemDelete = NCapFilesystemDelete"
| "cap_from_kernel CapNetworkEgress = NCapNetworkEgress"
| "cap_from_kernel CapNetworkIngress = NCapNetworkIngress"
| "cap_from_kernel CapExecutionShell = NCapExecutionShell"
| "cap_from_kernel CapExecutionCode = NCapExecutionCode"
| "cap_from_kernel CapCredentials = NCapCredentials"
| "cap_from_kernel CapSystemInfo = NCapSystemInfo"
| "cap_from_kernel CapSystemModify = NCapSystemModify"
| "cap_from_kernel CapClipboard = NCapClipboard"
| "cap_from_kernel CapBrowserNavigate = NCapBrowserNavigate"
| "cap_from_kernel CapDatabaseRead = NCapDatabaseRead"
| "cap_from_kernel CapDatabaseWrite = NCapDatabaseWrite"
| "cap_from_kernel CapIpc = NCapIpc"

datatype verdict_n = AllowN | InspectionRequiredN | DenyN

fun verdict_into_kernel :: "verdict_n \<Rightarrow> verdict" where
  "verdict_into_kernel AllowN = Allow"
| "verdict_into_kernel InspectionRequiredN = InspectionRequired"
| "verdict_into_kernel DenyN = Deny"

fun verdict_from_kernel :: "verdict \<Rightarrow> verdict_n" where
  "verdict_from_kernel Allow = AllowN"
| "verdict_from_kernel InspectionRequired = InspectionRequiredN"
| "verdict_from_kernel Deny = DenyN"

datatype disposition_n = PermittedN | BlockedN | MonitorBypassedN

fun disposition_into_kernel :: "disposition_n \<Rightarrow> disposition" where
  "disposition_into_kernel PermittedN = Permitted"
| "disposition_into_kernel BlockedN = Blocked"
| "disposition_into_kernel MonitorBypassedN = MonitorBypassed"

fun disposition_from_kernel :: "disposition \<Rightarrow> disposition_n" where
  "disposition_from_kernel Permitted = PermittedN"
| "disposition_from_kernel Blocked = BlockedN"
| "disposition_from_kernel MonitorBypassed = MonitorBypassedN"

datatype mode_n = EnforceN | MonitorN

fun mode_into_kernel :: "mode_n \<Rightarrow> enforcement_mode" where
  "mode_into_kernel EnforceN = Enforce"
| "mode_into_kernel MonitorN = Monitor"

fun mode_from_kernel :: "enforcement_mode \<Rightarrow> mode_n" where
  "mode_from_kernel Enforce = EnforceN"
| "mode_from_kernel Monitor = MonitorN"

datatype outcome_n = SuccessN | FailureN | AmbiguousN

fun outcome_into_kernel :: "outcome_n \<Rightarrow> outcome" where
  "outcome_into_kernel SuccessN = Success"
| "outcome_into_kernel FailureN = Failure"
| "outcome_into_kernel AmbiguousN = Ambiguous"

fun outcome_from_kernel :: "outcome \<Rightarrow> outcome_n" where
  "outcome_from_kernel Success = SuccessN"
| "outcome_from_kernel Failure = FailureN"
| "outcome_from_kernel Ambiguous = AmbiguousN"

datatype fallback_n = FbFailN | ReleaseUnendorsedN

fun fallback_into_kernel :: "fallback_n \<Rightarrow> fallback" where
  "fallback_into_kernel FbFailN = FbFail"
| "fallback_into_kernel ReleaseUnendorsedN = ReleaseUnendorsed"

fun fallback_from_kernel :: "fallback \<Rightarrow> fallback_n" where
  "fallback_from_kernel FbFail = FbFailN"
| "fallback_from_kernel ReleaseUnendorsed = ReleaseUnendorsedN"

datatype cross_branch_n = EndorsedN | UnendorsedN | BrFailN

fun branch_into_kernel :: "cross_branch_n \<Rightarrow> cross_branch" where
  "branch_into_kernel EndorsedN = Endorsed"
| "branch_into_kernel UnendorsedN = Unendorsed"
| "branch_into_kernel BrFailN = BrFail"

fun branch_from_kernel :: "cross_branch \<Rightarrow> cross_branch_n" where
  "branch_from_kernel Endorsed = EndorsedN"
| "branch_from_kernel Unendorsed = UnendorsedN"
| "branch_from_kernel BrFail = BrFailN"

definition egress_all :: "egress_kind_n list" where
  "egress_all = [NEgNetworkExternal, NEgNetworkInternal, NEgFilesystemWrite, NEgIpc]"

datatype admission_n = PlainN | InspectedN string | BypassedN

fun admission_into_kernel :: "admission_n \<Rightarrow> admission_kind" where
  "admission_into_kernel PlainN = Plain"
| "admission_into_kernel (InspectedN i) = Inspected (AttestationId i)"
| "admission_into_kernel BypassedN = Bypassed"

fun admission_from_kernel :: "admission_kind \<Rightarrow> admission_n" where
  "admission_from_kernel Plain = PlainN"
| "admission_from_kernel (Inspected t) = InspectedN (att_str t)"
| "admission_from_kernel Bypassed = BypassedN"

named_theorems wire_inverse \<open>conversions undo each other\<close>

lemma conf_wire_inverse [simp, wire_inverse]:
  "conf_from_kernel (conf_into_kernel w) = w" "conf_into_kernel (conf_from_kernel x) = x"
  by (cases w; simp) (cases x; simp)

lemma integ_wire_inverse [simp, wire_inverse]:
  "integ_from_kernel (integ_into_kernel w) = w" "integ_into_kernel (integ_from_kernel x) = x"
  by (cases w; simp) (cases x; simp)

lemma egress_wire_inverse [simp, wire_inverse]:
  "egress_from_kernel (egress_into_kernel w) = w" "egress_into_kernel (egress_from_kernel x) = x"
  by (cases w; simp) (cases x; simp)

lemma cap_wire_inverse [simp, wire_inverse]:
  "cap_from_kernel (cap_into_kernel w) = w" "cap_into_kernel (cap_from_kernel x) = x"
  by (cases w; simp) (cases x; simp)

lemma verdict_wire_inverse [simp, wire_inverse]:
  "verdict_from_kernel (verdict_into_kernel w) = w" "verdict_into_kernel (verdict_from_kernel x) = x"
  by (cases w; simp) (cases x; simp)

lemma disposition_wire_inverse [simp, wire_inverse]:
  "disposition_from_kernel (disposition_into_kernel w) = w" "disposition_into_kernel (disposition_from_kernel x) = x"
  by (cases w; simp) (cases x; simp)

lemma mode_wire_inverse [simp, wire_inverse]:
  "mode_from_kernel (mode_into_kernel w) = w" "mode_into_kernel (mode_from_kernel x) = x"
  by (cases w; simp) (cases x; simp)

lemma outcome_wire_inverse [simp, wire_inverse]:
  "outcome_from_kernel (outcome_into_kernel w) = w" "outcome_into_kernel (outcome_from_kernel x) = x"
  by (cases w; simp) (cases x; simp)

lemma fallback_wire_inverse [simp, wire_inverse]:
  "fallback_from_kernel (fallback_into_kernel w) = w" "fallback_into_kernel (fallback_from_kernel x) = x"
  by (cases w; simp) (cases x; simp)

lemma branch_wire_inverse [simp, wire_inverse]:
  "branch_from_kernel (branch_into_kernel w) = w" "branch_into_kernel (branch_from_kernel x) = x"
  by (cases w; simp) (cases x; simp)

lemma admission_wire_inverse [simp, wire_inverse]:
  "admission_from_kernel (admission_into_kernel w) = w" "admission_into_kernel (admission_from_kernel x) = x"
  by (cases w; simp) (cases x; simp)

lemma conf_from_kernel_inj [simp]: "conf_from_kernel x = conf_from_kernel y \<longleftrightarrow> x = y"
  by (metis conf_wire_inverse(2))

lemma conf_into_kernel_inj [simp]: "conf_into_kernel x = conf_into_kernel y \<longleftrightarrow> x = y"
  by (metis conf_wire_inverse(1))

lemma integ_from_kernel_inj [simp]: "integ_from_kernel x = integ_from_kernel y \<longleftrightarrow> x = y"
  by (metis integ_wire_inverse(2))

lemma integ_into_kernel_inj [simp]: "integ_into_kernel x = integ_into_kernel y \<longleftrightarrow> x = y"
  by (metis integ_wire_inverse(1))

lemma egress_from_kernel_inj [simp]: "egress_from_kernel x = egress_from_kernel y \<longleftrightarrow> x = y"
  by (metis egress_wire_inverse(2))

lemma egress_into_kernel_inj [simp]: "egress_into_kernel x = egress_into_kernel y \<longleftrightarrow> x = y"
  by (metis egress_wire_inverse(1))

lemma cap_from_kernel_inj [simp]: "cap_from_kernel x = cap_from_kernel y \<longleftrightarrow> x = y"
  by (metis cap_wire_inverse(2))

lemma cap_into_kernel_inj [simp]: "cap_into_kernel x = cap_into_kernel y \<longleftrightarrow> x = y"
  by (metis cap_wire_inverse(1))

lemma verdict_from_kernel_inj [simp]: "verdict_from_kernel x = verdict_from_kernel y \<longleftrightarrow> x = y"
  by (metis verdict_wire_inverse(2))

lemma verdict_into_kernel_inj [simp]: "verdict_into_kernel x = verdict_into_kernel y \<longleftrightarrow> x = y"
  by (metis verdict_wire_inverse(1))

lemma disposition_from_kernel_inj [simp]: "disposition_from_kernel x = disposition_from_kernel y \<longleftrightarrow> x = y"
  by (metis disposition_wire_inverse(2))

lemma disposition_into_kernel_inj [simp]: "disposition_into_kernel x = disposition_into_kernel y \<longleftrightarrow> x = y"
  by (metis disposition_wire_inverse(1))

lemma outcome_from_kernel_inj [simp]: "outcome_from_kernel x = outcome_from_kernel y \<longleftrightarrow> x = y"
  by (metis outcome_wire_inverse(2))

lemma outcome_into_kernel_inj [simp]: "outcome_into_kernel x = outcome_into_kernel y \<longleftrightarrow> x = y"
  by (metis outcome_wire_inverse(1))

lemma branch_from_kernel_inj [simp]: "branch_from_kernel x = branch_from_kernel y \<longleftrightarrow> x = y"
  by (metis branch_wire_inverse(2))

lemma branch_into_kernel_inj [simp]: "branch_into_kernel x = branch_into_kernel y \<longleftrightarrow> x = y"
  by (metis branch_wire_inverse(1))

lemma set_egress_all: "set egress_all = UNIV"
  unfolding egress_all_def using egress_kind_n.exhaust by auto

end
