(* ===== verification/Wire_Types.thy ===== *)
theory Wire_Types
  imports Kernel_Background Wire_Enums
begin

text \<open>
  The wire structures of \<open>argus_nif/src/wire.rs\<close>, the command and action unions of
  \<open>command.rs\<close> and \<open>event.rs\<close>, the error union, and their conversions to and from the
  kernel's types. A \<open>Vec\<close> is a list and a \<open>String\<close> its bytes; a digest is the 32 bytes of a
  SHA-256 value. The variants of \<open>CommandN\<close> and \<open>ActionN\<close> carry the fields of their structs
  in the order of declaration.
\<close>

type_synonym byte = "8 word"

datatype digest_n = DigestN (digest_bytes: "byte list")

text \<open>A digest crosses the boundary as a binary of exactly 32 bytes.\<close>

definition digest_encode :: "digest_n \<Rightarrow> byte list" where
  "digest_encode d = digest_bytes d"

definition digest_decode :: "byte list \<Rightarrow> digest_n option" where
  "digest_decode binary = (if length binary = 32 then Some (DigestN binary) else None)"

text \<open>\<open>HashMap<EgressKindN, Option<ConfLevelN>>\<close>: a channel may be absent or mapped to nothing.\<close>

record background_n =
  bn_mode :: mode_n
  bn_allow_ceiling :: "egress_kind_n \<Rightarrow> conf_level_n option option"
  bn_inspect_ceiling :: "egress_kind_n \<Rightarrow> conf_level_n option option"

definition flatten :: "'a option option \<Rightarrow> 'a option" where
  "flatten x = (case x of Some y \<Rightarrow> y | None \<Rightarrow> None)"

definition background_into_kernel :: "background_n \<Rightarrow> background_theory" where
  "background_into_kernel w =
     (let builder = set_mode builder_new (mode_into_kernel (bn_mode w));
          builder = fold (\<lambda>egress builder.
            set_egress_ceilings builder (egress_into_kernel egress)
              (map_option conf_into_kernel (flatten (bn_allow_ceiling w egress)))
              (map_option conf_into_kernel (flatten (bn_inspect_ceiling w egress))))
            egress_all builder
      in builder_build builder)"

record action_policy_snapshot_n =
  pn_tool :: string
  pn_required_caps :: "cap_kind_n list"
  pn_conf_clearance :: conf_level_n
  pn_integ_floor :: integ_level_n
  pn_integ_inspect :: integ_level_n
  pn_output_conf :: conf_level_n
  pn_output_integ :: integ_level_n
  pn_declared_egress :: "egress_kind_n list"
  pn_policy_digest :: string

definition policy_into_kernel :: "action_policy_snapshot_n \<Rightarrow> action_policy_snapshot" where
  "policy_into_kernel w =
     \<lparr>aps_tool = ToolId (pn_tool w),
      required_caps = vs_from_iter (map cap_into_kernel (pn_required_caps w)),
      conf_clearance = conf_into_kernel (pn_conf_clearance w),
      integ_floor = integ_into_kernel (pn_integ_floor w),
      integ_inspect = integ_into_kernel (pn_integ_inspect w),
      output_conf = conf_into_kernel (pn_output_conf w),
      output_integ = integ_into_kernel (pn_output_integ w),
      declared_egress = vs_from_iter (map egress_into_kernel (pn_declared_egress w)),
      policy_digest = PolicyDigest (pn_policy_digest w)\<rparr>"

definition policy_from_kernel :: "action_policy_snapshot \<Rightarrow> action_policy_snapshot_n" where
  "policy_from_kernel p =
     \<lparr>pn_tool = tool_str (aps_tool p),
      pn_required_caps = map cap_from_kernel (items (required_caps p)),
      pn_conf_clearance = conf_from_kernel (conf_clearance p),
      pn_integ_floor = integ_from_kernel (integ_floor p),
      pn_integ_inspect = integ_from_kernel (integ_inspect p),
      pn_output_conf = conf_from_kernel (output_conf p),
      pn_output_integ = integ_from_kernel (output_integ p),
      pn_declared_egress = map egress_from_kernel (items (declared_egress p)),
      pn_policy_digest = policy_str (policy_digest p)\<rparr>"

record inspection_attestation_n =
  ian_id :: string
  ian_inv :: string
  ian_challenge :: string
  ian_args_hash :: string
  ian_policy_digest :: string
  ian_positive :: bool

definition inspection_into_kernel :: "inspection_attestation_n \<Rightarrow> inspection_attestation" where
  "inspection_into_kernel w =
     \<lparr>ia_id = AttestationId (ian_id w), ia_inv = InvocationId (ian_inv w),
      ia_challenge = ChallengeId (ian_challenge w), ia_args_hash = ContentHash (ian_args_hash w),
      ia_policy_digest = PolicyDigest (ian_policy_digest w), ia_positive = ian_positive w\<rparr>"

definition inspection_from_kernel :: "inspection_attestation \<Rightarrow> inspection_attestation_n" where
  "inspection_from_kernel a =
     \<lparr>ian_id = att_str (ia_id a), ian_inv = inv_str (ia_inv a),
      ian_challenge = challenge_str (ia_challenge a), ian_args_hash = hash_str (ia_args_hash a),
      ian_policy_digest = policy_str (ia_policy_digest a), ian_positive = ia_positive a\<rparr>"

record resolution_attestation_n =
  ran_id :: string
  ran_inv :: string
  ran_outcome :: outcome_n

definition resolution_into_kernel :: "resolution_attestation_n \<Rightarrow> resolution_attestation" where
  "resolution_into_kernel w =
     \<lparr>ra_id = AttestationId (ran_id w), ra_inv = InvocationId (ran_inv w),
      ra_outcome = outcome_into_kernel (ran_outcome w)\<rparr>"

definition resolution_from_kernel :: "resolution_attestation \<Rightarrow> resolution_attestation_n" where
  "resolution_from_kernel a =
     \<lparr>ran_id = att_str (ra_id a), ran_inv = inv_str (ra_inv a),
      ran_outcome = outcome_from_kernel (ra_outcome a)\<rparr>"

record conformance_attestation_n =
  can_id :: string
  can_output :: string
  can_src :: string
  can_rcv :: string
  can_descriptor :: string
  can_assignment :: string
  can_positive :: bool

definition conformance_into_kernel :: "conformance_attestation_n \<Rightarrow> conformance_attestation" where
  "conformance_into_kernel w =
     \<lparr>ca_id = AttestationId (can_id w), ca_output = ContentHash (can_output w),
      ca_src = AgentId (can_src w), ca_rcv = AgentId (can_rcv w),
      ca_descriptor = ContentHash (can_descriptor w),
      ca_assignment = AssignmentDigest (can_assignment w), ca_positive = can_positive w\<rparr>"

definition conformance_from_kernel :: "conformance_attestation \<Rightarrow> conformance_attestation_n" where
  "conformance_from_kernel a =
     \<lparr>can_id = att_str (ca_id a), can_output = hash_str (ca_output a),
      can_src = agent_str (ca_src a), can_rcv = agent_str (ca_rcv a),
      can_descriptor = hash_str (ca_descriptor a),
      can_assignment = assignment_str (ca_assignment a), can_positive = ca_positive a\<rparr>"

record cross_input_n =
  xn_src :: string
  xn_rcv :: string
  xn_crossing :: string
  xn_output_hash :: string
  xn_descriptor :: string
  xn_fallback :: fallback_n
  xn_t_integ :: integ_level_n
  xn_t_conf :: "conf_level_n option"
  xn_assignment :: string
  xn_evidence :: "conformance_attestation_n option"
  xn_released_conf :: conf_level_n
  xn_released_integ :: integ_level_n

definition cross_into_kernel :: "cross_input_n \<Rightarrow> cross_input" where
  "cross_into_kernel w =
     \<lparr>x_src = AgentId (xn_src w), x_rcv = AgentId (xn_rcv w), x_crossing = CrossingId (xn_crossing w),
      x_output_hash = ContentHash (xn_output_hash w), x_descriptor = ContentHash (xn_descriptor w),
      x_fallback = fallback_into_kernel (xn_fallback w), t_integ = integ_into_kernel (xn_t_integ w),
      t_conf = map_option conf_into_kernel (xn_t_conf w),
      x_assignment = AssignmentDigest (xn_assignment w),
      x_evidence = map_option conformance_into_kernel (xn_evidence w),
      released_conf = conf_into_kernel (xn_released_conf w),
      released_integ = integ_into_kernel (xn_released_integ w)\<rparr>"

definition cross_from_kernel :: "cross_input \<Rightarrow> cross_input_n" where
  "cross_from_kernel q =
     \<lparr>xn_src = agent_str (x_src q), xn_rcv = agent_str (x_rcv q),
      xn_crossing = crossing_str (x_crossing q), xn_output_hash = hash_str (x_output_hash q),
      xn_descriptor = hash_str (x_descriptor q), xn_fallback = fallback_from_kernel (x_fallback q),
      xn_t_integ = integ_from_kernel (t_integ q), xn_t_conf = map_option conf_from_kernel (t_conf q),
      xn_assignment = assignment_str (x_assignment q),
      xn_evidence = map_option conformance_from_kernel (x_evidence q),
      xn_released_conf = conf_from_kernel (released_conf q),
      xn_released_integ = integ_from_kernel (released_integ q)\<rparr>"

subsection \<open>Commands, actions and errors\<close>

datatype command_n =
    CmdRegisterTool string
  | CmdUnregisterTool string
  | CmdDelegate string string
  | CmdGrantCapability string string cap_kind_n
  | CmdGrantCrossing string string string u32
  | CmdRevoke string string
  | CmdCascadeRevoke string string
  | CmdIngest string "string option" conf_level_n integ_level_n
  | CmdBeginInvocation string string string action_policy_snapshot_n "egress_kind_n list" string bool
  | CmdAuthorizeInspected string inspection_attestation_n
  | CmdSettleInvocation string outcome_n "resolution_attestation_n option"
  | CmdCrossOutput cross_input_n

datatype action_n =
    NActRegisterTool string
  | NActUnregisterTool string
  | NActDelegate string string
  | NActGrantCapability string string cap_kind_n
  | NActGrantCrossing string string string u32
  | NActRevoke string string
  | NActCascadeRevoke string string
  | NActIngest string "string option" conf_level_n integ_level_n disposition_n
  | NActBeginInvocation string string string verdict_n bool
  | NActAuthorizeInspected string string bool
  | NActSettleInvocation string string disposition_n outcome_n conf_level_n integ_level_n "string option"
  | NActCrossOutput string string string cross_branch_n disposition_n

fun action_from_kernel :: "kernel_action \<Rightarrow> action_n" where
  "action_from_kernel (ActRegisterTool t) = NActRegisterTool (tool_str t)"
| "action_from_kernel (ActUnregisterTool t) = NActUnregisterTool (tool_str t)"
| "action_from_kernel (ActDelegate p c) = NActDelegate (agent_str p) (agent_str c)"
| "action_from_kernel (ActGrantCapability p c k) =
     NActGrantCapability (agent_str p) (agent_str c) (cap_from_kernel k)"
| "action_from_kernel (ActGrantCrossing g a d n) =
     NActGrantCrossing (agent_str g) (agent_str a) (assignment_str d) n"
| "action_from_kernel (ActRevoke p a) = NActRevoke (agent_str p) (agent_str a)"
| "action_from_kernel (ActCascadeRevoke c p) = NActCascadeRevoke (agent_str c) (agent_str p)"
| "action_from_kernel (ActIngest a src l i d) =
     NActIngest (agent_str a) (map_option agent_str src) (conf_from_kernel l) (integ_from_kernel i)
       (disposition_from_kernel d)"
| "action_from_kernel (ActBeginInvocation a i t v auth) =
     NActBeginInvocation (agent_str a) (inv_str i) (tool_str t) (verdict_from_kernel v) auth"
| "action_from_kernel (ActAuthorizeInspected i t admitted) =
     NActAuthorizeInspected (inv_str i) (att_str t) admitted"
| "action_from_kernel (ActSettleInvocation i a d out c l r) =
     NActSettleInvocation (inv_str i) (agent_str a) (disposition_from_kernel d)
       (outcome_from_kernel out) (conf_from_kernel c) (integ_from_kernel l) (map_option att_str r)"
| "action_from_kernel (ActCrossOutput src rcv x b d) =
     NActCrossOutput (agent_str src) (agent_str rcv) (crossing_str x) (branch_from_kernel b)
       (disposition_from_kernel d)"

datatype kernel_error_n =
    NToolAlreadyRegistered | NToolNotRegistered | NToolInUse | NAgentInactive
  | NAgentAlreadyActive | NRootNotAllowed | NNotDirectChild | NParentStillActive
  | NAgentHasChildren | NCapabilityMissing | NNotRoot | NInvocationExists | NInvocationReplayed
  | NNotPending | NEgressNotNarrowing | NEgressNotCovering | NIncoherentPolicy
  | NChallengeAlreadyOpen | NClearanceDenied | NFlowGateBlocked | NAuthorizerDenied
  | NIntegrityFloorDenied | NPairwiseConflict | NChallengeNotOpen | NChallengeScopeMismatch
  | NAttestationConsumed | NInspectionNegative | NBlockedPending | NNotQuarantined
  | NQuarantineResolutionRequired | NResolutionAttestationInvalid | NIngestHoldFailed
  | NProvenanceNotDominated | NCrossingReplayed | NGrantMissing | NGrantExhausted
  | NSourceInFlight | NCrossingBoundViolated | NCrossingHoldFailed | NEventStore

fun error_from_kernel :: "kernel_error \<Rightarrow> kernel_error_n" where
  "error_from_kernel ToolAlreadyRegistered = NToolAlreadyRegistered"
| "error_from_kernel ToolNotRegistered = NToolNotRegistered"
| "error_from_kernel ToolInUse = NToolInUse"
| "error_from_kernel AgentInactive = NAgentInactive"
| "error_from_kernel AgentAlreadyActive = NAgentAlreadyActive"
| "error_from_kernel RootNotAllowed = NRootNotAllowed"
| "error_from_kernel NotDirectChild = NNotDirectChild"
| "error_from_kernel ParentStillActive = NParentStillActive"
| "error_from_kernel AgentHasChildren = NAgentHasChildren"
| "error_from_kernel CapabilityMissing = NCapabilityMissing"
| "error_from_kernel NotRoot = NNotRoot"
| "error_from_kernel InvocationExists = NInvocationExists"
| "error_from_kernel InvocationReplayed = NInvocationReplayed"
| "error_from_kernel NotPending = NNotPending"
| "error_from_kernel EgressNotNarrowing = NEgressNotNarrowing"
| "error_from_kernel EgressNotCovering = NEgressNotCovering"
| "error_from_kernel IncoherentPolicy = NIncoherentPolicy"
| "error_from_kernel ChallengeAlreadyOpen = NChallengeAlreadyOpen"
| "error_from_kernel ClearanceDenied = NClearanceDenied"
| "error_from_kernel FlowGateBlocked = NFlowGateBlocked"
| "error_from_kernel AuthorizerDenied = NAuthorizerDenied"
| "error_from_kernel IntegrityFloorDenied = NIntegrityFloorDenied"
| "error_from_kernel PairwiseConflict = NPairwiseConflict"
| "error_from_kernel ChallengeNotOpen = NChallengeNotOpen"
| "error_from_kernel ChallengeScopeMismatch = NChallengeScopeMismatch"
| "error_from_kernel AttestationConsumed = NAttestationConsumed"
| "error_from_kernel InspectionNegative = NInspectionNegative"
| "error_from_kernel BlockedPending = NBlockedPending"
| "error_from_kernel NotQuarantined = NNotQuarantined"
| "error_from_kernel QuarantineResolutionRequired = NQuarantineResolutionRequired"
| "error_from_kernel ResolutionAttestationInvalid = NResolutionAttestationInvalid"
| "error_from_kernel IngestHoldFailed = NIngestHoldFailed"
| "error_from_kernel ProvenanceNotDominated = NProvenanceNotDominated"
| "error_from_kernel CrossingReplayed = NCrossingReplayed"
| "error_from_kernel GrantMissing = NGrantMissing"
| "error_from_kernel GrantExhausted = NGrantExhausted"
| "error_from_kernel SourceInFlight = NSourceInFlight"
| "error_from_kernel CrossingBoundViolated = NCrossingBoundViolated"
| "error_from_kernel CrossingHoldFailed = NCrossingHoldFailed"
| "error_from_kernel EventStoreError = NEventStore"

datatype error_n =
    NKernel kernel_error_n
  | InstanceBusy
  | ResourcePoisoned
  | CapacityExceeded
  | SequenceExhausted
  | InvalidVersion
  | SequenceMismatch
  | PreviousDigestMismatch
  | ActionMismatch
  | DigestMismatch
  | ReplayRefused kernel_error_n
  | RecoveryConsumed
  | FinalAnchorMismatch

record envelope_n =
  en_version :: u32
  en_sequence :: u64
  en_previous_digest :: digest_n
  en_digest :: digest_n
  en_command :: command_n
  en_action :: action_n

record chain_n =
  cn_version :: u32
  cn_sequence :: u64
  cn_head :: digest_n

subsection \<open>The conversions undo each other\<close>

lemma inspection_wire_inverse [simp, wire_inverse]:
  "inspection_from_kernel (inspection_into_kernel w) = w"
  "inspection_into_kernel (inspection_from_kernel a) = a"
  by (simp_all add: inspection_from_kernel_def inspection_into_kernel_def)

lemma resolution_wire_inverse [simp, wire_inverse]:
  "resolution_from_kernel (resolution_into_kernel w) = w"
  "resolution_into_kernel (resolution_from_kernel a) = a"
  by (simp_all add: resolution_from_kernel_def resolution_into_kernel_def)

lemma conformance_wire_inverse [simp, wire_inverse]:
  "conformance_from_kernel (conformance_into_kernel w) = w"
  "conformance_into_kernel (conformance_from_kernel a) = a"
  by (simp_all add: conformance_from_kernel_def conformance_into_kernel_def)

lemma cross_wire_inverse [simp, wire_inverse]:
  "cross_from_kernel (cross_into_kernel w) = w"
  "cross_into_kernel (cross_from_kernel q) = q"
  by (simp_all add: cross_from_kernel_def cross_into_kernel_def option.map_comp comp_def option.map_ident)

text \<open>Collecting a list into a set keeps the first occurrences; a list without repetition stays.\<close>

lemma items_fold_insert:
  "distinct (items s @ xs) \<Longrightarrow> items (fold (\<lambda>x s. vs_insert s x) xs s) = items s @ xs"
  by (induction xs arbitrary: s) (auto simp: items_vs_insert)

lemma items_from_iter_distinct: "distinct xs \<Longrightarrow> items (vs_from_iter xs) = xs"
  by (simp add: vs_from_iter_def items_fold_insert)

lemma vs_from_iter_items: "vs_wf s \<Longrightarrow> vs_from_iter (items s) = s"
  by (rule vec_set.expand) (simp add: items_from_iter_distinct vs_wf_def)

lemma policy_wire_inverse_kernel: "policy_wf p \<Longrightarrow> policy_into_kernel (policy_from_kernel p) = p"
  by (simp add: policy_into_kernel_def policy_from_kernel_def policy_wf_def vs_from_iter_items comp_def)

lemma policy_wire_inverse_wire:
  assumes "distinct (pn_required_caps w)" "distinct (pn_declared_egress w)"
  shows "policy_from_kernel (policy_into_kernel w) = w"
proof -
  have "distinct (map cap_into_kernel (pn_required_caps w))"
    "distinct (map egress_into_kernel (pn_declared_egress w))"
    using assms by (auto simp: distinct_map inj_on_def)
  then show ?thesis
    by (simp add: policy_into_kernel_def policy_from_kernel_def items_from_iter_distinct comp_def)
qed

lemma policy_wf_into_kernel: "policy_wf (policy_into_kernel w)"
  by (simp add: policy_wf_def policy_into_kernel_def wf_intros)

lemma map_option_str_inj:
  "map_option agent_str x = map_option agent_str y \<longleftrightarrow> x = y"
  "map_option att_str u = map_option att_str v \<longleftrightarrow> u = v"
  by (cases x; cases y; auto simp: agent_id.expand) (cases u; cases v; auto simp: attestation_id.expand)

lemma action_from_kernel_inj: "action_from_kernel a = action_from_kernel b \<longleftrightarrow> a = b"
  by (cases a; cases b)
    (auto simp: agent_id.expand tool_id.expand invocation_id.expand attestation_id.expand
      crossing_id.expand assignment_digest.expand map_option_str_inj)

lemma error_from_kernel_inj: "error_from_kernel a = error_from_kernel b \<longleftrightarrow> a = b"
  by (cases a) (cases b; simp)+

text \<open>The background the wire describes: the channel table is total and read through the builder.\<close>

lemma fold_set_egress_ceilings:
  assumes "distinct es"
  shows "flow_allows (builder_build (fold (\<lambda>e b. set_egress_ceilings b (egress_into_kernel e) (f e) (g e)) es b)) l x \<longleftrightarrow>
      (if x \<in> egress_into_kernel ` set es
       then (\<exists>c. f (egress_from_kernel x) = Some c \<and> l \<le> c) else flow_allows (builder_build b) l x)"
    and "flow_inspects (builder_build (fold (\<lambda>e b. set_egress_ceilings b (egress_into_kernel e) (f e) (g e)) es b)) l x \<longleftrightarrow>
      (if x \<in> egress_into_kernel ` set es
       then (\<exists>c. g (egress_from_kernel x) = Some c \<and> l \<le> c) else flow_inspects (builder_build b) l x)"
  using assms
  by (induction es arbitrary: b) (auto simp: flow_gates_set_egress_ceilings)

lemma fold_ceilings_frame:
  "bb_mode (fold (\<lambda>e b. set_egress_ceilings b (h e) (f e) (g e)) es b) = bb_mode b"
  "bb_root_agent (fold (\<lambda>e b. set_egress_ceilings b (h e) (f e) (g e)) es b) = bb_root_agent b"
  by (induction es arbitrary: b) (auto simp: set_egress_ceilings_def Let_def split: option.splits)

lemma background_into_kernel_fields:
  "bg_mode (background_into_kernel w) = mode_into_kernel (bn_mode w)"
  "root_agent (background_into_kernel w) = root_id"
  by (simp_all add: background_into_kernel_def Let_def builder_build_def fold_ceilings_frame
      set_mode_def builder_new_def)

lemma background_into_kernel_gates:
  "flow_allows (background_into_kernel w) l x \<longleftrightarrow>
     (\<exists>c. flatten (bn_allow_ceiling w (egress_from_kernel x)) = Some c \<and> l \<le> conf_into_kernel c)"
  "flow_inspects (background_into_kernel w) l x \<longleftrightarrow>
     (\<exists>c. flatten (bn_inspect_ceiling w (egress_from_kernel x)) = Some c \<and> l \<le> conf_into_kernel c)"
proof -
  have "x \<in> egress_into_kernel ` set egress_all"
    unfolding set_egress_all by (metis egress_wire_inverse(2) rangeI)
  moreover have "distinct egress_all" by (simp add: egress_all_def)
  ultimately show
    "flow_allows (background_into_kernel w) l x \<longleftrightarrow>
       (\<exists>c. flatten (bn_allow_ceiling w (egress_from_kernel x)) = Some c \<and> l \<le> conf_into_kernel c)"
    "flow_inspects (background_into_kernel w) l x \<longleftrightarrow>
       (\<exists>c. flatten (bn_inspect_ceiling w (egress_from_kernel x)) = Some c \<and> l \<le> conf_into_kernel c)"
    unfolding background_into_kernel_def Let_def
    by (simp_all add: fold_set_egress_ceilings) blast+
qed

end
