(* ===== verification/Command_Dispatch.thy ===== *)
theory Command_Dispatch
  imports Wire_Types Kernel_Wf
begin

text \<open>
  \<open>CommandN::apply\<close> of \<open>argus_nif/src/command.rs\<close>: a wire command is decoded and handed to its
  transition, and the recorded action is encoded. The canonical tags of commands and actions are in
  \<open>Chain_Transcript\<close>.
\<close>

fun command_transition :: "command_n \<Rightarrow> kernel_state \<Rightarrow> background_theory \<Rightarrow> kernel_result" where
  "command_transition (CmdRegisterTool t) s bg = register_tool s (ToolId t)"
| "command_transition (CmdUnregisterTool t) s bg = unregister_tool s (ToolId t)"
| "command_transition (CmdDelegate p c) s bg = delegate s bg (AgentId p) (AgentId c)"
| "command_transition (CmdGrantCapability p c k) s bg =
     grant_capability s (AgentId p) (AgentId c) (cap_into_kernel k)"
| "command_transition (CmdGrantCrossing g a d n) s bg =
     grant_crossing s bg (AgentId g) (AgentId a) (AssignmentDigest d) n"
| "command_transition (CmdRevoke p a) s bg = revoke s bg (AgentId p) (AgentId a)"
| "command_transition (CmdCascadeRevoke c p) s bg = cascade_revoke s bg (AgentId c) (AgentId p)"
| "command_transition (CmdIngest a src l i) s bg =
     ingest s bg (AgentId a) (map_option AgentId src) (conf_into_kernel l) (integ_into_kernel i)"
| "command_transition (CmdBeginInvocation a i ch p egr ah auth) s bg =
     begin_invocation s bg (AgentId a) (InvocationId i) (ChallengeId ch) (policy_into_kernel p)
       (vs_from_iter (map egress_into_kernel egr)) (ContentHash ah) auth"
| "command_transition (CmdAuthorizeInspected i t) s bg =
     authorize_inspected s bg (InvocationId i) (inspection_into_kernel t)"
| "command_transition (CmdSettleInvocation i out r) s bg =
     settle_invocation s (InvocationId i) (outcome_into_kernel out) (map_option resolution_into_kernel r)"
| "command_transition (CmdCrossOutput q) s bg = cross_output s bg (cross_into_kernel q)"

definition command_apply ::
  "command_n \<Rightarrow> kernel_state \<Rightarrow> background_theory \<Rightarrow> kernel_error_n + kernel_state \<times> action_n" where
  "command_apply c s bg =
     map_error error_from_kernel
       (map_ok (\<lambda>(next, action). (next, action_from_kernel action)) (command_transition c s bg))"

lemma command_apply_Inr_iff:
  "command_apply c s bg = Inr (s', act) \<longleftrightarrow>
     (\<exists>a. command_transition c s bg = Inr (s', a) \<and> act = action_from_kernel a)"
  by (auto simp: command_apply_def map_ok_Inr_iff)

lemma command_apply_Inl_iff:
  "command_apply c s bg = Inl e \<longleftrightarrow>
     (\<exists>k. command_transition c s bg = Inl k \<and> e = error_from_kernel k)"
  by (cases "command_transition c s bg") (auto simp: command_apply_def)

lemma command_transition_step: "command_transition c s bg = Inr (s', act) \<Longrightarrow> kstep bg s act s'"
  by (cases c) (auto intro: kstep.intros)

lemma command_transition_wf:
  "command_transition c s bg = Inr (s', act) \<Longrightarrow> state_wf s \<Longrightarrow> state_wf s'"
  by (cases c)
    (auto intro: policy_wf_into_kernel wf_intros
      dest: wf_register wf_unregister wf_delegate wf_grant_capability wf_grant_crossing wf_revoke
        wf_cascade_revoke wf_ingest wf_settle wf_begin wf_authorize wf_cross)

end
