(* ===== verification/Capacity_Limits.thy ===== *)
theory Capacity_Limits
  imports Command_Dispatch
begin

text \<open>
  The capacity profile of \<open>argus_nif/src/limits.rs\<close>: bounds on every collection, on every
  retained string and on their total, checked on the state and, before a transition, on what the
  command may add. \<open>usize\<close> values are natural numbers and \<open>checked_add\<close> fails at \<open>2^64\<close>; a
  loop whose body ends in \<open>?\<close> is \<open>for_each\<close>, which stops at the first error.
\<close>

definition MAX_OPAQUE_UTF8_BYTES :: nat where "MAX_OPAQUE_UTF8_BYTES = 1024"
definition MAX_AGENTS :: nat where "MAX_AGENTS = 4096"
definition MAX_PARENT_OR_LABEL_KEYS :: nat where "MAX_PARENT_OR_LABEL_KEYS = 4096"
definition MAX_TOOLS :: nat where "MAX_TOOLS = 1024"
definition MAX_PENDING :: nat where "MAX_PENDING = 4096"
definition MAX_CHALLENGES :: nat where "MAX_CHALLENGES = 4096"
definition MAX_CROSSING_GRANTS :: nat where "MAX_CROSSING_GRANTS = 16384"
definition MAX_CONSUMED_IDS :: nat where "MAX_CONSUMED_IDS = 65536"
definition MAX_CONSUMED_ATTESTATIONS :: nat where "MAX_CONSUMED_ATTESTATIONS = 65536"
definition MAX_CONSUMED_CROSSINGS :: nat where "MAX_CONSUMED_CROSSINGS = 65536"
definition MAX_RETAINED_UTF8_BYTES :: nat where "MAX_RETAINED_UTF8_BYTES = 16 * 1024 * 1024"
definition MAX_ACCEPTED_SEQUENCE :: nat where "MAX_ACCEPTED_SEQUENCE = 100000"
definition MAX_RECOVERY_ENVELOPES :: nat where "MAX_RECOVERY_ENVELOPES = 100000"
definition MAX_REPLAY_CONTENT_BYTES :: nat where "MAX_REPLAY_CONTENT_BYTES = 64 * 1024 * 1024"
definition MAX_CAPABILITIES :: nat where "MAX_CAPABILITIES = 15"
definition MAX_EGRESS_KINDS :: nat where "MAX_EGRESS_KINDS = 4"
definition MAX_CONF_LEVELS :: nat where "MAX_CONF_LEVELS = 4"
definition MAX_INTEG_LEVELS :: nat where "MAX_INTEG_LEVELS = 4"

lemmas limit_defs = MAX_OPAQUE_UTF8_BYTES_def MAX_AGENTS_def MAX_PARENT_OR_LABEL_KEYS_def
  MAX_TOOLS_def MAX_PENDING_def MAX_CHALLENGES_def MAX_CROSSING_GRANTS_def MAX_CONSUMED_IDS_def
  MAX_CONSUMED_ATTESTATIONS_def MAX_CONSUMED_CROSSINGS_def MAX_RETAINED_UTF8_BYTES_def
  MAX_CAPABILITIES_def MAX_EGRESS_KINDS_def MAX_CONF_LEVELS_def MAX_INTEG_LEVELS_def

text \<open>\<open>assert!(MAX_ACCEPTED_SEQUENCE == MAX_RECOVERY_ENVELOPES as u64)\<close>, checked when the crate is compiled.\<close>

lemma sequence_limits_agree: "(of_nat MAX_ACCEPTED_SEQUENCE :: u64) = of_nat MAX_RECOVERY_ENVELOPES"
  by (simp add: MAX_ACCEPTED_SEQUENCE_def MAX_RECOVERY_ENVELOPES_def)

definition checked_capacity :: "nat \<Rightarrow> nat \<Rightarrow> nat \<Rightarrow> error_n + nat" where
  "checked_capacity current addition maximum =
     (if current + addition < 2 ^ 64
      then (if current + addition \<le> maximum then Inr (current + addition) else Inl CapacityExceeded)
      else Inl CapacityExceeded)"

definition check_len :: "nat \<Rightarrow> nat \<Rightarrow> error_n + unit" where
  "check_len current maximum = map_ok (\<lambda>_. ()) (checked_capacity current 0 maximum)"

text \<open>\<open>TextBudget\<close> is its total; a Rust string's length is its number of bytes.\<close>

type_synonym text_budget = nat

definition text_budget_new :: text_budget where
  "text_budget_new = 0"

definition text_budget_from_total :: "nat \<Rightarrow> error_n + text_budget" where
  "text_budget_from_total used = map_ok (\<lambda>_. used) (check_len used MAX_RETAINED_UTF8_BYTES)"

definition text_add :: "text_budget \<Rightarrow> string \<Rightarrow> error_n + text_budget" where
  "text_add budget value =
     and_then (check_len (length value) MAX_OPAQUE_UTF8_BYTES)
       (\<lambda>_. checked_capacity budget (length value) MAX_RETAINED_UTF8_BYTES)"

definition text_add_all :: "string list \<Rightarrow> text_budget \<Rightarrow> error_n + text_budget" where
  "text_add_all values budget = for_each (\<lambda>value text. text_add text value) values budget"

definition check_values :: "string list \<Rightarrow> error_n + unit" where
  "check_values values = for_each (\<lambda>value _. check_len (length value) MAX_OPAQUE_UTF8_BYTES) values ()"

definition check_policy :: "action_policy_snapshot_n \<Rightarrow> error_n + unit" where
  "check_policy policy =
     and_then (check_len (length (pn_required_caps policy)) MAX_CAPABILITIES)
       (\<lambda>_. check_len (length (pn_declared_egress policy)) MAX_EGRESS_KINDS)"

definition check_evidence :: "conformance_attestation_n \<Rightarrow> error_n + unit" where
  "check_evidence e =
     check_values [can_id e, can_output e, can_src e, can_rcv e, can_descriptor e, can_assignment e]"

definition check_cross_input :: "cross_input_n \<Rightarrow> error_n + unit" where
  "check_cross_input q =
     and_then (check_values [xn_src q, xn_rcv q, xn_crossing q, xn_output_hash q, xn_descriptor q,
       xn_assignment q])
       (\<lambda>_. case xn_evidence q of Some e \<Rightarrow> check_evidence e | None \<Rightarrow> Inr ())"

fun check_command :: "command_n \<Rightarrow> error_n + unit" where
  "check_command (CmdRegisterTool t) = check_values [t]"
| "check_command (CmdUnregisterTool t) = check_values [t]"
| "check_command (CmdDelegate p c) = check_values [p, c]"
| "check_command (CmdGrantCapability p c k) = check_values [p, c]"
| "check_command (CmdGrantCrossing g a d n) = check_values [g, a, d]"
| "check_command (CmdRevoke p a) = check_values [p, a]"
| "check_command (CmdCascadeRevoke c p) = check_values [c, p]"
| "check_command (CmdIngest a src l i) =
     and_then (check_values [a]) (\<lambda>_. case src of Some b \<Rightarrow> check_values [b] | None \<Rightarrow> Inr ())"
| "check_command (CmdBeginInvocation a i ch p egr ah auth) =
     and_then (check_values [a, i, ch, pn_tool p, pn_policy_digest p, ah])
       (\<lambda>_. and_then (check_policy p) (\<lambda>_. check_len (length egr) MAX_EGRESS_KINDS))"
| "check_command (CmdAuthorizeInspected i t) =
     check_values [i, ian_id t, ian_inv t, ian_challenge t, ian_args_hash t, ian_policy_digest t]"
| "check_command (CmdSettleInvocation i out r) =
     and_then (check_values [i])
       (\<lambda>_. case r of Some t \<Rightarrow> check_values [ran_id t, ran_inv t] | None \<Rightarrow> Inr ())"
| "check_command (CmdCrossOutput q) = check_cross_input q"

text \<open>The strings that \<open>retained_text\<close> counts for one entry of each collection, in its order.\<close>

definition pending_strings :: "invocation_id \<times> pending_invocation \<Rightarrow> string list" where
  "pending_strings = (\<lambda>(i, j).
     [inv_str i, agent_str (pi_agent j), tool_str (aps_tool (pi_policy j)),
      policy_str (policy_digest (pi_policy j))] @
     (case admission j of Inspected t \<Rightarrow> [att_str t] | _ \<Rightarrow> []))"

definition challenge_strings :: "invocation_id \<times> challenge_scope \<Rightarrow> string list" where
  "challenge_strings = (\<lambda>(i, c).
     [inv_str i, challenge_str (cs_challenge c), agent_str (cs_agent c),
      tool_str (aps_tool (cs_policy c)), policy_str (policy_digest (cs_policy c)),
      hash_str (cs_args_hash c)])"

definition retained_text :: "kernel_state \<Rightarrow> error_n + text_budget" where
  "retained_text s =
     and_then (for_each (\<lambda>a. text_add_all [agent_str a]) (items (agent_active s)) text_budget_new) (\<lambda>text.
     and_then (for_each (\<lambda>(child, p). text_add_all [agent_str child, agent_str p]) (entries (agent_parent s)) text) (\<lambda>text.
     and_then (for_each (\<lambda>(a, _). text_add_all [agent_str a]) (entries (agent_cap s)) text) (\<lambda>text.
     and_then (for_each (\<lambda>(a, _). text_add_all [agent_str a]) (entries (taint_levels s)) text) (\<lambda>text.
     and_then (for_each (\<lambda>(a, _). text_add_all [agent_str a]) (entries (integ_levels s)) text) (\<lambda>text.
     and_then (for_each (\<lambda>e. text_add_all (pending_strings e)) (entries (pending s)) text) (\<lambda>text.
     and_then (for_each (\<lambda>e. text_add_all (challenge_strings e)) (entries (challenges s)) text) (\<lambda>text.
     and_then (for_each (\<lambda>i. text_add_all [inv_str i]) (items (consumed_ids s)) text) (\<lambda>text.
     and_then (for_each (\<lambda>t. text_add_all [att_str t]) (items (consumed_attestations s)) text) (\<lambda>text.
     and_then (for_each (\<lambda>x. text_add_all [crossing_str x]) (items (consumed_crossings s)) text) (\<lambda>text.
     and_then (for_each (\<lambda>(k, _). text_add_all [agent_str (ck_agent k), assignment_str (ck_assignment k)])
       (entries (crossing_grants s)) text) (\<lambda>text.
     for_each (\<lambda>t. text_add_all [tool_str t]) (items (tool_registered s)) text)))))))))))"

definition check_policy_shape :: "action_policy_snapshot \<Rightarrow> egress_kind vec_set \<Rightarrow> error_n + unit" where
  "check_policy_shape p egr =
     and_then (check_len (vs_len (required_caps p)) MAX_CAPABILITIES) (\<lambda>_.
     and_then (check_len (vs_len (declared_egress p)) MAX_EGRESS_KINDS) (\<lambda>_.
     check_len (vs_len egr) MAX_EGRESS_KINDS))"

definition check_state_shape :: "kernel_state \<Rightarrow> error_n + unit" where
  "check_state_shape s =
     and_then (for_each (\<lambda>(n, max) _. check_len n max)
       [(vs_len (agent_active s), MAX_AGENTS),
        (vm_len (agent_parent s), MAX_PARENT_OR_LABEL_KEYS),
        (vm_len (agent_cap s), MAX_PARENT_OR_LABEL_KEYS),
        (vm_len (taint_levels s), MAX_PARENT_OR_LABEL_KEYS),
        (vm_len (integ_levels s), MAX_PARENT_OR_LABEL_KEYS),
        (vm_len (pending s), MAX_PENDING),
        (vm_len (challenges s), MAX_CHALLENGES),
        (vm_len (crossing_grants s), MAX_CROSSING_GRANTS),
        (vs_len (consumed_ids s), MAX_CONSUMED_IDS),
        (vs_len (consumed_attestations s), MAX_CONSUMED_ATTESTATIONS),
        (vs_len (consumed_crossings s), MAX_CONSUMED_CROSSINGS),
        (vs_len (tool_registered s), MAX_TOOLS)] ()) (\<lambda>_.
     and_then (for_each (\<lambda>(_, c) _. check_len (vs_len c) MAX_CAPABILITIES) (entries (agent_cap s)) ()) (\<lambda>_.
     and_then (for_each (\<lambda>(_, l) _. check_len (vs_len l) MAX_CONF_LEVELS) (entries (taint_levels s)) ()) (\<lambda>_.
     and_then (for_each (\<lambda>(_, l) _. check_len (vs_len l) MAX_INTEG_LEVELS) (entries (integ_levels s)) ()) (\<lambda>_.
     and_then (for_each (\<lambda>(_, j) _. check_policy_shape (pi_policy j) (pi_egress j)) (entries (pending s)) ()) (\<lambda>_.
     for_each (\<lambda>(_, c) _. check_policy_shape (cs_policy c) (cs_egress c)) (entries (challenges s)) ())))))"

definition checked_state_text :: "kernel_state \<Rightarrow> error_n + text_budget" where
  "checked_state_text s = and_then (check_state_shape s) (\<lambda>_. retained_text s)"

definition check_state :: "kernel_state \<Rightarrow> error_n + unit" where
  "check_state s = map_ok (\<lambda>_. ()) (checked_state_text s)"

text \<open>\<open>sequence.checked_add(1)\<close> on \<open>u64\<close>, then the profile's bound.\<close>

definition checked_next :: "u64 \<Rightarrow> error_n + u64" where
  "checked_next sequence =
     (if sequence = - 1 then Inl SequenceExhausted else Inr (sequence + 1))"

definition check_sequence :: "u64 \<Rightarrow> error_n + unit" where
  "check_sequence sequence =
     and_then (checked_next sequence) (\<lambda>next.
       if unat next > MAX_ACCEPTED_SEQUENCE then Inl SequenceExhausted else Inr ())"

definition check_recovery_link :: "kernel_state \<Rightarrow> u64 \<Rightarrow> error_n + unit" where
  "check_recovery_link s sequence = and_then (check_state s) (\<lambda>_. check_sequence sequence)"

definition add_label_key_if_absent :: "(agent_id, 'v) vec_map \<Rightarrow> string \<Rightarrow> nat" where
  "add_label_key_if_absent m a = of_bool (\<not> vm_contains_key m (AgentId a))"

declare text_budget_new_def [simp] add_label_key_if_absent_def [simp]

definition check_label_key :: "(agent_id, 'v) vec_map \<Rightarrow> agent_id \<Rightarrow> error_n + unit" where
  "check_label_key m a =
     map_ok (\<lambda>_. ()) (checked_capacity (vm_len m) (of_bool (\<not> vm_contains_key m a)) MAX_PARENT_OR_LABEL_KEYS)"

text \<open>\<open>levels.is_none_or(|levels| !levels.contains(x))\<close> and \<open>levels.map_or(0, len)\<close>.\<close>

definition lacks :: "'a vec_set option \<Rightarrow> 'a \<Rightarrow> bool" where
  "lacks held x \<longleftrightarrow> (case held of Some levels \<Rightarrow> \<not> vs_contains levels x | None \<Rightarrow> True)"

definition len_or_zero :: "'a vec_set option \<Rightarrow> nat" where
  "len_or_zero held = (case held of Some levels \<Rightarrow> vs_len levels | None \<Rightarrow> 0)"

text \<open>The labels a crossing may add, at least one whatever the sets hold.\<close>

definition cross_addition :: "'a vec_set option \<Rightarrow> 'a vec_set option \<Rightarrow> nat" where
  "cross_addition src rcv =
     (case src of
        Some levels \<Rightarrow> max (length (filter (lacks rcv) (items levels))) 1
      | None \<Rightarrow> 1)"

definition check_cross_post :: "kernel_state \<Rightarrow> cross_input_n \<Rightarrow> text_budget \<Rightarrow> error_n + text_budget" where
  "check_cross_post s q text =
     and_then (checked_capacity (vs_len (consumed_crossings s)) 1 MAX_CONSUMED_CROSSINGS) (\<lambda>_.
     and_then (if xn_evidence q \<noteq> None
         then checked_capacity (vs_len (consumed_attestations s)) 1 MAX_CONSUMED_ATTESTATIONS
         else Inr 0) (\<lambda>_.
     let src = AgentId (xn_src q); rcv = AgentId (xn_rcv q) in
     and_then (check_label_key (taint_levels s) rcv) (\<lambda>_.
     and_then (check_label_key (integ_levels s) rcv) (\<lambda>_.
     let src_conf = vm_get (taint_levels s) src; rcv_conf = vm_get (taint_levels s) rcv in
     and_then (checked_capacity (len_or_zero rcv_conf) (cross_addition src_conf rcv_conf) MAX_CONF_LEVELS) (\<lambda>_.
     let src_integ = vm_get (integ_levels s) src; rcv_integ = vm_get (integ_levels s) rcv in
     and_then (checked_capacity (len_or_zero rcv_integ) (cross_addition src_integ rcv_integ) MAX_INTEG_LEVELS) (\<lambda>_.
     text_add_all ([xn_crossing q, xn_rcv q, xn_rcv q] @
       (case xn_evidence q of Some e \<Rightarrow> [can_id e] | None \<Rightarrow> [])) text))))))"

fun check_post_transition :: "kernel_state \<Rightarrow> command_n \<Rightarrow> text_budget \<Rightarrow> error_n + text_budget" where
  "check_post_transition s (CmdRegisterTool t) text =
     and_then (checked_capacity (vs_len (tool_registered s)) 1 MAX_TOOLS) (\<lambda>_. text_add text t)"
| "check_post_transition s (CmdUnregisterTool t) text = Inr text"
| "check_post_transition s (CmdRevoke p a) text = Inr text"
| "check_post_transition s (CmdCascadeRevoke c p) text = Inr text"
| "check_post_transition s (CmdDelegate p c) text =
     and_then (checked_capacity (vs_len (agent_active s)) 1 MAX_AGENTS) (\<lambda>_.
     and_then (checked_capacity (vm_len (agent_parent s)) 1 MAX_PARENT_OR_LABEL_KEYS) (\<lambda>_.
     text_add_all [c, c, p] text))"
| "check_post_transition s (CmdGrantCapability p c k) text =
     (let child = AgentId c in
     and_then (checked_capacity (vm_len (agent_cap s)) (of_bool (\<not> vm_contains_key (agent_cap s) child))
       MAX_PARENT_OR_LABEL_KEYS) (\<lambda>_.
     let existing = vm_get (agent_cap s) child in
     and_then (checked_capacity (len_or_zero existing) (of_bool (lacks existing (cap_into_kernel k)))
       MAX_CAPABILITIES) (\<lambda>_.
     if existing = None then text_add text c else Inr text)))"
| "check_post_transition s (CmdGrantCrossing g a d n) text =
     and_then (checked_capacity (vm_len (crossing_grants s)) 1 MAX_CROSSING_GRANTS) (\<lambda>_.
     text_add_all [a, d] text)"
| "check_post_transition s (CmdIngest a src l i) text =
     (let agent = AgentId a;
          taint_addition = add_label_key_if_absent (taint_levels s) a;
          integ_addition = add_label_key_if_absent (integ_levels s) a in
     and_then (checked_capacity (vm_len (taint_levels s)) taint_addition MAX_PARENT_OR_LABEL_KEYS) (\<lambda>_.
     and_then (checked_capacity (vm_len (integ_levels s)) integ_addition MAX_PARENT_OR_LABEL_KEYS) (\<lambda>_.
     and_then (checked_capacity (len_or_zero (vm_get (taint_levels s) agent))
       (of_bool (lacks (vm_get (taint_levels s) agent) (conf_into_kernel l))) MAX_CONF_LEVELS) (\<lambda>_.
     and_then (checked_capacity (len_or_zero (vm_get (integ_levels s) agent))
       (of_bool (lacks (vm_get (integ_levels s) agent) (integ_into_kernel i))) MAX_INTEG_LEVELS) (\<lambda>_.
     and_then (if taint_addition = (1 :: nat) then text_add text a else Inr text) (\<lambda>text.
     if integ_addition = (1 :: nat) then text_add text a else Inr text))))))"
| "check_post_transition s (CmdBeginInvocation a i ch p egr ah auth) text =
     and_then (checked_capacity (vm_len (pending s)) 1 MAX_PENDING) (\<lambda>_.
     and_then (checked_capacity (vm_len (challenges s)) 1 MAX_CHALLENGES) (\<lambda>_.
     and_then (checked_capacity (vs_len (consumed_ids s)) 1 MAX_CONSUMED_IDS) (\<lambda>_.
     text_add_all [i, i, a, ch, pn_tool p, pn_policy_digest p, ah] text)))"
| "check_post_transition s (CmdAuthorizeInspected i t) text =
     and_then (checked_capacity (vm_len (pending s)) 1 MAX_PENDING) (\<lambda>_.
     and_then (checked_capacity (vs_len (consumed_attestations s)) 1 MAX_CONSUMED_ATTESTATIONS) (\<lambda>_.
     text_add_all ([ian_id t, ian_id t] @
       (case vm_get (challenges s) (InvocationId i) of
          Some c \<Rightarrow> [i, agent_str (cs_agent c), tool_str (aps_tool (cs_policy c)),
            policy_str (policy_digest (cs_policy c))]
        | None \<Rightarrow> [])) text))"
| "check_post_transition s (CmdSettleInvocation i out r) text =
     and_then (if r \<noteq> None
         then checked_capacity (vs_len (consumed_attestations s)) 1 MAX_CONSUMED_ATTESTATIONS
         else Inr 0) (\<lambda>_.
     and_then (case vm_get (pending s) (InvocationId i) of
         Some j \<Rightarrow>
           and_then (check_label_key (taint_levels s) (pi_agent j)) (\<lambda>_.
           and_then (check_label_key (integ_levels s) (pi_agent j)) (\<lambda>_.
           text_add_all [agent_str (pi_agent j), agent_str (pi_agent j)] text))
       | None \<Rightarrow> Inr text) (\<lambda>text.
     case r of Some t \<Rightarrow> text_add text (ran_id t) | None \<Rightarrow> Inr text))"
| "check_post_transition s (CmdCrossOutput q) text = check_cross_post s q text"

definition preflight :: "kernel_state \<Rightarrow> u64 \<Rightarrow> command_n \<Rightarrow> error_n + unit" where
  "preflight s sequence command =
     and_then (check_sequence sequence) (\<lambda>_.
     and_then (checked_state_text s) (\<lambda>text.
     and_then (check_command command) (\<lambda>_.
     map_ok (\<lambda>_. ()) (check_post_transition s command text))))"

end
