(* ===== verification/Capacity_Checks.thy ===== *)
theory Capacity_Checks
  imports Capacity_Limits "HOL-Library.Multiset"
begin

text \<open>
  The capacity checks of \<open>Capacity_Limits\<close> as inequalities: a state passes \<open>check_state\<close> iff its
  collections are within their lengths and its retained strings are short and small in total.
\<close>

subsection \<open>The checks as inequalities\<close>

lemma checked_capacity_Inr_iff:
  "checked_capacity n k m = Inr t \<longleftrightarrow> t = n + k \<and> t \<le> m \<and> t < 2 ^ 64"
  by (auto simp: checked_capacity_def)

lemma check_len_Inr_iff: "check_len n m = Inr u \<longleftrightarrow> n \<le> m \<and> n < 2 ^ 64"
  by (auto simp: check_len_def map_ok_Inr_iff checked_capacity_Inr_iff)

lemma check_len_limits [simp]:
  "check_len n MAX_OPAQUE_UTF8_BYTES = Inr u \<longleftrightarrow> n \<le> MAX_OPAQUE_UTF8_BYTES"
  "check_len n MAX_AGENTS = Inr u \<longleftrightarrow> n \<le> MAX_AGENTS"
  "check_len n MAX_PARENT_OR_LABEL_KEYS = Inr u \<longleftrightarrow> n \<le> MAX_PARENT_OR_LABEL_KEYS"
  "check_len n MAX_TOOLS = Inr u \<longleftrightarrow> n \<le> MAX_TOOLS"
  "check_len n MAX_PENDING = Inr u \<longleftrightarrow> n \<le> MAX_PENDING"
  "check_len n MAX_CHALLENGES = Inr u \<longleftrightarrow> n \<le> MAX_CHALLENGES"
  "check_len n MAX_CROSSING_GRANTS = Inr u \<longleftrightarrow> n \<le> MAX_CROSSING_GRANTS"
  "check_len n MAX_CONSUMED_IDS = Inr u \<longleftrightarrow> n \<le> MAX_CONSUMED_IDS"
  "check_len n MAX_CONSUMED_ATTESTATIONS = Inr u \<longleftrightarrow> n \<le> MAX_CONSUMED_ATTESTATIONS"
  "check_len n MAX_CONSUMED_CROSSINGS = Inr u \<longleftrightarrow> n \<le> MAX_CONSUMED_CROSSINGS"
  "check_len n MAX_CAPABILITIES = Inr u \<longleftrightarrow> n \<le> MAX_CAPABILITIES"
  "check_len n MAX_EGRESS_KINDS = Inr u \<longleftrightarrow> n \<le> MAX_EGRESS_KINDS"
  "check_len n MAX_CONF_LEVELS = Inr u \<longleftrightarrow> n \<le> MAX_CONF_LEVELS"
  "check_len n MAX_INTEG_LEVELS = Inr u \<longleftrightarrow> n \<le> MAX_INTEG_LEVELS"
  by (auto simp: check_len_Inr_iff limit_defs)

lemma text_add_Inr_iff:
  "text_add b v = Inr b' \<longleftrightarrow>
     length v \<le> MAX_OPAQUE_UTF8_BYTES \<and> b' = b + length v \<and> b' \<le> MAX_RETAINED_UTF8_BYTES"
proof -
  have "checked_capacity b (length v) MAX_RETAINED_UTF8_BYTES = Inr b' \<longleftrightarrow>
      b' = b + length v \<and> b' \<le> MAX_RETAINED_UTF8_BYTES"
    by (auto simp: checked_capacity_Inr_iff limit_defs)
  then show ?thesis by (auto simp: text_add_def and_then_Inr_iff)
qed

text \<open>\<open>fits b vs b'\<close>: adding the strings \<open>vs\<close> to the budget \<open>b\<close> gives \<open>b'\<close>.\<close>

definition fits :: "nat \<Rightarrow> string list \<Rightarrow> nat \<Rightarrow> bool" where
  "fits b vs b' \<longleftrightarrow> (\<forall>v \<in> set vs. length v \<le> MAX_OPAQUE_UTF8_BYTES) \<and>
     b' = b + sum_list (map length vs) \<and> (vs \<noteq> [] \<longrightarrow> b' \<le> MAX_RETAINED_UTF8_BYTES)"

lemma fits_Nil [simp]: "fits b [] b' \<longleftrightarrow> b' = b"
  by (auto simp: fits_def)

lemma fits_Cons: "fits b (v # vs) b' \<longleftrightarrow> (\<exists>c. text_add b v = Inr c \<and> fits c vs b')"
  by (cases "vs = []") (auto simp: fits_def text_add_Inr_iff)

lemma text_add_all_Inr_iff: "text_add_all vs b = Inr b' \<longleftrightarrow> fits b vs b'"
proof (induction vs arbitrary: b)
  case Nil
  then show ?case by (auto simp: text_add_all_def)
next
  case (Cons v vs)
  then show ?case by (auto simp: text_add_all_def fits_Cons and_then_Inr_iff)
qed

lemma fits_append: "fits b (vs @ ws) b' \<longleftrightarrow> (\<exists>c. fits b vs c \<and> fits c ws b')"
  by (induction vs arbitrary: b) (auto simp: fits_Cons)

lemma for_each_text_Inr_iff:
  "for_each (\<lambda>x. text_add_all (h x)) xs b = Inr b' \<longleftrightarrow> fits b (concat (map h xs)) b'"
  by (induction xs arbitrary: b) (auto simp: and_then_Inr_iff text_add_all_Inr_iff fits_append)

subsection \<open>The retained strings\<close>

definition map_strings :: "('k \<times> 'v \<Rightarrow> string list) \<Rightarrow> ('k, 'v) vec_map \<Rightarrow> string list" where
  "map_strings h m = concat (map h (entries m))"

definition set_strings :: "('a \<Rightarrow> string) \<Rightarrow> 'a vec_set \<Rightarrow> string list" where
  "set_strings h s = map h (items s)"

definition key_string :: "agent_id \<times> 'v \<Rightarrow> string list" where
  "key_string e = [agent_str (fst e)]"

definition edge_strings :: "agent_id \<times> agent_id \<Rightarrow> string list" where
  "edge_strings e = [agent_str (fst e), agent_str (snd e)]"

definition grant_strings :: "crossing_key \<times> crossing_grant \<Rightarrow> string list" where
  "grant_strings e = [agent_str (ck_agent (fst e)), assignment_str (ck_assignment (fst e))]"

definition retained_strings :: "kernel_state \<Rightarrow> string list" where
  "retained_strings s =
     set_strings agent_str (agent_active s) @ map_strings edge_strings (agent_parent s) @
     map_strings key_string (agent_cap s) @ map_strings key_string (taint_levels s) @
     map_strings key_string (integ_levels s) @ map_strings pending_strings (pending s) @
     map_strings challenge_strings (challenges s) @ set_strings inv_str (consumed_ids s) @
     set_strings att_str (consumed_attestations s) @ set_strings crossing_str (consumed_crossings s) @
     map_strings grant_strings (crossing_grants s) @ set_strings tool_str (tool_registered s)"

lemma concat_singletons: "concat (map (\<lambda>x. [f x]) xs) = map f xs"
  by (induction xs) auto

lemma retained_text_Inr_iff: "retained_text s = Inr b \<longleftrightarrow> fits 0 (retained_strings s) b"
proof -
  have pair: "(\<lambda>(c :: agent_id, p :: agent_id). text_add_all [agent_str c, agent_str p]) =
      (\<lambda>e. text_add_all (edge_strings e))"
    "(\<lambda>(a :: agent_id, u :: 'v). text_add_all [agent_str a]) = (\<lambda>e. text_add_all (key_string e))"
    "(\<lambda>(k :: crossing_key, g :: crossing_grant). text_add_all
        [agent_str (ck_agent k), assignment_str (ck_assignment k)]) =
      (\<lambda>e. text_add_all (grant_strings e))" for p c a k
    by (auto simp: fun_eq_iff edge_strings_def key_string_def grant_strings_def)
  show ?thesis
    unfolding retained_text_def pair
    by (simp add: and_then_Inr_iff for_each_text_Inr_iff retained_strings_def fits_append
        set_strings_def map_strings_def concat_singletons)
qed

subsection \<open>The shape\<close>

definition outer_lengths_ok :: "kernel_state \<Rightarrow> bool" where
  "outer_lengths_ok s \<longleftrightarrow>
     vs_len (agent_active s) \<le> MAX_AGENTS \<and> vm_len (agent_parent s) \<le> MAX_PARENT_OR_LABEL_KEYS \<and>
     vm_len (agent_cap s) \<le> MAX_PARENT_OR_LABEL_KEYS \<and>
     vm_len (taint_levels s) \<le> MAX_PARENT_OR_LABEL_KEYS \<and>
     vm_len (integ_levels s) \<le> MAX_PARENT_OR_LABEL_KEYS \<and>
     vm_len (pending s) \<le> MAX_PENDING \<and> vm_len (challenges s) \<le> MAX_CHALLENGES \<and>
     vm_len (crossing_grants s) \<le> MAX_CROSSING_GRANTS \<and>
     vs_len (consumed_ids s) \<le> MAX_CONSUMED_IDS \<and>
     vs_len (consumed_attestations s) \<le> MAX_CONSUMED_ATTESTATIONS \<and>
     vs_len (consumed_crossings s) \<le> MAX_CONSUMED_CROSSINGS \<and>
     vs_len (tool_registered s) \<le> MAX_TOOLS"

text \<open>Duplicate-free sets of the finite vocabularies never exceed their bounds.\<close>

lemma card_vocabularies:
  "card (UNIV :: conf_level set) = 4" "card (UNIV :: integ_level set) = 4"
  "card (UNIV :: egress_kind set) = 4" "card (UNIV :: cap_kind set) = 15"
  by (simp_all add: conf_level_UNIV integ_level_UNIV egress_kind_UNIV cap_kind_UNIV
      distinct_card [OF distinct_cap_all]) (simp add: cap_all_def)

lemma vocabulary_lengths:
  "vs_wf c \<Longrightarrow> vs_len c \<le> MAX_CONF_LEVELS" "vs_wf i \<Longrightarrow> vs_len i \<le> MAX_INTEG_LEVELS"
  "vs_wf e \<Longrightarrow> vs_len e \<le> MAX_EGRESS_KINDS" "vs_wf k \<Longrightarrow> vs_len k \<le> MAX_CAPABILITIES"
  for c :: "conf_level vec_set" and i :: "integ_level vec_set" and e :: "egress_kind vec_set"
    and k :: "cap_kind vec_set"
  using vs.size_bound [of c UNIV] vs.size_bound [of i UNIV] vs.size_bound [of e UNIV]
    vs.size_bound [of k UNIV]
  by (simp_all add: vs_len_def limit_defs card_vocabularies)

lemma check_state_shape_Inr_iff:
  assumes "state_wf s"
  shows "check_state_shape s = Inr () \<longleftrightarrow> outer_lengths_ok s"
proof -
  have sets: "\<forall>e \<in> set (entries (agent_cap s)). vs_wf (snd e)"
    "\<forall>e \<in> set (entries (taint_levels s)). vs_wf (snd e)"
    "\<forall>e \<in> set (entries (integ_levels s)). vs_wf (snd e)"
    using assms by (auto simp: state_wf_def vm_sets_wf_def vm_all_values_def)
  have records: "\<forall>e \<in> set (entries (pending s)). pending_wf (snd e)"
    "\<forall>e \<in> set (entries (challenges s)). challenge_wf (snd e)"
    using assms by (auto simp: state_wf_def vm_all_values_def)
  have inner: "for_each (\<lambda>(_, c) _. check_len (vs_len c) MAX_CAPABILITIES) (entries (agent_cap s)) () = Inr ()"
    "for_each (\<lambda>(_, l) _. check_len (vs_len l) MAX_CONF_LEVELS) (entries (taint_levels s)) () = Inr ()"
    "for_each (\<lambda>(_, l) _. check_len (vs_len l) MAX_INTEG_LEVELS) (entries (integ_levels s)) () = Inr ()"
    "for_each (\<lambda>(_, j) _. check_policy_shape (pi_policy j) (pi_egress j)) (entries (pending s)) () = Inr ()"
    "for_each (\<lambda>(_, c) _. check_policy_shape (cs_policy c) (cs_egress c)) (entries (challenges s)) () = Inr ()"
    using sets records
    by (auto simp: case_prod_unfold for_each_unit_Inr_iff check_policy_shape_def and_then_Inr_iff
        pending_wf_def challenge_wf_def policy_wf_def intro!: vocabulary_lengths)
  show ?thesis
    unfolding check_state_shape_def
    by (simp add: inner and_then_Inr_iff outer_lengths_ok_def conj_ac)
qed

definition text_ok :: "string list \<Rightarrow> bool" where
  "text_ok vs \<longleftrightarrow> (\<forall>v \<in> set vs. length v \<le> MAX_OPAQUE_UTF8_BYTES) \<and>
     sum_list (map length vs) \<le> MAX_RETAINED_UTF8_BYTES"

lemma fits_text_ok: "(\<exists>b. fits 0 vs b) \<longleftrightarrow> text_ok vs"
  by (auto simp: fits_def text_ok_def)

lemma check_state_Inr_iff:
  assumes "state_wf s"
  shows "check_state s = Inr () \<longleftrightarrow> outer_lengths_ok s \<and> text_ok (retained_strings s)"
proof -
  have "check_state s = Inr () \<longleftrightarrow> check_state_shape s = Inr () \<and> (\<exists>b. retained_text s = Inr b)"
    by (auto simp: check_state_def checked_state_text_def map_ok_Inr_iff and_then_Inr_iff)
  then show ?thesis
    by (simp add: check_state_shape_Inr_iff [OF assms] retained_text_Inr_iff fits_text_ok)
qed

subsection \<open>The errors of the profile\<close>

text \<open>Past the sequence bound, the preflight refuses with \<^const>\<open>CapacityExceeded\<close> only.\<close>

definition only_capacity :: "error_n + 'a \<Rightarrow> bool" where
  "only_capacity r \<longleftrightarrow> r = Inl CapacityExceeded \<or> \<not> isl r"

named_theorems capacity_intros \<open>results whose only error is that of the capacity profile\<close>

lemma only_capacity_results [capacity_intros]:
  "only_capacity (Inr x)" "only_capacity (checked_capacity current addition maximum)"
  by (simp_all add: only_capacity_def checked_capacity_def)

lemma only_capacity_and_then [capacity_intros]:
  "only_capacity r \<Longrightarrow> (\<And>x. only_capacity (f x)) \<Longrightarrow> only_capacity (and_then r f)"
  by (cases r) (auto simp: only_capacity_def)

lemma only_capacity_map_ok [capacity_intros]: "only_capacity r \<Longrightarrow> only_capacity (map_ok f r)"
  by (cases r) (auto simp: only_capacity_def)

lemma only_capacity_for_each [capacity_intros]:
  "(\<And>x acc. only_capacity (body x acc)) \<Longrightarrow> only_capacity (for_each body xs acc)"
  by (induction xs arbitrary: acc) (auto intro: capacity_intros)

lemma only_capacity_check_len [capacity_intros]: "only_capacity (check_len n maximum)"
  unfolding check_len_def by (intro capacity_intros)

lemma only_capacity_text [capacity_intros]:
  "only_capacity (text_add budget v)" "only_capacity (text_add_all vs budget)"
  "only_capacity (check_values vs)" "only_capacity (check_label_key m a)"
  by (auto simp: text_add_def text_add_all_def check_values_def check_label_key_def intro!: capacity_intros)

lemma only_capacity_state_text [capacity_intros]: "only_capacity (checked_state_text s)"
proof -
  have "only_capacity (check_policy_shape p egr)" for p egr
    unfolding check_policy_shape_def by (intro capacity_intros)
  then show ?thesis
    unfolding checked_state_text_def check_state_shape_def retained_text_def
    by (intro capacity_intros) (auto intro!: capacity_intros split: prod.split)
qed

lemma only_capacity_command [capacity_intros]: "only_capacity (check_command c)"
  by (cases c)
    (auto simp: check_policy_def check_cross_input_def check_evidence_def intro!: capacity_intros
      split: option.split)

lemma only_capacity_post_transition [capacity_intros]: "only_capacity (check_post_transition s c budget)"
  by (cases c) (auto simp: check_cross_post_def Let_def intro!: capacity_intros split: option.split)

lemma preflight_errors:
  assumes "preflight s n c = Inl e"
  shows "e = SequenceExhausted \<or> e = CapacityExceeded"
    and "check_sequence n = Inr () \<Longrightarrow> e = CapacityExceeded"
proof -
  let ?rest = "and_then (checked_state_text s) (\<lambda>text. and_then (check_command c)
      (\<lambda>_. map_ok (\<lambda>_. ()) (check_post_transition s c text)))"
  have "only_capacity ?rest" by (intro capacity_intros)
  moreover have "check_sequence n = Inr () \<or> check_sequence n = Inl SequenceExhausted"
    by (simp add: check_sequence_def checked_next_def)
  ultimately show "e = SequenceExhausted \<or> e = CapacityExceeded"
    "check_sequence n = Inr () \<Longrightarrow> e = CapacityExceeded"
    using assms by (auto simp: preflight_def only_capacity_def)
qed

end
