(* ===== verification/Capacity_Growth.thy ===== *)
theory Capacity_Growth
  imports Capacity_Checks
begin

text \<open>
  How much each kernel transition grows the state: the strings it may add to the retained ones,
  counted with multiplicity, and the lengths of its collections.
\<close>

subsection \<open>How the operations of the collections change the counts\<close>

lemma count_concat_map: "count_list (concat (map h es)) x = (\<Sum>e\<leftarrow>es. count_list (h e) x)"
  by (induction es) auto

lemma sum_list_filter_le: "(\<Sum>e\<leftarrow>filter P es. f e) \<le> (\<Sum>e\<leftarrow>es. f e)" for f :: "'a \<Rightarrow> nat"
  by (induction es) auto

lemma vm_find_nth:
  assumes "vm_get m k = Some v"
  shows "vm_find m k < length (entries m)" "entries m ! vm_find m k = (k, v)"
  using assms by (auto simp: vm_get_def Let_def vm_find_less_iff [symmetric] split: if_splits
      intro!: prod_eqI vm_find_key)

lemma map_strings_insert_same:
  assumes "vm_get m k = Some w" "h (k, v) = h (k, w)"
  shows "map_strings h (vm_insert m k v) = map_strings h m"
proof -
  note at = vm_find_nth [OF assms(1)]
  have "k \<in> fst ` set (entries m)" using at vm_find_less_iff [of m k] by simp
  moreover have "map h ((entries m)[vm_find m k := (k, v)]) = map h (entries m)"
    using at assms(2) by (simp add: map_update list_update_same_conv)
  ultimately show ?thesis by (simp add: map_strings_def entries_vm_insert)
qed

lemma map_strings_insert_new:
  "vm_get m k = None \<Longrightarrow> map_strings h (vm_insert m k v) = map_strings h m @ h (k, v)"
  by (simp add: map_strings_def entries_vm_insert flip: dom_vm_get) (simp add: domIff)

lemma count_insert_le:
  "count_list (map_strings h (vm_insert m k v)) x \<le> count_list (map_strings h m) x + count_list (h (k, v)) x"
proof (cases "vm_get m k")
  case None
  then show ?thesis by (simp add: map_strings_insert_new)
next
  case (Some w)
  let ?f = "\<lambda>e. count_list (h e) x"
  note at = vm_find_nth [OF Some]
  have "k \<in> fst ` set (entries m)" using at vm_find_less_iff [of m k] by simp
  moreover have "(\<Sum>e\<leftarrow>(entries m)[vm_find m k := (k, v)]. ?f e) \<le> (\<Sum>e\<leftarrow>entries m. ?f e) + ?f (k, v)"
    using at(1) by (simp add: map_update sum_list_update)
  ultimately show ?thesis by (simp add: map_strings_def entries_vm_insert count_concat_map)
qed

lemma count_remove_le: "count_list (map_strings h (vm_remove m k)) x \<le> count_list (map_strings h m) x"
  by (simp add: map_strings_def entries_vm_remove count_concat_map sum_list_filter_le)

lemma map_strings_key_insert_into:
  "map_strings key_string (vm_insert_into m k x) =
     map_strings key_string m @ (if vm_get m k = None then [agent_str k] else [])"
proof (cases "vm_get m k")
  case None
  then show ?thesis
    by (simp add: vm_insert_into_insert map_strings_insert_new key_string_def)
next
  case (Some w)
  then show ?thesis
    by (simp add: vm_insert_into_insert map_strings_insert_same [OF Some] key_string_def)
qed

lemma count_key_insert_into_le:
  "count_list (map_strings key_string (vm_insert_into m k y)) x \<le>
     count_list (map_strings key_string m) x + count_list [agent_str k] x"
  by (simp add: map_strings_key_insert_into)

lemma count_set_insert:
  "count_list (set_strings h (vs_insert s y)) x =
     count_list (set_strings h s) x + (if y \<in> set (items s) then 0 else count_list [h y] x)"
  by (simp add: set_strings_def items_vs_insert)

lemma count_set_insert_le:
  "count_list (set_strings h (vs_insert s y)) x \<le> count_list (set_strings h s) x + count_list [h y] x"
  by (simp add: count_set_insert)

lemma count_map_filter_le: "count_list (map h (filter P xs)) x \<le> count_list (map h xs) x"
  by (induction xs) auto

lemma count_set_remove_le: "count_list (set_strings h (vs_remove s y)) x \<le> count_list (set_strings h s) x"
  by (simp add: set_strings_def items_vs_remove count_map_filter_le)

text \<open>The rebuilding loops of a well-formed map visit each entry once and in order.\<close>

lemma entries_scan_rebuild:
  assumes "vm_wf m" and f: "\<And>k v acc. f k v acc = (if P k v then vm_insert acc k (g k v) else acc)"
  shows "entries (vm_scan m f vm_new) =
     map (\<lambda>(k, v). (k, g k v)) (filter (\<lambda>(k, v). P k v) (entries m))"
proof -
  have *: "distinct (map fst (entries acc) @ map fst es) \<Longrightarrow>
      entries (fold (\<lambda>(k, v). f k v) es acc) =
        entries acc @ map (\<lambda>(k, v). (k, g k v)) (filter (\<lambda>(k, v). P k v) es)" for es acc
  proof (induction es arbitrary: acc)
    case (Cons e es)
    obtain k v where e: "e = (k, v)" by force
    with Cons.prems have "k \<notin> fst ` set (entries acc)" by auto
    then have "entries (f k v acc) = entries acc @ (if P k v then [(k, g k v)] else [])"
      by (simp add: f entries_vm_insert)
    moreover have "distinct (map fst (entries (f k v acc)) @ map fst es)"
      using Cons.prems e calculation by auto
    ultimately show ?case using Cons.IH [of "f k v acc"] e by simp
  qed simp
  have "vm_scan m f vm_new = fold (\<lambda>(k, v). f k v) (entries m) vm_new"
  proof -
    have "vm_get m k = Some v" if "(k, v) \<in> set (entries m)" for k v
      using assms(1) that by (simp add: vm_get_wf_iff)
    then show ?thesis
      unfolding vm_scan_fold fold_map
      by (intro fold_cong) (auto simp: fun_eq_iff)
  qed
  then show ?thesis using * [of vm_new "entries m"] assms(1) by (simp add: vm_wf_def vm_new_def)
qed

lemma count_scan_le:
  assumes "vm_wf m" "\<And>k v acc. f k v acc = (if P k v then vm_insert acc k (g k v) else acc)"
    and "\<And>k v. P k v \<Longrightarrow> h (k, g k v) = h (k, v)"
  shows "count_list (map_strings h (vm_scan m f vm_new)) x \<le> count_list (map_strings h m) x"
proof -
  have "concat (map h (entries (vm_scan m f vm_new))) = concat (map h (filter (\<lambda>(k, v). P k v) (entries m)))"
    unfolding entries_scan_rebuild [OF assms(1,2)]
    by (intro arg_cong [where f = concat]) (auto simp: assms(3))
  then show ?thesis
    by (simp add: map_strings_def count_concat_map sum_list_filter_le)
qed

lemma len_simps:
  "vm_len (vm_insert m k v) = vm_len m + of_bool (vm_get m k = None)"
  "vm_len (vm_insert_into n k y) = vm_len n + of_bool (vm_get n k = None)"
  "vs_len (vs_insert s x) = vs_len s + of_bool (x \<notin> set (items s))"
  by (auto simp: vm_len_def vs_len_def vm_insert_into_insert entries_vm_insert items_vs_insert
      domIff simp flip: dom_vm_get)

lemma len_remove_le: "vm_len (vm_remove m k) \<le> vm_len m" "vs_len (vs_remove s x) \<le> vs_len s"
  by (simp_all add: vm_len_def vs_len_def entries_vm_remove length_vs_remove_le)

lemma len_scan_le:
  assumes "vm_wf m" "\<And>k v acc. f k v acc = (if P k v then vm_insert acc k (g k v) else acc)"
  shows "vm_len (vm_scan m f vm_new) \<le> vm_len m"
  by (simp add: vm_len_def entries_scan_rebuild [OF assms])

subsection \<open>The helpers of the state\<close>

lemma drop_shrinks:
  assumes "state_wf s"
  shows
    "count_list (map_strings pending_strings (pending (drop_pending_of s a))) x
       \<le> count_list (map_strings pending_strings (pending s)) x"
    "count_list (map_strings challenge_strings (challenges (drop_challenges_of s a))) x
       \<le> count_list (map_strings challenge_strings (challenges s)) x"
    "count_list (map_strings grant_strings (crossing_grants (drop_grants_of s a))) x
       \<le> count_list (map_strings grant_strings (crossing_grants s)) x"
    "vm_len (pending (drop_pending_of s a)) \<le> vm_len (pending s)"
    "vm_len (challenges (drop_challenges_of s a)) \<le> vm_len (challenges s)"
    "vm_len (crossing_grants (drop_grants_of s a)) \<le> vm_len (crossing_grants s)"
  using wf_fields(6,8,13) [OF assms]
  by (auto simp: drop_pending_of_def drop_challenges_of_def drop_grants_of_def
      intro!: count_scan_le [where g = "\<lambda>k v. v"] len_scan_le [where g = "\<lambda>k v. v"])

lemma demote_shrinks:
  assumes "vm_wf (pending s)"
  shows
    "count_list (map_strings pending_strings (pending (demote_all_of s a))) x
       \<le> count_list (map_strings pending_strings (pending s)) x"
    "vm_len (pending (demote_all_of s a)) \<le> vm_len (pending s)"
  using assms
  by (auto simp: demote_all_of_def Let_def pending_strings_def
      intro!: count_scan_le [where P = "\<lambda>k v. True" and
        g = "\<lambda>k j. if pi_agent j = a then j\<lparr>disposition_of := MonitorBypassed\<rparr> else j"]
      len_scan_le [where P = "\<lambda>k v. True" and
        g = "\<lambda>k j. if pi_agent j = a then j\<lparr>disposition_of := MonitorBypassed\<rparr> else j"])

lemma decrement_keeps_keys:
  "map_strings grant_strings (crossing_grants (decrement_grant_at s a d)) =
     map_strings grant_strings (crossing_grants s)"
  "vm_len (crossing_grants (decrement_grant_at s a d)) = vm_len (crossing_grants s)"
  by (auto simp: decrement_grant_at_def Let_def len_simps grant_strings_def map_strings_insert_same
      split: option.split)

text \<open>A batch of labels inserted at one key adds the key once.\<close>

lemma labels_insert_into:
  "map_strings key_string (fold (\<lambda>l m. vm_insert_into m a l) ls m) =
     map_strings key_string m @ (if ls \<noteq> [] \<and> vm_get m a = None then [agent_str a] else [])"
  "vm_len (fold (\<lambda>l m. vm_insert_into m a l) ls m) =
     vm_len m + of_bool (ls \<noteq> [] \<and> vm_get m a = None)"
  by (induction ls arbitrary: m)
    (auto simp: map_strings_key_insert_into len_simps vm_insert_into_insert [THEN arg_cong, of vm_get] vm_get_insert)

subsection \<open>What each transition adds\<close>

fun charged_strings :: "kernel_state \<Rightarrow> command_n \<Rightarrow> string list" where
  "charged_strings s (CmdRegisterTool t) = [t]"
| "charged_strings s (CmdDelegate p c) = [c, c, p]"
| "charged_strings s (CmdGrantCapability p c k) =
     (if vm_get (agent_cap s) (AgentId c) = None then [c] else [])"
| "charged_strings s (CmdGrantCrossing g a d n) = [a, d]"
| "charged_strings s (CmdIngest a src l i) =
     (if vm_get (taint_levels s) (AgentId a) = None then [a] else []) @
     (if vm_get (integ_levels s) (AgentId a) = None then [a] else [])"
| "charged_strings s (CmdBeginInvocation a i ch p egr ah auth) =
     [i, i, a, ch, pn_tool p, pn_policy_digest p, ah]"
| "charged_strings s (CmdAuthorizeInspected i t) =
     [ian_id t, ian_id t] @
       (case vm_get (challenges s) (InvocationId i) of
          Some c \<Rightarrow> [i, agent_str (cs_agent c), tool_str (aps_tool (cs_policy c)),
            policy_str (policy_digest (cs_policy c))]
        | None \<Rightarrow> [])"
| "charged_strings s (CmdSettleInvocation i out r) =
     (case vm_get (pending s) (InvocationId i) of
        Some j \<Rightarrow> [agent_str (pi_agent j), agent_str (pi_agent j)] | None \<Rightarrow> []) @
     (case r of Some t \<Rightarrow> [ran_id t] | None \<Rightarrow> [])"
| "charged_strings s (CmdCrossOutput q) =
     [xn_crossing q, xn_rcv q, xn_rcv q] @ (case xn_evidence q of Some e \<Rightarrow> [can_id e] | None \<Rightarrow> [])"
| "charged_strings s c = []"

lemma fits_single: "text_add b v = Inr b' \<longleftrightarrow> fits b [v] b'"
  by (simp add: fits_Cons)

lemma check_post_charges:
  "check_post_transition s c b = Inr b' \<Longrightarrow> fits b (charged_strings s c) b'"
  by (cases c)
    (auto simp: and_then_Inr_iff text_add_all_Inr_iff fits_single fits_append Let_def
      check_cross_post_def vec_simps split: if_splits option.splits)

definition growth :: "kernel_state \<Rightarrow> kernel_state \<Rightarrow> string list \<Rightarrow> bool" where
  "growth s s' added \<longleftrightarrow>
     (\<forall>x. count_list (retained_strings s') x \<le> count_list (retained_strings s) x + count_list added x)"

lemma growthI:
  assumes "\<And>x.
    count_list (set_strings agent_str (agent_active s')) x + count_list (map_strings edge_strings (agent_parent s')) x +
    count_list (map_strings key_string (agent_cap s')) x + count_list (map_strings key_string (taint_levels s')) x +
    count_list (map_strings key_string (integ_levels s')) x + count_list (map_strings pending_strings (pending s')) x +
    count_list (map_strings challenge_strings (challenges s')) x + count_list (set_strings inv_str (consumed_ids s')) x +
    count_list (set_strings att_str (consumed_attestations s')) x + count_list (set_strings crossing_str (consumed_crossings s')) x +
    count_list (map_strings grant_strings (crossing_grants s')) x + count_list (set_strings tool_str (tool_registered s')) x \<le>
    count_list (set_strings agent_str (agent_active s)) x + count_list (map_strings edge_strings (agent_parent s)) x +
    count_list (map_strings key_string (agent_cap s)) x + count_list (map_strings key_string (taint_levels s)) x +
    count_list (map_strings key_string (integ_levels s)) x + count_list (map_strings pending_strings (pending s)) x +
    count_list (map_strings challenge_strings (challenges s)) x + count_list (set_strings inv_str (consumed_ids s)) x +
    count_list (set_strings att_str (consumed_attestations s)) x + count_list (set_strings crossing_str (consumed_crossings s)) x +
    count_list (map_strings grant_strings (crossing_grants s)) x + count_list (set_strings tool_str (tool_registered s)) x +
    count_list added x"
  shows "growth s s' added"
  using assms by (simp add: growth_def retained_strings_def add.assoc)

lemma growth_clear_agent:
  assumes "state_wf s"
  shows "growth s (clear_agent s a) []" "outer_lengths_ok s \<Longrightarrow> outer_lengths_ok (clear_agent s a)"
proof -
  have p: "pending (drop_pending_of t b) = pending (drop_pending_of u b)" if "pending t = pending u" for t u b
    using that by (simp add: drop_pending_of_def)
  have c: "challenges (drop_challenges_of t b) = challenges (drop_challenges_of u b)" if "challenges t = challenges u" for t u b
    using that by (simp add: drop_challenges_of_def)
  have g: "crossing_grants (drop_grants_of t b) = crossing_grants (drop_grants_of u b)" if "crossing_grants t = crossing_grants u" for t u b
    using that by (simp add: drop_grants_of_def)
  have fields: "agent_active (clear_agent s a) = vs_remove (agent_active s) a"
    "agent_parent (clear_agent s a) = vm_remove (agent_parent s) a"
    "agent_cap (clear_agent s a) = vm_remove (agent_cap s) a"
    "taint_levels (clear_agent s a) = vm_remove (taint_levels s) a"
    "integ_levels (clear_agent s a) = vm_remove (integ_levels s) a"
    "pending (clear_agent s a) = pending (drop_pending_of s a)"
    "challenges (clear_agent s a) = challenges (drop_challenges_of s a)"
    "crossing_grants (clear_agent s a) = crossing_grants (drop_grants_of s a)"
    "consumed_ids (clear_agent s a) = consumed_ids s"
    "consumed_attestations (clear_agent s a) = consumed_attestations s"
    "consumed_crossings (clear_agent s a) = consumed_crossings s"
    "tool_registered (clear_agent s a) = tool_registered s"
    by (auto simp: clear_agent_def Let_def intro: p c g)
  show "growth s (clear_agent s a) []"
    by (rule growthI)
      (auto simp: fields intro!: add_mono count_set_remove_le count_remove_le drop_shrinks [OF assms])
  show "outer_lengths_ok s \<Longrightarrow> outer_lengths_ok (clear_agent s a)"
    unfolding outer_lengths_ok_def fields
    using len_remove_le(2) [of "agent_active s" a] len_remove_le(1) [of "agent_parent s" a]
      len_remove_le(1) [of "agent_cap s" a] len_remove_le(1) [of "taint_levels s" a]
      len_remove_le(1) [of "integ_levels s" a] drop_shrinks(4-6) [OF assms, of a]
    by auto
qed

lemmas growth_facts = count_insert_le count_remove_le count_set_insert_le count_set_remove_le

lemma growth_tools:
  "register_tool s t = Inr (s', act) \<Longrightarrow> growth s s' [tool_str t]"
  "unregister_tool s t = Inr (s', act) \<Longrightarrow> growth s s' []"
  by (auto simp: register_tool_def unregister_tool_def Let_def growth_def retained_strings_def
      count_set_insert count_set_remove_le split: if_splits)

lemma len_insert_le:
  "vm_len (vm_insert m k v) \<le> Suc (vm_len m)" "vs_len (vs_insert s x) \<le> Suc (vs_len s)"
  by (simp_all add: len_simps)

lemma growth_delegate:
  assumes "delegate s bg p c = Inr (s', act)" "state_wf s"
  shows "growth s s' [agent_str c, agent_str c, agent_str p]"
    "outer_lengths_ok s \<Longrightarrow> vs_len (agent_active s) + 1 \<le> MAX_AGENTS \<Longrightarrow>
       vm_len (agent_parent s) + 1 \<le> MAX_PARENT_OR_LABEL_KEYS \<Longrightarrow> outer_lengths_ok s'"
proof -
  let ?kept = "vm_scan (agent_parent s)
    (\<lambda>child q kept. if child \<noteq> c \<and> q \<noteq> c then vm_insert kept child q else kept) vm_new"
  have kept: "count_list (map_strings edge_strings ?kept) x \<le> count_list (map_strings edge_strings (agent_parent s)) x"
    "vm_len ?kept \<le> vm_len (agent_parent s)" for x
    using wf_fields(2) [OF assms(2)]
    by (auto intro!: count_scan_le [where g = "\<lambda>k v. v"] len_scan_le [where g = "\<lambda>k v. v"])
  have fields: "agent_active s' = vs_insert (agent_active s) c"
    "agent_parent s' = vm_insert ?kept c p"
    "agent_cap s' = vm_remove (agent_cap s) c"
    "taint_levels s' = vm_remove (taint_levels s) c"
    "integ_levels s' = vm_remove (integ_levels s) c"
    "pending s' = pending (drop_pending_of s c)"
    "challenges s' = challenges (drop_challenges_of s c)"
    "crossing_grants s' = crossing_grants (drop_grants_of s c)"
    "consumed_ids s' = consumed_ids s" "consumed_attestations s' = consumed_attestations s"
    "consumed_crossings s' = consumed_crossings s" "tool_registered s' = tool_registered s"
    using assms(1)
    by (auto simp: delegate_def Let_def drop_pending_of_def drop_challenges_of_def drop_grants_of_def
        split: if_splits)
  show "growth s s' [agent_str c, agent_str c, agent_str p]"
  proof (rule growthI, unfold fields, goal_cases)
    case (1 x)
    have "count_list [agent_str c, agent_str c, agent_str p] x =
        count_list [agent_str c] x + count_list (edge_strings (c, p)) x"
      by (simp add: edge_strings_def)
    then show ?case
      using kept(1) [of x] count_insert_le [of edge_strings ?kept c p x]
        count_set_insert_le [of agent_str "agent_active s" c x] drop_shrinks(1-3) [OF assms(2), of c x]
        count_remove_le [of key_string "agent_cap s" c x] count_remove_le [of key_string "taint_levels s" c x]
        count_remove_le [of key_string "integ_levels s" c x]
      by linarith
  qed
  show "outer_lengths_ok s \<Longrightarrow> vs_len (agent_active s) + 1 \<le> MAX_AGENTS \<Longrightarrow>
       vm_len (agent_parent s) + 1 \<le> MAX_PARENT_OR_LABEL_KEYS \<Longrightarrow> outer_lengths_ok s'"
    unfolding outer_lengths_ok_def fields
    using kept(2) len_insert_le(1) [of ?kept c p] len_insert_le(2) [of "agent_active s" c]
      len_remove_le(1) [of "agent_cap s" c] len_remove_le(1) [of "taint_levels s" c]
      len_remove_le(1) [of "integ_levels s" c] drop_shrinks(4-6) [OF assms(2), of c]
    by auto
qed

lemma growth_grants:
  "grant_capability s p c k = Inr (s', act) \<Longrightarrow>
     growth s s' (if vm_get (agent_cap s) c = None then [agent_str c] else [])"
  "grant_crossing s bg g a d n = Inr (s', act) \<Longrightarrow> growth s s' [agent_str a, assignment_str d]"
proof -
  assume "grant_capability s p c k = Inr (s', act)"
  then show "growth s s' (if vm_get (agent_cap s) c = None then [agent_str c] else [])"
    by (auto simp: grant_capability_def growth_def retained_strings_def map_strings_key_insert_into
        split: if_splits)
next
  assume "grant_crossing s bg g a d n = Inr (s', act)"
  then have s': "s' = s\<lparr>crossing_grants := vm_insert (crossing_grants s)
      \<lparr>ck_agent = a, ck_assignment = d\<rparr> \<lparr>remaining = n, provisioned = n\<rparr>\<rparr>"
    by (auto simp: grant_crossing_def Let_def split: if_splits)
  show "growth s s' [agent_str a, assignment_str d]"
    using count_insert_le [of grant_strings "crossing_grants s" "\<lparr>ck_agent = a, ck_assignment = d\<rparr>"
        "\<lparr>remaining = n, provisioned = n\<rparr>"]
    unfolding s' by (intro growthI) (simp add: grant_strings_def)
qed

lemma growth_ingest:
  assumes "ingest s bg a src l i = Inr (s', act)" "state_wf s"
  shows "growth s s' ((if vm_get (taint_levels s) a = None then [agent_str a] else []) @
      (if vm_get (integ_levels s) a = None then [agent_str a] else []))"
    "outer_lengths_ok s \<Longrightarrow>
       vm_len (taint_levels s) + of_bool (vm_get (taint_levels s) a = None) \<le> MAX_PARENT_OR_LABEL_KEYS \<Longrightarrow>
       vm_len (integ_levels s) + of_bool (vm_get (integ_levels s) a = None) \<le> MAX_PARENT_OR_LABEL_KEYS \<Longrightarrow>
       outer_lengths_ok s'"
proof -
  let ?s = "s\<lparr>taint_levels := vm_insert_into (taint_levels s) a l,
    integ_levels := vm_insert_into (integ_levels s) a i\<rparr>"
  have s': "s' = ?s \<or> s' = demote_all_of ?s a"
    using assms(1) by (auto simp: ingest_def Let_def split: if_splits)
  have wf: "vm_wf (pending ?s)" using wf_fields(6) [OF assms(2)] by simp
  show "growth s s' ((if vm_get (taint_levels s) a = None then [agent_str a] else []) @
      (if vm_get (integ_levels s) a = None then [agent_str a] else []))"
    using s' demote_shrinks(1) [OF wf, of a]
    by (intro growthI) (auto simp: map_strings_key_insert_into)
  show "outer_lengths_ok s'" if "outer_lengths_ok s"
       "vm_len (taint_levels s) + of_bool (vm_get (taint_levels s) a = None) \<le> MAX_PARENT_OR_LABEL_KEYS"
       "vm_len (integ_levels s) + of_bool (vm_get (integ_levels s) a = None) \<le> MAX_PARENT_OR_LABEL_KEYS"
    using s' demote_shrinks(2) [OF wf, of a] that by (auto simp: outer_lengths_ok_def len_simps)
qed

lemma growth_begin:
  assumes "begin_invocation s bg a ivk ch p egr ah auth = Inr (s', act)"
  shows "growth s s' [inv_str ivk, inv_str ivk, agent_str a, challenge_str ch, tool_str (aps_tool p),
      policy_str (policy_digest p), hash_str ah]"
    "outer_lengths_ok s \<Longrightarrow> vm_len (pending s) + 1 \<le> MAX_PENDING \<Longrightarrow>
       vm_len (challenges s) + 1 \<le> MAX_CHALLENGES \<Longrightarrow> vs_len (consumed_ids s) + 1 \<le> MAX_CONSUMED_IDS \<Longrightarrow>
       outer_lengths_ok s'"
proof -
  consider (pend) d e where "s' = s\<lparr>pending := vm_insert (pending s) ivk
      \<lparr>pi_agent = a, pi_policy = p, pi_egress = egr, admission = d, disposition_of = e,
       pi_authorized = auth, quarantined = False\<rparr>, consumed_ids := vs_insert (consumed_ids s) ivk\<rparr>"
      "d = Plain \<or> d = Bypassed"
    | (chal) "s' = s\<lparr>challenges := vm_insert (challenges s) ivk
      \<lparr>cs_challenge = ch, cs_agent = a, cs_policy = p, cs_egress = egr, cs_args_hash = ah,
       cs_authorized = auth\<rparr>, consumed_ids := vs_insert (consumed_ids s) ivk\<rparr>"
    using assms
    by (auto simp: begin_invocation_def Let_def split: if_splits verdict.splits enforcement_mode.splits)
  note shape = this
  let ?added = "[inv_str ivk, inv_str ivk, agent_str a, challenge_str ch, tool_str (aps_tool p),
      policy_str (policy_digest p), hash_str ah]"
  have consume: "count_list (set_strings inv_str (vs_insert (consumed_ids s) ivk)) x \<le>
      count_list (set_strings inv_str (consumed_ids s)) x + count_list [inv_str ivk] x" for x
    by (rule count_set_insert_le)
  from shape show "growth s s' ?added"
  proof cases
    case pend
    let ?j = "\<lparr>pi_agent = a, pi_policy = p, pi_egress = egr, admission = d, disposition_of = e,
      pi_authorized = auth, quarantined = False\<rparr>"
    have "count_list (pending_strings (ivk, ?j)) x + count_list [inv_str ivk] x \<le> count_list ?added x" for x
      using pend(2) by (auto simp: pending_strings_def)
    note bound = this count_insert_le [of pending_strings "pending s" ivk ?j]
    show ?thesis
      unfolding pend(1)
    proof (rule growthI, goal_cases)
      case (1 x)
      show ?case
        using consume [of x] bound(1) [of x] bound(2) [of x]
        by (simp del: count_list.simps)
    qed
  next
    case chal
    let ?c = "\<lparr>cs_challenge = ch, cs_agent = a, cs_policy = p, cs_egress = egr, cs_args_hash = ah,
      cs_authorized = auth\<rparr>"
    have "count_list (challenge_strings (ivk, ?c)) x + count_list [inv_str ivk] x \<le> count_list ?added x" for x
      by (simp add: challenge_strings_def)
    note bound = this count_insert_le [of challenge_strings "challenges s" ivk ?c]
    show ?thesis
      unfolding chal
    proof (rule growthI, goal_cases)
      case (1 x)
      show ?case
        using consume [of x] bound(1) [of x] bound(2) [of x]
        by (simp del: count_list.simps)
    qed
  qed
  show "outer_lengths_ok s'" if "outer_lengths_ok s" "vm_len (pending s) + 1 \<le> MAX_PENDING"
       "vm_len (challenges s) + 1 \<le> MAX_CHALLENGES" "vs_len (consumed_ids s) + 1 \<le> MAX_CONSUMED_IDS"
    using shape that by cases (auto simp: outer_lengths_ok_def len_simps)
qed

lemma growth_authorize:
  assumes "authorize_inspected s bg ivk ia = Inr (s', act)"
  shows "growth s s' ([att_str (ia_id ia), att_str (ia_id ia)] @
      (case vm_get (challenges s) ivk of
         Some c \<Rightarrow> [inv_str ivk, agent_str (cs_agent c), tool_str (aps_tool (cs_policy c)),
           policy_str (policy_digest (cs_policy c))]
       | None \<Rightarrow> []))"
    "outer_lengths_ok s \<Longrightarrow> vm_len (pending s) + 1 \<le> MAX_PENDING \<Longrightarrow>
       vs_len (consumed_attestations s) + 1 \<le> MAX_CONSUMED_ATTESTATIONS \<Longrightarrow> outer_lengths_ok s'"
proof -
  obtain c where c: "vm_get (challenges s) ivk = Some c"
    using assms by (auto simp: authorize_inspected_def split: option.splits)
  let ?j = "\<lparr>pi_agent = cs_agent c, pi_policy = cs_policy c, pi_egress = cs_egress c,
       admission = Inspected (ia_id ia), disposition_of = Permitted,
       pi_authorized = cs_authorized c, quarantined = False\<rparr>"
  have fields: "agent_active s' = agent_active s" "agent_parent s' = agent_parent s"
    "agent_cap s' = agent_cap s" "taint_levels s' = taint_levels s" "integ_levels s' = integ_levels s"
    "challenges s' = vm_remove (challenges s) ivk" "crossing_grants s' = crossing_grants s"
    "consumed_ids s' = consumed_ids s"
    "consumed_attestations s' = vs_insert (consumed_attestations s) (ia_id ia)"
    "consumed_crossings s' = consumed_crossings s" "tool_registered s' = tool_registered s"
    and J: "pending s' = pending s \<or> pending s' = vm_insert (pending s) ivk ?j"
    using assms c by (auto simp: authorize_inspected_def Let_def split: if_splits)
  have J_count: "count_list (map_strings pending_strings (pending s')) x \<le>
      count_list (map_strings pending_strings (pending s)) x + count_list (pending_strings (ivk, ?j)) x" for x
    using J count_insert_le [of pending_strings "pending s" ivk ?j x] by auto
  have J_len: "vm_len (pending s') \<le> vm_len (pending s) + 1" using J by (auto simp: len_simps)
  show "growth s s' ([att_str (ia_id ia), att_str (ia_id ia)] @
      (case vm_get (challenges s) ivk of
         Some c \<Rightarrow> [inv_str ivk, agent_str (cs_agent c), tool_str (aps_tool (cs_policy c)),
           policy_str (policy_digest (cs_policy c))]
       | None \<Rightarrow> []))"
  proof (rule growthI, unfold fields, goal_cases)
    case (1 x)
    have "count_list ([att_str (ia_id ia), att_str (ia_id ia)] @ [inv_str ivk, agent_str (cs_agent c),
        tool_str (aps_tool (cs_policy c)), policy_str (policy_digest (cs_policy c))]) x =
        count_list (pending_strings (ivk, ?j)) x + count_list [att_str (ia_id ia)] x"
      by (simp add: pending_strings_def)
    then show ?case
      using J_count [of x] count_remove_le [of challenge_strings "challenges s" ivk x]
        count_set_insert_le [of att_str "consumed_attestations s" "ia_id ia" x]
      unfolding c option.case by linarith
  qed
  show "outer_lengths_ok s'" if "outer_lengths_ok s" "vm_len (pending s) + 1 \<le> MAX_PENDING"
       "vs_len (consumed_attestations s) + 1 \<le> MAX_CONSUMED_ATTESTATIONS"
    using that J_len len_remove_le(1) [of "challenges s" ivk] 
    by (auto simp: outer_lengths_ok_def len_simps fields)
qed

lemma growth_settle:
  assumes "settle_invocation s ivk out att = Inr (s', act)" "state_wf s"
    and j: "vm_get (pending s) ivk = Some j"
  shows "growth s s' ([agent_str (pi_agent j), agent_str (pi_agent j)] @
      (case att of Some r \<Rightarrow> [att_str (ra_id r)] | None \<Rightarrow> []))"
    "outer_lengths_ok s \<Longrightarrow>
       (att \<noteq> None \<longrightarrow> vs_len (consumed_attestations s) + 1 \<le> MAX_CONSUMED_ATTESTATIONS) \<Longrightarrow>
       vm_len (taint_levels s) + of_bool (vm_get (taint_levels s) (pi_agent j) = None) \<le> MAX_PARENT_OR_LABEL_KEYS \<Longrightarrow>
       vm_len (integ_levels s) + of_bool (vm_get (integ_levels s) (pi_agent j) = None) \<le> MAX_PARENT_OR_LABEL_KEYS \<Longrightarrow>
       outer_lengths_ok s'"
proof -
  let ?a = "pi_agent j"
  let ?added = "case att of Some r \<Rightarrow> [att_str (ra_id r)] | None \<Rightarrow> []"
  let ?J = "if out = Ambiguous then vm_insert (pending s) ivk (j\<lparr>quarantined := True\<rparr>)
    else vm_remove (pending s) ivk"
  have fields: "agent_active s' = agent_active s" "agent_parent s' = agent_parent s"
    "agent_cap s' = agent_cap s" "challenges s' = challenges s" "crossing_grants s' = crossing_grants s"
    "consumed_ids s' = consumed_ids s" "consumed_crossings s' = consumed_crossings s"
    "tool_registered s' = tool_registered s"
    "taint_levels s' = (if out = Ambiguous then taint_levels s
      else vm_insert_into (taint_levels s) ?a (output_conf (pi_policy j)))"
    "integ_levels s' = (if out = Ambiguous then integ_levels s
      else vm_insert_into (integ_levels s) ?a (output_integ (pi_policy j)))"
    "consumed_attestations s' = (case att of Some r \<Rightarrow> vs_insert (consumed_attestations s) (ra_id r)
      | None \<Rightarrow> consumed_attestations s)"
    and J: "pending s' = ?J \<or> pending s' = pending (demote_all_of (s\<lparr>pending := ?J\<rparr>) ?a)"
    using assms(1) j
    by (auto simp: settle_invocation_def Let_def split: if_splits option.splits)
  have wf: "vm_wf ?J" using wf_fields(6) [OF assms(2)] by (simp add: wf_intros)
  have base: "count_list (map_strings pending_strings ?J) x \<le> count_list (map_strings pending_strings (pending s)) x"
    "vm_len ?J \<le> vm_len (pending s)" for x
    using map_strings_insert_same [OF j, of pending_strings "j\<lparr>quarantined := True\<rparr>"] j
    by (auto simp: pending_strings_def len_simps count_remove_le len_remove_le)
  have J_count: "count_list (map_strings pending_strings (pending s')) x \<le>
      count_list (map_strings pending_strings (pending s)) x" for x
    using J base(1) [of x] demote_shrinks(1) [of "s\<lparr>pending := ?J\<rparr>" ?a x] wf by auto
  have J_len: "vm_len (pending s') \<le> vm_len (pending s)"
    using J base(2) demote_shrinks(2) [of "s\<lparr>pending := ?J\<rparr>" ?a] wf by auto
  show "growth s s' ([agent_str (pi_agent j), agent_str (pi_agent j)] @
      (case att of Some r \<Rightarrow> [att_str (ra_id r)] | None \<Rightarrow> []))"
  proof (rule growthI, goal_cases)
    case (1 x)
    have "count_list (map_strings key_string (taint_levels s')) x \<le>
        count_list (map_strings key_string (taint_levels s)) x + count_list [agent_str ?a] x"
      "count_list (map_strings key_string (integ_levels s')) x \<le>
        count_list (map_strings key_string (integ_levels s)) x + count_list [agent_str ?a] x"
      using count_key_insert_into_le [of "taint_levels s" ?a "output_conf (pi_policy j)" x]
        count_key_insert_into_le [of "integ_levels s" ?a "output_integ (pi_policy j)" x]
      by (simp_all only: fields split: if_splits) simp_all
    moreover have "count_list (set_strings att_str (consumed_attestations s')) x \<le>
        count_list (set_strings att_str (consumed_attestations s)) x +
        count_list (case att of Some r \<Rightarrow> [att_str (ra_id r)] | None \<Rightarrow> []) x"
      using count_set_insert_le [of att_str "consumed_attestations s" _ x]
      by (auto simp: fields split: option.split)
    moreover have "count_list ([agent_str ?a, agent_str ?a] @ ?added) x =
        count_list [agent_str ?a] x + count_list [agent_str ?a] x + count_list ?added x"
      by simp
    ultimately show ?case
      using J_count [of x] unfolding fields(1-8) by linarith
  qed
  show "outer_lengths_ok s'" if "outer_lengths_ok s"
    "att \<noteq> None \<longrightarrow> vs_len (consumed_attestations s) + 1 \<le> MAX_CONSUMED_ATTESTATIONS"
    "vm_len (taint_levels s) + of_bool (vm_get (taint_levels s) (pi_agent j) = None) \<le> MAX_PARENT_OR_LABEL_KEYS"
    "vm_len (integ_levels s) + of_bool (vm_get (integ_levels s) (pi_agent j) = None) \<le> MAX_PARENT_OR_LABEL_KEYS"
    using that J_len by (auto simp: outer_lengths_ok_def len_simps fields split: option.split)
qed

lemma growth_cross:
  assumes "cross_output s bg q = Inr (s', act)" "state_wf s"
  shows "growth s s' ([crossing_str (x_crossing q), agent_str (x_rcv q), agent_str (x_rcv q)] @
      (case x_evidence q of Some e \<Rightarrow> [att_str (ca_id e)] | None \<Rightarrow> []))"
    "outer_lengths_ok s \<Longrightarrow> vs_len (consumed_crossings s) + 1 \<le> MAX_CONSUMED_CROSSINGS \<Longrightarrow>
       (x_evidence q \<noteq> None \<longrightarrow> vs_len (consumed_attestations s) + 1 \<le> MAX_CONSUMED_ATTESTATIONS) \<Longrightarrow>
       vm_len (taint_levels s) + of_bool (vm_get (taint_levels s) (x_rcv q) = None) \<le> MAX_PARENT_OR_LABEL_KEYS \<Longrightarrow>
       vm_len (integ_levels s) + of_bool (vm_get (integ_levels s) (x_rcv q) = None) \<le> MAX_PARENT_OR_LABEL_KEYS \<Longrightarrow>
       outer_lengths_ok s'"
proof -
  let ?a = "x_rcv q"
  let ?R = "release_labels s q (select_branch s q)"
  let ?added = "case x_evidence q of Some e \<Rightarrow> [att_str (ca_id e)] | None \<Rightarrow> []"
  obtain ls li where R: "?R = s\<lparr>taint_levels := fold (\<lambda>l m. vm_insert_into m ?a l) ls (taint_levels s),
      integ_levels := fold (\<lambda>l m. vm_insert_into m ?a l) li (integ_levels s)\<rparr>"
    by (simp add: release_labels_fields)
  have fields: "agent_active s' = agent_active s" "agent_parent s' = agent_parent s"
    "agent_cap s' = agent_cap s" "challenges s' = challenges s"
    "consumed_ids s' = consumed_ids s" "tool_registered s' = tool_registered s"
    "taint_levels s' = fold (\<lambda>l m. vm_insert_into m ?a l) ls (taint_levels s)"
    "integ_levels s' = fold (\<lambda>l m. vm_insert_into m ?a l) li (integ_levels s)"
    "consumed_crossings s' = vs_insert (consumed_crossings s) (x_crossing q)"
    "map_strings grant_strings (crossing_grants s') = map_strings grant_strings (crossing_grants s)"
    "vm_len (crossing_grants s') = vm_len (crossing_grants s)"
    and A: "consumed_attestations s' = consumed_attestations s \<or>
      (\<exists>e. x_evidence q = Some e \<and> consumed_attestations s' = vs_insert (consumed_attestations s) (ca_id e))"
    using assms(1)
    by (auto simp: cross_output_def Let_def R decrement_grant_at_def len_simps grant_strings_def map_strings_insert_same
        split: if_splits option.splits)
  have J: "pending s' = pending s \<or> pending s' = pending (demote_all_of s ?a)"
    using assms(1)
    by (auto simp: cross_output_def Let_def R decrement_grant_at_def demote_all_of_def
        split: if_splits option.splits)
  have wf: "vm_wf (pending s)" by (rule wf_fields(6) [OF assms(2)])
  have J_count: "count_list (map_strings pending_strings (pending s')) x \<le>
      count_list (map_strings pending_strings (pending s)) x" for x
    using J demote_shrinks(1) [OF wf, of ?a x] by auto
  have J_len: "vm_len (pending s') \<le> vm_len (pending s)"
    using J demote_shrinks(2) [OF wf, of ?a] by auto
  show "growth s s' ([crossing_str (x_crossing q), agent_str ?a, agent_str ?a] @ ?added)"
  proof (rule growthI, goal_cases)
    case (1 x)
    have "count_list (map_strings key_string (taint_levels s')) x \<le>
        count_list (map_strings key_string (taint_levels s)) x + count_list [agent_str ?a] x"
      "count_list (map_strings key_string (integ_levels s')) x \<le>
        count_list (map_strings key_string (integ_levels s)) x + count_list [agent_str ?a] x"
      by (simp_all only: fields labels_insert_into count_list_append) simp_all
    moreover have "count_list (set_strings att_str (consumed_attestations s')) x \<le>
        count_list (set_strings att_str (consumed_attestations s)) x + count_list ?added x"
      using A count_set_insert_le [of att_str "consumed_attestations s" _ x] by auto
    moreover have "count_list ([crossing_str (x_crossing q), agent_str ?a, agent_str ?a] @ ?added) x =
        count_list [crossing_str (x_crossing q)] x + count_list [agent_str ?a] x +
        count_list [agent_str ?a] x + count_list ?added x"
      by simp
    ultimately show ?case
      using J_count [of x] count_set_insert_le [of crossing_str "consumed_crossings s" "x_crossing q" x]
      unfolding fields(1-6,9,10) by linarith
  qed
  show "outer_lengths_ok s'" if "outer_lengths_ok s" "vs_len (consumed_crossings s) + 1 \<le> MAX_CONSUMED_CROSSINGS"
    "x_evidence q \<noteq> None \<longrightarrow> vs_len (consumed_attestations s) + 1 \<le> MAX_CONSUMED_ATTESTATIONS"
    "vm_len (taint_levels s) + of_bool (vm_get (taint_levels s) ?a = None) \<le> MAX_PARENT_OR_LABEL_KEYS"
    "vm_len (integ_levels s) + of_bool (vm_get (integ_levels s) ?a = None) \<le> MAX_PARENT_OR_LABEL_KEYS"
    using that J_len A by (auto simp: outer_lengths_ok_def len_simps fields labels_insert_into)
qed

subsection \<open>Closure\<close>

lemma growth_text_ok:
  assumes "growth s s' added" "text_ok (retained_strings s @ added)"
  shows "text_ok (retained_strings s')"
proof -
  have "mset (retained_strings s') \<subseteq># mset (retained_strings s @ added)"
    using assms(1) by (simp add: growth_def subseteq_mset_def count_mset count_list_eq_length_filter)
  then obtain C where C: "mset (retained_strings s @ added) = mset (retained_strings s') + C"
    by (auto simp: mset_subset_eq_exists_conv)
  have "set (retained_strings s') \<subseteq> set (retained_strings s @ added)"
    using arg_cong [OF C, of set_mset] by auto
  moreover have "sum_list (map length vs) = sum_mset (image_mset length (mset vs))" for vs :: "string list"
    by (simp flip: mset_map sum_mset_sum_list)
  then have "sum_list (map length (retained_strings s')) \<le> sum_list (map length (retained_strings s @ added))"
    by (simp only: C image_mset_union sum_mset.union le_add1)
  ultimately show ?thesis using assms(2) by (auto simp: text_ok_def)
qed

end
