(* ===== verification/Capacity_Closure.thy ===== *)
theory Capacity_Closure
  imports Capacity_Growth
begin

text \<open>
  The capacity profile is closed under transitions: if \<open>preflight\<close> admits a command and the kernel
  accepts it, the next state passes \<open>check_state\<close>, since each transition adds at most the strings
  and entries that the preflight has charged.
\<close>

lemma command_growth:
  assumes "command_transition c s bg = Inr (s', act)" "state_wf s"
  shows "growth s s' (charged_strings s c)"
proof (cases c)
  case (CmdRegisterTool t)
  then show ?thesis using assms growth_tools(1) by fastforce
next
  case (CmdUnregisterTool t)
  then show ?thesis using assms growth_tools(2) by fastforce
next
  case (CmdDelegate p a)
  then show ?thesis using assms growth_delegate(1) by fastforce
next
  case (CmdGrantCapability p a k)
  then show ?thesis using assms growth_grants(1) [of s "AgentId p" "AgentId a" "cap_into_kernel k" s' act] by (auto split: if_splits)
next
  case (CmdGrantCrossing g a d n)
  then show ?thesis using assms growth_grants(2) by fastforce
next
  case (CmdRevoke p a)
  then show ?thesis using assms growth_clear_agent(1) by (auto simp: revoke_def split: if_splits)
next
  case (CmdCascadeRevoke a p)
  then show ?thesis using assms growth_clear_agent(1) by (auto simp: cascade_revoke_def split: if_splits)
next
  case (CmdIngest a src l i)
  then show ?thesis using assms growth_ingest(1) [of s bg "AgentId a" "map_option AgentId src" "conf_into_kernel l"
        "integ_into_kernel i" s' act] by (auto split: if_splits)
next
  case (CmdBeginInvocation a i ch p egr ah auth)
  then show ?thesis
    using growth_begin(1) [OF assms(1) [unfolded CmdBeginInvocation command_transition.simps]]
    by (simp add: policy_into_kernel_def)
next
  case (CmdAuthorizeInspected i t)
  then show ?thesis
    using growth_authorize(1) [OF assms(1) [unfolded CmdAuthorizeInspected command_transition.simps]]
    by (auto simp: inspection_into_kernel_def split: option.splits)
next
  case (CmdSettleInvocation i out r)
  then obtain j where "vm_get (pending s) (InvocationId i) = Some j"
    using assms(1) by (auto simp: settle_invocation_def split: option.splits)
  then show ?thesis
    using growth_settle(1) [OF assms(1) [unfolded CmdSettleInvocation command_transition.simps] assms(2)]
      CmdSettleInvocation
    by (auto simp: resolution_into_kernel_def split: option.splits)
next
  case (CmdCrossOutput q)
  then show ?thesis
    using growth_cross(1) [OF assms(1) [unfolded CmdCrossOutput command_transition.simps] assms(2)]
    by (auto simp: cross_into_kernel_def conformance_into_kernel_def split: option.splits)
qed

lemma check_label_key_Inr_iff:
  "check_label_key m a = Inr u \<longleftrightarrow> vm_len m + of_bool (vm_get m a = None) \<le> MAX_PARENT_OR_LABEL_KEYS"
  by (auto simp: check_label_key_def map_ok_Inr_iff checked_capacity_Inr_iff vec_simps limit_defs)

lemma checked_capacity_le: "checked_capacity n k m = Inr t \<Longrightarrow> n + k \<le> m"
  by (auto simp: checked_capacity_Inr_iff)

lemma command_lengths:
  assumes "command_transition c s bg = Inr (s', act)" "state_wf s" "outer_lengths_ok s"
    and "check_post_transition s c b = Inr b'"
  shows "outer_lengths_ok s'"
proof (cases c)
  case (CmdRegisterTool t)
  then show ?thesis
    using assms
    by (auto simp: register_tool_def outer_lengths_ok_def len_simps and_then_Inr_iff
        checked_capacity_Inr_iff split: if_splits)
next
  case (CmdUnregisterTool t)
  then show ?thesis
    using assms len_remove_le(2) [of "tool_registered s" "ToolId t"]
    by (auto simp: unregister_tool_def Let_def outer_lengths_ok_def split: if_splits)
next
  case (CmdDelegate p a)
  then show ?thesis
    using assms growth_delegate(2) [of s bg "AgentId p" "AgentId a" s' act]
    by (auto simp: and_then_Inr_iff dest!: checked_capacity_le)
next
  case (CmdGrantCapability p a k)
  then show ?thesis
    using assms
    by (auto simp: grant_capability_def outer_lengths_ok_def len_simps and_then_Inr_iff Let_def
        vec_simps dest!: checked_capacity_le split: if_splits)
next
  case (CmdGrantCrossing g a d n)
  then show ?thesis
    using assms
    by (auto simp: grant_crossing_def outer_lengths_ok_def len_simps and_then_Inr_iff Let_def
        dest!: checked_capacity_le split: if_splits)
next
  case (CmdRevoke p a)
  then show ?thesis using assms growth_clear_agent(2) by (auto simp: revoke_def split: if_splits)
next
  case (CmdCascadeRevoke a p)
  then show ?thesis using assms growth_clear_agent(2) by (auto simp: cascade_revoke_def split: if_splits)
next
  case (CmdIngest a src l i)
  then have "vm_len (taint_levels s) + of_bool (vm_get (taint_levels s) (AgentId a) = None) \<le> MAX_PARENT_OR_LABEL_KEYS"
    "vm_len (integ_levels s) + of_bool (vm_get (integ_levels s) (AgentId a) = None) \<le> MAX_PARENT_OR_LABEL_KEYS"
    using assms(4)
    by (auto simp: and_then_Inr_iff Let_def vec_simps dest!: checked_capacity_le split: if_splits)
  then show ?thesis
    using assms growth_ingest(2) [of s bg "AgentId a"] CmdIngest by simp
next
  case (CmdBeginInvocation a i ch p egr ah auth)
  then show ?thesis
    using assms(3,4) growth_begin(2) [OF assms(1) [unfolded CmdBeginInvocation command_transition.simps]]
    by (auto simp: and_then_Inr_iff dest!: checked_capacity_le)
next
  case (CmdAuthorizeInspected i t)
  then show ?thesis
    using assms(3,4) growth_authorize(2) [OF assms(1) [unfolded CmdAuthorizeInspected command_transition.simps]]
    by (auto simp: and_then_Inr_iff dest!: checked_capacity_le)
next
  case (CmdSettleInvocation i out r)
  then obtain j where "vm_get (pending s) (InvocationId i) = Some j"
    using assms(1) by (auto simp: settle_invocation_def split: option.splits)
  then show ?thesis
    using assms(3,4) CmdSettleInvocation
      growth_settle(2) [OF assms(1) [unfolded CmdSettleInvocation command_transition.simps] assms(2)]
    by (auto simp: and_then_Inr_iff check_label_key_Inr_iff dest!: checked_capacity_le split: if_splits)
next
  case (CmdCrossOutput q)
  then show ?thesis
    using assms(3,4) growth_cross(2) [OF assms(1) [unfolded CmdCrossOutput command_transition.simps] assms(2)]
    by (auto simp: and_then_Inr_iff check_label_key_Inr_iff check_cross_post_def Let_def
        cross_into_kernel_def dest!: checked_capacity_le split: if_splits)
qed

lemma preflight_keeps_capacity:
  assumes "preflight s sequence c = Inr u" "command_transition c s bg = Inr (s', act)" "state_wf s"
  shows "check_state s' = Inr ()"
proof -
  obtain b b' where b: "check_state_shape s = Inr ()" "retained_text s = Inr b"
    "check_post_transition s c b = Inr b'"
    using assms(1) by (auto simp: preflight_def and_then_Inr_iff map_ok_Inr_iff checked_state_text_def)
  have "fits 0 (retained_strings s @ charged_strings s c) b'"
    using b check_post_charges by (auto simp: retained_text_Inr_iff fits_append)
  then have "text_ok (retained_strings s')"
    using growth_text_ok [OF command_growth [OF assms(2,3)]] by (auto simp flip: fits_text_ok)
  moreover have "outer_lengths_ok s'"
    using command_lengths [OF assms(2,3) _ b(3)] b(1) check_state_shape_Inr_iff [OF assms(3)] by simp
  ultimately show ?thesis
    using check_state_Inr_iff command_transition_wf [OF assms(2,3)] by simp
qed

subsection \<open>A receiver that holds every confidentiality level\<close>

text \<open>
  Filling the label set of a receiver that has one changes no key, so the state stays within the
  profile, and a crossing adds no label to it; still the preflight charges one.
\<close>

lemma full_receiver_no_label:
  assumes "cross_output s bg q = Inr (s', act)" "vm_elems (taint_levels s) (x_rcv q) = UNIV"
  shows "vm_elems (taint_levels s') = vm_elems (taint_levels s)"
proof -
  have "spec_cross bg q (abs_state s) = Inr (abs_state s', act)"
    using assms(1) cross_refines [of s bg q] by simp
  then have "taint (abs_state s') = taint (abs_state s)"
    using assms(2)
    by (auto simp: spec_cross_def guarded_Inr_iff Let_def add_labels_def demote_all_def fun_eq_iff)
  then show ?thesis by simp
qed

lemma full_receiver_charged:
  assumes "vm_get (taint_levels s) (AgentId (xn_rcv q)) = Some levels" "MAX_CONF_LEVELS \<le> vs_len levels"
  shows "check_post_transition s (CmdCrossOutput q) budget \<noteq> Inr t"
proof -
  have "\<not> len_or_zero (Some levels) + cross_addition src (Some levels) \<le> MAX_CONF_LEVELS"
    for src :: "conf_level vec_set option"
  proof -
    have "1 \<le> cross_addition src (Some levels)" by (simp add: cross_addition_def split: option.split)
    with assms(2) show ?thesis by (simp add: len_or_zero_def)
  qed
  then show ?thesis
    using assms(1) by (auto simp: check_cross_post_def Let_def and_then_Inr_iff checked_capacity_Inr_iff)
qed

lemma full_receiver_within_profile:
  assumes pre: "preflight s sequence (CmdCrossOutput q) = Inr u" and wf: "state_wf s" "vs_wf levels"
    and held: "vm_get (taint_levels s) (AgentId (xn_rcv q)) = Some held"
    and full: "full = s\<lparr>taint_levels := vm_insert (taint_levels s) (AgentId (xn_rcv q)) levels\<rparr>"
    and step: "command_transition (CmdCrossOutput q) full bg = Inr (s', act)"
  shows "check_state s' = Inr ()"
proof -
  obtain b b' where b: "check_state_shape s = Inr ()" "retained_text s = Inr b"
    "check_post_transition s (CmdCrossOutput q) b = Inr b'"
    using pre by (auto simp: preflight_def and_then_Inr_iff map_ok_Inr_iff checked_state_text_def)
  have wf': "state_wf full"
    using wf by (simp add: full state_wf_def vm_sets_wf_insert)
  have "retained_strings full = retained_strings s"
    by (simp add: retained_strings_def full map_strings_insert_same [OF held] key_string_def)
  moreover have "fits 0 (retained_strings s @ charged_strings s (CmdCrossOutput q)) b'"
    using b(2) check_post_charges [OF b(3)] unfolding retained_text_Inr_iff fits_append by blast
  ultimately have "text_ok (retained_strings full @ charged_strings full (CmdCrossOutput q))"
    unfolding fits_text_ok [symmetric] by auto
  from growth_text_ok [OF command_growth [OF step wf'] this] have "text_ok (retained_strings s')" .
  moreover have "outer_lengths_ok full"
    using b(1) held check_state_shape_Inr_iff [OF wf(1)] by (simp add: full outer_lengths_ok_def len_simps)
  then have "outer_lengths_ok s'"
    using growth_cross(2) [OF step [unfolded command_transition.simps] wf'] b(3) held
    by (auto simp: and_then_Inr_iff check_label_key_Inr_iff check_cross_post_def Let_def full vec_simps
        len_simps cross_into_kernel_def outer_lengths_ok_def dest!: checked_capacity_le split: if_splits)
  ultimately show ?thesis
    using check_state_Inr_iff command_transition_wf [OF step wf'] by simp
qed

end
