(* ===== verification/Canonical_Bytes.thy ===== *)
theory Canonical_Bytes
  imports Command_Dispatch
begin

text \<open>
  The \<open>Transcript\<close> writer of \<open>argus_nif/src/chain.rs\<close>. Both sinks, the byte vector and the
  incremental hash, receive the same writes, so a writer is modelled by the bytes it appends.
  Encoders are self-delimiting: whatever follows, an encoding can be split off in one way. The
  locale \<open>canonical_code\<close> states this and lifts it to the writer's options and lists.
\<close>

named_theorems code_simps \<open>how self-delimiting encodings split off a byte sequence\<close>

text \<open>\<open>to_be_bytes\<close> of a machine word, most significant byte first.\<close>

definition to_be_bytes :: "'a::len word \<Rightarrow> byte list" where
  "to_be_bytes w = map (\<lambda>i. ucast (drop_bit (8 * i) w)) (rev [0..<LENGTH('a) div 8])"

definition tr_u8 :: "byte \<Rightarrow> byte list" where
  "tr_u8 value = [value]"

definition tr_u32 :: "u32 \<Rightarrow> byte list" where
  "tr_u32 value = to_be_bytes value"

definition tr_u64 :: "u64 \<Rightarrow> byte list" where
  "tr_u64 value = to_be_bytes value"

text \<open>\<open>as_bytes\<close>: a character of the model is one byte of the string's UTF-8 form.\<close>

definition as_bytes :: "string \<Rightarrow> byte list" where
  "as_bytes value = map of_char value"

text \<open>\<open>value.len() as u32\<close> truncates.\<close>

definition tr_string :: "string \<Rightarrow> byte list" where
  "tr_string value = tr_u32 (of_nat (length value)) @ as_bytes value"

definition tr_list :: "('a \<Rightarrow> byte list) \<Rightarrow> 'a list \<Rightarrow> byte list" where
  "tr_list write values = tr_u32 (of_nat (length values)) @ concat (map write values)"

fun dedup_by_key :: "('a \<Rightarrow> 'k) \<Rightarrow> 'a list \<Rightarrow> 'a list" where
  "dedup_by_key f (x # y # xs) =
     (if f x = f y then dedup_by_key f (x # xs) else x # dedup_by_key f (y # xs))"
| "dedup_by_key f xs = xs"

text \<open>The normal form of a set list: by ascending tag, each tag once.\<close>

definition canonical_order :: "('a \<Rightarrow> byte) \<Rightarrow> 'a list \<Rightarrow> 'a list" where
  "canonical_order tag values = dedup_by_key tag (sort_key tag values)"

definition canonical_set :: "('a \<Rightarrow> byte) \<Rightarrow> 'a list \<Rightarrow> byte list" where
  "canonical_set tag values = tr_list (\<lambda>value. tr_u8 (tag value)) (canonical_order tag values)"

definition tr_bool :: "bool \<Rightarrow> byte list" where
  "tr_bool b = tr_u8 (if b then 1 else 0)"

definition tr_option :: "('a \<Rightarrow> byte list) \<Rightarrow> 'a option \<Rightarrow> byte list" where
  "tr_option write value = (case value of Some x \<Rightarrow> tr_u8 1 @ write x | None \<Rightarrow> tr_u8 0)"

subsection \<open>Fixed-width parts\<close>

lemma length_to_be_bytes [simp]: "length (to_be_bytes (w :: 'a::len word)) = LENGTH('a) div 8"
  by (simp add: to_be_bytes_def)

lemma bit_of_byte:
  "i < 8 \<Longrightarrow> bit (ucast (drop_bit (8 * k) w) :: byte) i = bit w (8 * k + i)" for w :: "'a::len word"
  by (simp add: bit_ucast_iff bit_drop_bit_eq)

lemma to_be_bytes_inject:
  fixes v w :: "'a::len word"
  assumes "LENGTH('a) mod 8 = 0"
  shows "to_be_bytes v = to_be_bytes w \<longleftrightarrow> v = w"
proof
  assume eq: "to_be_bytes v = to_be_bytes w"
  show "v = w"
  proof (rule bit_word_eqI)
    fix n assume n: "n < LENGTH('a)"
    then have "n div 8 < LENGTH('a) div 8" using assms by auto
    then have "(ucast (drop_bit (8 * (n div 8)) v) :: byte) = ucast (drop_bit (8 * (n div 8)) w)"
      using eq by (simp add: to_be_bytes_def)
    then show "bit v n = bit w n"
      using bit_of_byte [of "n mod 8" "n div 8" v] bit_of_byte [of "n mod 8" "n div 8" w] by simp
  qed
qed simp

lemma tr_u8_code [code_simps]: "tr_u8 a @ r = tr_u8 b @ s \<longleftrightarrow> a = b \<and> r = s"
  by (simp add: tr_u8_def)

lemma tr_u32_code [code_simps]: "tr_u32 a @ r = tr_u32 b @ s \<longleftrightarrow> a = b \<and> r = s"
  by (auto simp: tr_u32_def to_be_bytes_inject)

lemma tr_u64_code [code_simps]: "tr_u64 a @ r = tr_u64 b @ s \<longleftrightarrow> a = b \<and> r = s"
  by (auto simp: tr_u64_def to_be_bytes_inject)

lemma tr_bool_code [code_simps]: "tr_bool a @ r = tr_bool b @ s \<longleftrightarrow> a = b \<and> r = s"
  by (auto simp: tr_bool_def code_simps)

lemma as_bytes_inject: "as_bytes a = as_bytes b \<longleftrightarrow> a = b"
proof -
  have "of_char c = (of_char d :: byte) \<longleftrightarrow> c = d" for c d :: char
  proof -
    have "unat (of_char c :: byte) = of_char c" for c :: char
    proof -
      have "unat (of_nat (of_char c) :: byte) = of_char c"
        by (rule of_nat_inverse) (use nat_of_char_less_256 [of c] in simp_all)
      then show ?thesis by (simp only: of_nat_of_char)
    qed
    then show ?thesis by (metis of_char_eq_iff)
  qed
  then show ?thesis
    unfolding as_bytes_def by (simp add: inj_map_eq_map inj_def)
qed

subsection \<open>Strings, sets, and the lifted encoders\<close>

definition u32_length :: "'a list \<Rightarrow> bool" where
  "u32_length xs \<longleftrightarrow> length xs < 2 ^ 32"

lemma u32_of_length_inject:
  fixes xs ys :: "'a list"
  assumes "u32_length xs" "u32_length ys"
  shows "(of_nat (length xs) :: u32) = of_nat (length ys) \<longleftrightarrow> length xs = length ys"
proof -
  have "unat (of_nat (length zs) :: u32) = length zs" if "u32_length zs" for zs :: "'a list"
    by (rule of_nat_inverse) (use that in \<open>simp_all add: u32_length_def\<close>)
  then show ?thesis using assms by metis
qed

lemma tr_string_code [code_simps]:
  assumes "u32_length a" "u32_length b"
  shows "tr_string a @ r = tr_string b @ s \<longleftrightarrow> a = b \<and> r = s"
proof
  assume "tr_string a @ r = tr_string b @ s"
  then have len: "length a = length b" and "as_bytes a @ r = as_bytes b @ s"
    using assms by (auto simp: tr_string_def code_simps u32_of_length_inject)
  then show "a = b \<and> r = s"
    using as_bytes_inject [of a b] by (auto simp: as_bytes_def)
qed simp

text \<open>Tags are injective, so the normal form is a function of the set of listed values.\<close>

lemma set_dedup_by_key: "inj_on f (set xs) \<Longrightarrow> set (dedup_by_key f xs) = set xs"
  by (induction f xs rule: dedup_by_key.induct) (auto simp: inj_on_def)

lemma dedup_by_key_sorted:
  "sorted (map f xs) \<Longrightarrow> sorted_wrt (<) (map f (dedup_by_key f xs))"
proof (induction f xs rule: dedup_by_key.induct)
  case (1 f x y xs)
  have sub: "set (dedup_by_key f zs) \<subseteq> set zs" for zs
    by (induction f zs rule: dedup_by_key.induct) auto
  show ?case
  proof (cases "f x = f y")
    case True
    then show ?thesis using 1 by simp
  next
    case False
    with "1.prems" have "\<forall>z \<in> set (y # xs). f x < f z" by auto
    with False 1 sub [of "y # xs"] show ?thesis by auto
  qed
qed simp_all

lemma canonical_order_props:
  assumes "inj tag"
  shows "set (canonical_order tag xs) = set xs"
    and "sorted_wrt (<) (map tag (canonical_order tag xs))"
  using assms
  by (simp_all add: canonical_order_def set_dedup_by_key inj_on_subset dedup_by_key_sorted)

lemma canonical_order_cong:
  assumes "inj tag"
  shows "canonical_order tag xs = canonical_order tag ys \<longleftrightarrow> set xs = set ys"
proof
  assume "set xs = set ys"
  then have "set (map tag (canonical_order tag xs)) = set (map tag (canonical_order tag ys))"
    using canonical_order_props(1) [OF assms] by simp
  then have "map tag (canonical_order tag xs) = map tag (canonical_order tag ys)"
    using canonical_order_props(2) [OF assms] by (metis strict_sorted_equal)
  then show "canonical_order tag xs = canonical_order tag ys"
    using assms by (simp add: inj_map_eq_map)
qed (metis canonical_order_props(1) [OF assms])

lemma distinct_canonical_order: "inj tag \<Longrightarrow> distinct (canonical_order tag xs)"
  using canonical_order_props(2) [of tag xs]
  by (metis distinct_map strict_sorted_iff)

locale canonical_code =
  fixes enc :: "'a \<Rightarrow> byte list" and ok :: "'a \<Rightarrow> bool" and view :: "'a \<Rightarrow> 'b"
  assumes splits: "ok x \<Longrightarrow> ok y \<Longrightarrow> enc x @ r = enc y @ s \<longleftrightarrow> view x = view y \<and> r = s"
begin

lemma enc_inject: "ok x \<Longrightarrow> ok y \<Longrightarrow> enc x = enc y \<longleftrightarrow> view x = view y"
  using splits [of x y "[]" "[]"] by simp

lemma option_splits:
  assumes "\<forall>z \<in> set_option x. ok z" "\<forall>z \<in> set_option y. ok z"
  shows "tr_option enc x @ r = tr_option enc y @ s \<longleftrightarrow> map_option view x = map_option view y \<and> r = s"
  using assms by (cases x; cases y) (auto simp: tr_option_def code_simps splits)

lemma concat_splits:
  assumes "length xs = length ys" "\<forall>z \<in> set xs. ok z" "\<forall>z \<in> set ys. ok z"
  shows "concat (map enc xs) @ r = concat (map enc ys) @ s \<longleftrightarrow> map view xs = map view ys \<and> r = s"
  using assms by (induction xs ys rule: list_induct2) (auto simp: splits)

lemma list_splits:
  assumes "u32_length xs" "u32_length ys" "\<forall>z \<in> set xs. ok z" "\<forall>z \<in> set ys. ok z"
  shows "tr_list enc xs @ r = tr_list enc ys @ s \<longleftrightarrow> map view xs = map view ys \<and> r = s"
proof (cases "length xs = length ys")
  case True
  then show ?thesis using assms by (simp add: tr_list_def code_simps concat_splits)
next
  case False
  then have "map view xs \<noteq> map view ys" by (metis length_map)
  with False show ?thesis using assms by (simp add: tr_list_def code_simps u32_of_length_inject)
qed

end

interpretation code_string: canonical_code tr_string u32_length "\<lambda>x. x"
  by unfold_locales (rule tr_string_code)

text \<open>A tag is one byte; the sets of a vocabulary are written through their tags.\<close>

lemma tag_code: "inj tag \<Longrightarrow> canonical_code (\<lambda>x. tr_u8 (tag x)) (\<lambda>_. True) (\<lambda>x. x)"
  by unfold_locales (auto simp: code_simps inj_def)

lemma canonical_set_code:
  assumes "inj tag"
  shows "canonical_set tag xs @ r = canonical_set tag ys @ s \<longleftrightarrow> set xs = set ys \<and> r = s"
proof -
  have "u32_length (canonical_order tag zs)" for zs
  proof -
    have "length (canonical_order tag zs) = card (tag ` set zs)"
      using canonical_order_props(1) [OF assms, of zs] distinct_canonical_order [OF assms, of zs] assms
      by (metis card_image distinct_card inj_on_subset subset_UNIV)
    also have "\<dots> \<le> card (UNIV :: byte set)" by (rule card_mono) simp_all
    also have "\<dots> = 256" by (simp add: card_word)
    finally show ?thesis by (simp add: u32_length_def)
  qed
  then show ?thesis
    using canonical_code.list_splits [OF tag_code [OF assms]] canonical_order_cong [OF assms]
    by (simp add: canonical_set_def)
qed

end
