(* ===== verification/Chain_Transcript.thy ===== *)
theory Chain_Transcript
  imports Canonical_Bytes
begin

text \<open>
  The canonical transcripts of \<open>argus_nif/src/chain.rs\<close>: a tag byte per variant, the fields of
  each struct in their fixed order, and the genesis and link transcripts that are hashed into the
  chain. SHA-256 is third-party code: \<open>sha256\<close> is an argument, applied to the whole transcript,
  which is what the incremental sink computes.
\<close>

definition VERSION :: u32 where
  "VERSION = 5"

subsection \<open>Tags\<close>

fun conf_tag :: "conf_level_n \<Rightarrow> byte" where
  "conf_tag PublicN = 0"
| "conf_tag InternalN = 1"
| "conf_tag SensitiveN = 2"
| "conf_tag RestrictedN = 3"

fun integ_tag :: "integ_level_n \<Rightarrow> byte" where
  "integ_tag UntrustedN = 0"
| "integ_tag StandardN = 1"
| "integ_tag TrustedN = 2"
| "integ_tag AttestedN = 3"

fun egress_tag :: "egress_kind_n \<Rightarrow> byte" where
  "egress_tag NEgNetworkExternal = 0"
| "egress_tag NEgNetworkInternal = 1"
| "egress_tag NEgFilesystemWrite = 2"
| "egress_tag NEgIpc = 3"

fun cap_tag :: "cap_kind_n \<Rightarrow> byte" where
  "cap_tag NCapFilesystemRead = 0"
| "cap_tag NCapFilesystemWrite = 1"
| "cap_tag NCapFilesystemDelete = 2"
| "cap_tag NCapNetworkEgress = 3"
| "cap_tag NCapNetworkIngress = 4"
| "cap_tag NCapExecutionShell = 5"
| "cap_tag NCapExecutionCode = 6"
| "cap_tag NCapCredentials = 7"
| "cap_tag NCapSystemInfo = 8"
| "cap_tag NCapSystemModify = 9"
| "cap_tag NCapClipboard = 10"
| "cap_tag NCapBrowserNavigate = 11"
| "cap_tag NCapDatabaseRead = 12"
| "cap_tag NCapDatabaseWrite = 13"
| "cap_tag NCapIpc = 14"

fun verdict_tag :: "verdict_n \<Rightarrow> byte" where
  "verdict_tag AllowN = 0"
| "verdict_tag InspectionRequiredN = 1"
| "verdict_tag DenyN = 2"

fun disposition_tag :: "disposition_n \<Rightarrow> byte" where
  "disposition_tag PermittedN = 0"
| "disposition_tag BlockedN = 1"
| "disposition_tag MonitorBypassedN = 2"

fun mode_tag :: "mode_n \<Rightarrow> byte" where
  "mode_tag EnforceN = 0"
| "mode_tag MonitorN = 1"

fun outcome_tag :: "outcome_n \<Rightarrow> byte" where
  "outcome_tag SuccessN = 0"
| "outcome_tag FailureN = 1"
| "outcome_tag AmbiguousN = 2"

fun fallback_tag :: "fallback_n \<Rightarrow> byte" where
  "fallback_tag FbFailN = 0"
| "fallback_tag ReleaseUnendorsedN = 1"

fun branch_tag :: "cross_branch_n \<Rightarrow> byte" where
  "branch_tag EndorsedN = 0"
| "branch_tag UnendorsedN = 1"
| "branch_tag BrFailN = 2"

fun command_tag :: "command_n \<Rightarrow> byte" where
  "command_tag (CmdRegisterTool _) = 0"
| "command_tag (CmdUnregisterTool _) = 1"
| "command_tag (CmdDelegate _ _) = 2"
| "command_tag (CmdGrantCapability _ _ _) = 3"
| "command_tag (CmdGrantCrossing _ _ _ _) = 4"
| "command_tag (CmdRevoke _ _) = 5"
| "command_tag (CmdCascadeRevoke _ _) = 6"
| "command_tag (CmdIngest _ _ _ _) = 7"
| "command_tag (CmdBeginInvocation _ _ _ _ _ _ _) = 8"
| "command_tag (CmdAuthorizeInspected _ _) = 9"
| "command_tag (CmdSettleInvocation _ _ _) = 10"
| "command_tag (CmdCrossOutput _) = 11"

fun action_tag :: "action_n \<Rightarrow> byte" where
  "action_tag (NActRegisterTool _) = 0"
| "action_tag (NActUnregisterTool _) = 1"
| "action_tag (NActDelegate _ _) = 2"
| "action_tag (NActGrantCapability _ _ _) = 3"
| "action_tag (NActGrantCrossing _ _ _ _) = 4"
| "action_tag (NActRevoke _ _) = 5"
| "action_tag (NActCascadeRevoke _ _) = 6"
| "action_tag (NActIngest _ _ _ _ _) = 7"
| "action_tag (NActBeginInvocation _ _ _ _ _) = 8"
| "action_tag (NActAuthorizeInspected _ _ _) = 9"
| "action_tag (NActSettleInvocation _ _ _ _ _ _ _) = 10"
| "action_tag (NActCrossOutput _ _ _ _ _) = 11"

lemma conf_tag_inject [simp]: "conf_tag x = conf_tag y \<longleftrightarrow> x = y"
  by (cases x; cases y) simp_all

lemma integ_tag_inject [simp]: "integ_tag x = integ_tag y \<longleftrightarrow> x = y"
  by (cases x; cases y) simp_all

lemma egress_tag_inject [simp]: "egress_tag x = egress_tag y \<longleftrightarrow> x = y"
  by (cases x; cases y) simp_all

lemma cap_tag_inject [simp]: "cap_tag x = cap_tag y \<longleftrightarrow> x = y"
  by (cases x; cases y) simp_all

lemma verdict_tag_inject [simp]: "verdict_tag x = verdict_tag y \<longleftrightarrow> x = y"
  by (cases x; cases y) simp_all

lemma disposition_tag_inject [simp]: "disposition_tag x = disposition_tag y \<longleftrightarrow> x = y"
  by (cases x; cases y) simp_all

lemma mode_tag_inject [simp]: "mode_tag x = mode_tag y \<longleftrightarrow> x = y"
  by (cases x; cases y) simp_all

lemma outcome_tag_inject [simp]: "outcome_tag x = outcome_tag y \<longleftrightarrow> x = y"
  by (cases x; cases y) simp_all

lemma fallback_tag_inject [simp]: "fallback_tag x = fallback_tag y \<longleftrightarrow> x = y"
  by (cases x; cases y) simp_all

lemma branch_tag_inject [simp]: "branch_tag x = branch_tag y \<longleftrightarrow> x = y"
  by (cases x; cases y) simp_all

lemma tags_inj [simp]:
  "inj conf_tag"
  "inj integ_tag"
  "inj egress_tag"
  "inj cap_tag"
  "inj verdict_tag"
  "inj disposition_tag"
  "inj mode_tag"
  "inj outcome_tag"
  "inj fallback_tag"
  "inj branch_tag"
  by (simp_all add: inj_def)

subsection \<open>Structs\<close>

definition wr_inspection :: "inspection_attestation_n \<Rightarrow> byte list" where
  "wr_inspection w =
     tr_string (ian_id w) @ tr_string (ian_inv w) @ tr_string (ian_challenge w) @
     tr_string (ian_args_hash w) @ tr_string (ian_policy_digest w) @ tr_bool (ian_positive w)"

definition wr_resolution :: "resolution_attestation_n \<Rightarrow> byte list" where
  "wr_resolution w =
     tr_string (ran_id w) @ tr_string (ran_inv w) @ tr_u8 (outcome_tag (ran_outcome w))"

definition wr_conformance :: "conformance_attestation_n \<Rightarrow> byte list" where
  "wr_conformance w =
     tr_string (can_id w) @ tr_string (can_output w) @ tr_string (can_src w) @ tr_string (can_rcv w) @
     tr_string (can_descriptor w) @ tr_string (can_assignment w) @ tr_bool (can_positive w)"

definition wr_conf :: "conf_level_n \<Rightarrow> byte list" where
  "wr_conf l = tr_u8 (conf_tag l)"

definition wr_cross :: "cross_input_n \<Rightarrow> byte list" where
  "wr_cross w =
     tr_string (xn_src w) @ tr_string (xn_rcv w) @ tr_string (xn_crossing w) @
     tr_string (xn_output_hash w) @ tr_string (xn_descriptor w) @
     tr_u8 (fallback_tag (xn_fallback w)) @ tr_u8 (integ_tag (xn_t_integ w)) @
     tr_option wr_conf (xn_t_conf w) @ tr_string (xn_assignment w) @
     tr_option wr_conformance (xn_evidence w) @
     wr_conf (xn_released_conf w) @ tr_u8 (integ_tag (xn_released_integ w))"

definition wr_policy :: "action_policy_snapshot_n \<Rightarrow> byte list" where
  "wr_policy w =
     tr_string (pn_tool w) @ canonical_set cap_tag (pn_required_caps w) @
     wr_conf (pn_conf_clearance w) @ tr_u8 (integ_tag (pn_integ_floor w)) @
     tr_u8 (integ_tag (pn_integ_inspect w)) @ wr_conf (pn_output_conf w) @
     tr_u8 (integ_tag (pn_output_integ w)) @ canonical_set egress_tag (pn_declared_egress w) @
     tr_string (pn_policy_digest w)"

fun wr_command_fields :: "command_n \<Rightarrow> byte list" where
  "wr_command_fields (CmdRegisterTool t) = tr_string t"
| "wr_command_fields (CmdUnregisterTool t) = tr_string t"
| "wr_command_fields (CmdDelegate p c) = tr_string p @ tr_string c"
| "wr_command_fields (CmdGrantCapability p c k) = tr_string p @ tr_string c @ tr_u8 (cap_tag k)"
| "wr_command_fields (CmdGrantCrossing g a d n) = tr_string g @ tr_string a @ tr_string d @ tr_u32 n"
| "wr_command_fields (CmdRevoke p a) = tr_string p @ tr_string a"
| "wr_command_fields (CmdCascadeRevoke c p) = tr_string c @ tr_string p"
| "wr_command_fields (CmdIngest a src l i) =
     tr_string a @ tr_option tr_string src @ wr_conf l @ tr_u8 (integ_tag i)"
| "wr_command_fields (CmdBeginInvocation a i ch p egr ah auth) =
     tr_string a @ tr_string i @ tr_string ch @ wr_policy p @ canonical_set egress_tag egr @
     tr_string ah @ tr_bool auth"
| "wr_command_fields (CmdAuthorizeInspected i t) = tr_string i @ wr_inspection t"
| "wr_command_fields (CmdSettleInvocation i out r) =
     tr_string i @ tr_u8 (outcome_tag out) @ tr_option wr_resolution r"
| "wr_command_fields (CmdCrossOutput q) = wr_cross q"

definition wr_command :: "command_n \<Rightarrow> byte list" where
  "wr_command c = tr_u8 (command_tag c) @ wr_command_fields c"

fun wr_action_fields :: "action_n \<Rightarrow> byte list" where
  "wr_action_fields (NActRegisterTool t) = tr_string t"
| "wr_action_fields (NActUnregisterTool t) = tr_string t"
| "wr_action_fields (NActDelegate p c) = tr_string p @ tr_string c"
| "wr_action_fields (NActGrantCapability p c k) = tr_string p @ tr_string c @ tr_u8 (cap_tag k)"
| "wr_action_fields (NActGrantCrossing g a d n) = tr_string g @ tr_string a @ tr_string d @ tr_u32 n"
| "wr_action_fields (NActRevoke p a) = tr_string p @ tr_string a"
| "wr_action_fields (NActCascadeRevoke c p) = tr_string c @ tr_string p"
| "wr_action_fields (NActIngest a src l i d) =
     tr_string a @ tr_option tr_string src @ wr_conf l @ tr_u8 (integ_tag i) @ tr_u8 (disposition_tag d)"
| "wr_action_fields (NActBeginInvocation a i t v auth) =
     tr_string a @ tr_string i @ tr_string t @ tr_u8 (verdict_tag v) @ tr_bool auth"
| "wr_action_fields (NActAuthorizeInspected i t admitted) = tr_string i @ tr_string t @ tr_bool admitted"
| "wr_action_fields (NActSettleInvocation i a d out l ig r) =
     tr_string i @ tr_string a @ tr_u8 (disposition_tag d) @ tr_u8 (outcome_tag out) @ wr_conf l @
     tr_u8 (integ_tag ig) @ tr_option tr_string r"
| "wr_action_fields (NActCrossOutput src rcv x b d) =
     tr_string src @ tr_string rcv @ tr_string x @ tr_u8 (branch_tag b) @ tr_u8 (disposition_tag d)"

definition wr_action :: "action_n \<Rightarrow> byte list" where
  "wr_action a = tr_u8 (action_tag a) @ wr_action_fields a"

definition wr_background :: "background_n \<Rightarrow> byte list" where
  "wr_background w =
     tr_u8 (mode_tag (bn_mode w)) @
     concat (map (\<lambda>egress. tr_option wr_conf (flatten (bn_allow_ceiling w egress))) egress_all) @
     concat (map (\<lambda>egress. tr_option wr_conf (flatten (bn_inspect_ceiling w egress))) egress_all)"

subsection \<open>Genesis and links\<close>

definition GENESIS_DOMAIN :: "byte list" where
  "GENESIS_DOMAIN = as_bytes ''EXARGUS'' @ [0] @ as_bytes ''GENESIS'' @ [0]"

definition ENVELOPE_DOMAIN :: "byte list" where
  "ENVELOPE_DOMAIN = as_bytes ''EXARGUS'' @ [0] @ as_bytes ''ENVELOPE'' @ [0]"

definition write_genesis :: "background_n \<Rightarrow> byte list" where
  "write_genesis bg =
     GENESIS_DOMAIN @ tr_u32 VERSION @ tr_string ''root'' @ wr_background bg"

definition write_link :: "digest_n \<Rightarrow> u64 \<Rightarrow> command_n \<Rightarrow> action_n \<Rightarrow> byte list" where
  "write_link previous sequence command action =
     ENVELOPE_DOMAIN @ tr_u32 VERSION @ digest_bytes previous @ tr_u64 sequence @
     wr_command command @ wr_action action"

definition genesis_transcript :: "background_n \<Rightarrow> byte list" where
  "genesis_transcript bg = [] @ write_genesis bg"

definition link_transcript :: "digest_n \<Rightarrow> u64 \<Rightarrow> command_n \<Rightarrow> action_n \<Rightarrow> byte list" where
  "link_transcript previous sequence command action = [] @ write_link previous sequence command action"

type_synonym hash_function = "byte list \<Rightarrow> byte list"

definition genesis :: "hash_function \<Rightarrow> background_n \<Rightarrow> digest_n" where
  "genesis sha256 bg = DigestN (sha256 (genesis_transcript bg))"

definition link :: "hash_function \<Rightarrow> digest_n \<Rightarrow> u64 \<Rightarrow> command_n \<Rightarrow> action_n \<Rightarrow> digest_n" where
  "link sha256 previous sequence command action =
     DigestN (sha256 (link_transcript previous sequence command action))"

subsection \<open>Every encoder is self-delimiting\<close>

text \<open>
  Strings longer than \<open>2^32 - 1\<close> bytes would lose their length; the capacity profile admits at most
  1024. The strings a value holds:
\<close>

definition inspection_strings :: "inspection_attestation_n \<Rightarrow> string list" where
  "inspection_strings w = [ian_id w, ian_inv w, ian_challenge w, ian_args_hash w, ian_policy_digest w]"

definition conformance_strings :: "conformance_attestation_n \<Rightarrow> string list" where
  "conformance_strings w =
     [can_id w, can_output w, can_src w, can_rcv w, can_descriptor w, can_assignment w]"

definition cross_strings :: "cross_input_n \<Rightarrow> string list" where
  "cross_strings w =
     [xn_src w, xn_rcv w, xn_crossing w, xn_output_hash w, xn_descriptor w, xn_assignment w] @
     (case xn_evidence w of Some e \<Rightarrow> conformance_strings e | None \<Rightarrow> [])"

fun command_strings :: "command_n \<Rightarrow> string list" where
  "command_strings (CmdRegisterTool t) = [t]"
| "command_strings (CmdUnregisterTool t) = [t]"
| "command_strings (CmdDelegate p c) = [p, c]"
| "command_strings (CmdGrantCapability p c k) = [p, c]"
| "command_strings (CmdGrantCrossing g a d n) = [g, a, d]"
| "command_strings (CmdRevoke p a) = [p, a]"
| "command_strings (CmdCascadeRevoke c p) = [c, p]"
| "command_strings (CmdIngest a src l i) = a # (case src of Some b \<Rightarrow> [b] | None \<Rightarrow> [])"
| "command_strings (CmdBeginInvocation a i ch p egr ah auth) =
     [a, i, ch, pn_tool p, pn_policy_digest p, ah]"
| "command_strings (CmdAuthorizeInspected i t) = i # inspection_strings t"
| "command_strings (CmdSettleInvocation i out r) =
     i # (case r of Some t \<Rightarrow> [ran_id t, ran_inv t] | None \<Rightarrow> [])"
| "command_strings (CmdCrossOutput q) = cross_strings q"

fun action_strings :: "action_n \<Rightarrow> string list" where
  "action_strings (NActRegisterTool t) = [t]"
| "action_strings (NActUnregisterTool t) = [t]"
| "action_strings (NActDelegate p c) = [p, c]"
| "action_strings (NActGrantCapability p c k) = [p, c]"
| "action_strings (NActGrantCrossing g a d n) = [g, a, d]"
| "action_strings (NActRevoke p a) = [p, a]"
| "action_strings (NActCascadeRevoke c p) = [c, p]"
| "action_strings (NActIngest a src l i d) = a # (case src of Some b \<Rightarrow> [b] | None \<Rightarrow> [])"
| "action_strings (NActBeginInvocation a i t v auth) = [a, i, t]"
| "action_strings (NActAuthorizeInspected i t admitted) = [i, t]"
| "action_strings (NActSettleInvocation i a d out l ig r) =
     [i, a] @ (case r of Some t \<Rightarrow> [t] | None \<Rightarrow> [])"
| "action_strings (NActCrossOutput src rcv x b d) = [src, rcv, x]"

definition all_short :: "string list \<Rightarrow> bool" where
  "all_short vs \<longleftrightarrow> (\<forall>v \<in> set vs. u32_length v)"

lemma all_short_simps [simp]:
  "all_short []" "all_short (v # vs) \<longleftrightarrow> u32_length v \<and> all_short vs"
  "all_short (vs @ ws) \<longleftrightarrow> all_short vs \<and> all_short ws"
  by (auto simp: all_short_def)

text \<open>What a transcript determines of a command: the set lists only as sets.\<close>

definition canonical_policy :: "action_policy_snapshot_n \<Rightarrow> action_policy_snapshot_n" where
  "canonical_policy w =
     w\<lparr>pn_required_caps := canonical_order cap_tag (pn_required_caps w),
       pn_declared_egress := canonical_order egress_tag (pn_declared_egress w)\<rparr>"

fun canonical_command :: "command_n \<Rightarrow> command_n" where
  "canonical_command (CmdBeginInvocation a i ch p egr ah auth) =
     CmdBeginInvocation a i ch (canonical_policy p) (canonical_order egress_tag egr) ah auth"
| "canonical_command c = c"

interpretation code_conf: canonical_code wr_conf "\<lambda>_. True" "\<lambda>x. x"
  by unfold_locales (simp add: wr_conf_def code_simps)

interpretation code_inspection: canonical_code wr_inspection "\<lambda>w. all_short (inspection_strings w)" "\<lambda>x. x"
  by unfold_locales
    (auto simp: wr_inspection_def inspection_strings_def code_simps intro: inspection_attestation_n.equality)

interpretation code_resolution: canonical_code wr_resolution "\<lambda>w. all_short [ran_id w, ran_inv w]" "\<lambda>x. x"
  by unfold_locales
    (auto simp: wr_resolution_def code_simps intro: resolution_attestation_n.equality)

interpretation code_conformance: canonical_code wr_conformance "\<lambda>w. all_short (conformance_strings w)" "\<lambda>x. x"
  by unfold_locales
    (auto simp: wr_conformance_def conformance_strings_def code_simps
      intro: conformance_attestation_n.equality)

lemmas option_codes = code_conf.option_splits code_string.option_splits
  code_resolution.option_splits code_conformance.option_splits

interpretation code_cross: canonical_code wr_cross "\<lambda>w. all_short (cross_strings w)" "\<lambda>x. x"
  by unfold_locales
    (auto simp: wr_cross_def cross_strings_def code_simps code_conf.splits option_codes option.map_ident
      intro: cross_input_n.equality split: option.splits)

lemma canonical_policy_eq_iff:
  "canonical_policy x = canonical_policy y \<longleftrightarrow>
     pn_tool x = pn_tool y \<and> set (pn_required_caps x) = set (pn_required_caps y) \<and>
     pn_conf_clearance x = pn_conf_clearance y \<and> pn_integ_floor x = pn_integ_floor y \<and>
     pn_integ_inspect x = pn_integ_inspect y \<and> pn_output_conf x = pn_output_conf y \<and>
     pn_output_integ x = pn_output_integ y \<and>
     set (pn_declared_egress x) = set (pn_declared_egress y) \<and> pn_policy_digest x = pn_policy_digest y"
  by (cases x; cases y) (auto simp: canonical_policy_def canonical_order_cong)

interpretation code_policy:
  canonical_code wr_policy "\<lambda>w. all_short [pn_tool w, pn_policy_digest w]" canonical_policy
  by unfold_locales
    (auto simp: wr_policy_def canonical_policy_eq_iff code_simps code_conf.splits canonical_set_code)

lemmas struct_codes = code_simps code_conf.splits option_codes code_inspection.splits
  code_resolution.splits code_conformance.splits code_cross.splits code_policy.splits canonical_set_code

interpretation code_command:
  canonical_code wr_command "\<lambda>c. all_short (command_strings c)" canonical_command
proof
  fix c d :: command_n and r s
  assume short: "all_short (command_strings c)" "all_short (command_strings d)"
  show "wr_command c @ r = wr_command d @ s \<longleftrightarrow> canonical_command c = canonical_command d \<and> r = s"
  proof (cases "command_tag c = command_tag d")
    case False
    then show ?thesis by (cases c; cases d) (simp_all add: wr_command_def code_simps)
  next
    case True
    then show ?thesis
      using short
      by (cases c; cases d)
        (auto simp: wr_command_def struct_codes canonical_order_cong option.map_ident split: option.splits)
  qed
qed

interpretation code_action:
  canonical_code wr_action "\<lambda>a. all_short (action_strings a)" "\<lambda>x. x"
proof
  fix c d :: action_n and r s
  assume short: "all_short (action_strings c)" "all_short (action_strings d)"
  show "wr_action c @ r = wr_action d @ s \<longleftrightarrow> c = d \<and> r = s"
  proof (cases "action_tag c = action_tag d")
    case False
    then show ?thesis by (cases c; cases d) (simp_all add: wr_action_def code_simps)
  next
    case True
    then show ?thesis
      using short
      by (cases c; cases d)
        (auto simp: wr_action_def struct_codes option.map_ident split: option.splits)
  qed
qed

text \<open>A background is written by what \<open>into_kernel\<close> reads of it: the flattened ceilings.\<close>

definition background_view ::
  "background_n \<Rightarrow> mode_n \<times> (egress_kind_n \<Rightarrow> conf_level_n option) \<times> (egress_kind_n \<Rightarrow> conf_level_n option)" where
  "background_view w = (bn_mode w, flatten \<circ> bn_allow_ceiling w, flatten \<circ> bn_inspect_ceiling w)"

interpretation code_background: canonical_code wr_background "\<lambda>_. True" background_view
proof
  fix v w :: background_n and r s
  have all: "f = g \<longleftrightarrow> (\<forall>e \<in> set egress_all. f e = g e)" for f g :: "egress_kind_n \<Rightarrow> conf_level_n option"
    by (simp add: set_egress_all fun_eq_iff)
  show "wr_background v @ r = wr_background w @ s \<longleftrightarrow> background_view v = background_view w \<and> r = s"
    by (auto simp: wr_background_def background_view_def all egress_all_def code_simps option_codes
        option.map_ident)
qed

lemma background_view_kernel:
  "background_view v = background_view w \<Longrightarrow> background_into_kernel v = background_into_kernel w"
  by (auto simp: background_view_def background_into_kernel_def fun_eq_iff)

subsection \<open>Transcripts are injective\<close>

definition digest_wf :: "digest_n \<Rightarrow> bool" where
  "digest_wf d \<longleftrightarrow> length (digest_bytes d) = 32"

lemma genesis_transcript_inject:
  "genesis_transcript v = genesis_transcript w \<longleftrightarrow> background_view v = background_view w"
  using code_background.enc_inject [of v w] by (simp add: genesis_transcript_def write_genesis_def)

lemma link_transcript_inject:
  assumes "digest_wf p" "digest_wf q" "all_short (command_strings c)" "all_short (command_strings d)"
    and "all_short (action_strings a)" "all_short (action_strings b)"
  shows "link_transcript p m c a = link_transcript q n d b \<longleftrightarrow>
    p = q \<and> m = n \<and> canonical_command c = canonical_command d \<and> a = b"
proof -
  have "link_transcript p m c a = link_transcript q n d b \<longleftrightarrow>
      digest_bytes p = digest_bytes q \<and>
      tr_u64 m @ wr_command c @ wr_action a = tr_u64 n @ wr_command d @ wr_action b"
    using assms(1,2) by (simp add: link_transcript_def write_link_def digest_wf_def)
  then show ?thesis
    using assms(3-6)
    by (auto simp: code_simps code_command.splits code_action.enc_inject digest_n.expand)
qed

text \<open>The domains differ in their ninth byte.\<close>

lemma domains_differ: "genesis_transcript bg \<noteq> link_transcript p n c a"
  by (simp add: genesis_transcript_def write_genesis_def link_transcript_def write_link_def GENESIS_DOMAIN_def ENVELOPE_DOMAIN_def
      as_bytes_def)

subsection \<open>Test vectors\<close>

text \<open>The byte strings that the repository's own tests pin, computed by the model.\<close>

definition vector_background :: background_n where
  "vector_background = \<lparr>bn_mode = MonitorN,
     bn_allow_ceiling = (\<lambda>e. case e of NEgNetworkExternal \<Rightarrow> Some (Some InternalN)
       | NEgNetworkInternal \<Rightarrow> Some None | NEgFilesystemWrite \<Rightarrow> Some (Some RestrictedN)
       | NEgIpc \<Rightarrow> Some (Some PublicN)),
     bn_inspect_ceiling = (\<lambda>e. case e of NEgNetworkExternal \<Rightarrow> Some (Some SensitiveN)
       | NEgNetworkInternal \<Rightarrow> Some (Some PublicN) | NEgFilesystemWrite \<Rightarrow> Some None
       | NEgIpc \<Rightarrow> Some (Some InternalN))\<rparr>"

lemma genesis_vector:
  "genesis_transcript vector_background =
      [69, 88, 65, 82, 71, 85, 83, 0, 71, 69, 78, 69, 83, 73, 83, 0, 0, 0, 0, 5, 0, 0, 0,
      4, 114, 111, 111, 116, 1, 1, 1, 0, 1, 3, 1, 0, 1, 2, 1, 0, 0, 1, 1]"
  by code_simp

lemma settlement_vector:
  "link_transcript (DigestN (map of_nat [0..<32])) 42
     (CmdSettleInvocation ''inv'' AmbiguousN (Some \<lparr>ran_id = ''res'', ran_inv = ''inv'', ran_outcome = FailureN\<rparr>))
     (NActSettleInvocation ''inv'' ''agent'' MonitorBypassedN AmbiguousN SensitiveN TrustedN (Some ''res'')) =
      [69, 88, 65, 82, 71, 85, 83, 0, 69, 78, 86, 69, 76, 79, 80, 69, 0, 0, 0, 0, 5, 0, 1,
      2, 3, 4, 5, 6, 7, 8, 9, 10, 11, 12, 13, 14, 15, 16, 17, 18, 19, 20, 21, 22, 23, 24,
      25, 26, 27, 28, 29, 30, 31, 0, 0, 0, 0, 0, 0, 0, 42, 10, 0, 0, 0, 3, 105, 110, 118,
      2, 1, 0, 0, 0, 3, 114, 101, 115, 0, 0, 0, 3, 105, 110, 118, 1, 10, 0, 0, 0, 3, 105,
      110, 118, 0, 0, 0, 5, 97, 103, 101, 110, 116, 2, 2, 2, 2, 1, 0, 0, 0, 3, 114, 101,
      115]"
  by code_simp

end
