(* ===== verification/State_Projection.thy ===== *)
theory State_Projection
  imports Chain_Transcript "HOL-Library.Char_ord" "HOL-Library.List_Lexorder"
    "HOL-Library.Product_Lexorder" "HOL-Library.Multiset"
begin

text \<open>
  The observation \<open>StateN::from_kernel\<close> of \<open>argus_nif/src/state.rs\<close>: every collection as a list
  sorted by the bytes of its keys, every set of a vocabulary sorted by canonical tag. \<open>sort_by\<close> is
  stable, as \<open>sort_key\<close> is; strings are compared byte by byte, which is the order of \<open>Char_ord\<close>
  lifted to lists.
\<close>

record pending_invocation_n =
  jn_agent :: string
  jn_policy :: action_policy_snapshot_n
  jn_egress :: "egress_kind_n list"
  jn_admission :: admission_n
  jn_disposition :: disposition_n
  jn_authorized :: bool
  jn_quarantined :: bool

record challenge_scope_n =
  sn_challenge :: string
  sn_agent :: string
  sn_policy :: action_policy_snapshot_n
  sn_egress :: "egress_kind_n list"
  sn_args_hash :: string
  sn_authorized :: bool

record crossing_grant_n =
  gn_remaining :: u32
  gn_provisioned :: u32

record state_n =
  zn_agent_active :: "string list"
  zn_agent_parent :: "(string \<times> string) list"
  zn_agent_cap :: "(string \<times> cap_kind_n list) list"
  zn_taint_levels :: "(string \<times> conf_level_n list) list"
  zn_integ_levels :: "(string \<times> integ_level_n list) list"
  zn_pending :: "(string \<times> pending_invocation_n) list"
  zn_challenges :: "(string \<times> challenge_scope_n) list"
  zn_consumed_ids :: "string list"
  zn_consumed_attestations :: "string list"
  zn_consumed_crossings :: "string list"
  zn_crossing_grants :: "((string \<times> string) \<times> crossing_grant_n) list"
  zn_tool_registered :: "string list"

definition sort_strings :: "string list \<Rightarrow> string list" where
  "sort_strings values = sort_key (\<lambda>v. v) values"

definition sort_string_map :: "(string \<times> 'v) list \<Rightarrow> (string \<times> 'v) list" where
  "sort_string_map values = sort_key fst values"

definition sort_by_tag :: "('a \<Rightarrow> byte) \<Rightarrow> 'a list \<Rightarrow> 'a list" where
  "sort_by_tag tag values = sort_key tag values"

text \<open>\<open>cmp(agents).then_with(cmp(assignments))\<close> is the lexicographic order on the pair.\<close>

definition sort_grants ::
  "((string \<times> string) \<times> crossing_grant_n) list \<Rightarrow> ((string \<times> string) \<times> crossing_grant_n) list" where
  "sort_grants values = sort_key fst values"

definition policy_observed :: "action_policy_snapshot \<Rightarrow> action_policy_snapshot_n" where
  "policy_observed p =
     \<lparr>pn_tool = tool_str (aps_tool p),
      pn_required_caps = sort_by_tag cap_tag (map cap_from_kernel (items (required_caps p))),
      pn_conf_clearance = conf_from_kernel (conf_clearance p),
      pn_integ_floor = integ_from_kernel (integ_floor p),
      pn_integ_inspect = integ_from_kernel (integ_inspect p),
      pn_output_conf = conf_from_kernel (output_conf p),
      pn_output_integ = integ_from_kernel (output_integ p),
      pn_declared_egress = sort_by_tag egress_tag (map egress_from_kernel (items (declared_egress p))),
      pn_policy_digest = policy_str (policy_digest p)\<rparr>"

definition pending_from_kernel :: "pending_invocation \<Rightarrow> pending_invocation_n" where
  "pending_from_kernel j =
     \<lparr>jn_agent = agent_str (pi_agent j), jn_policy = policy_observed (pi_policy j),
      jn_egress = sort_by_tag egress_tag (map egress_from_kernel (items (pi_egress j))),
      jn_admission = admission_from_kernel (admission j),
      jn_disposition = disposition_from_kernel (disposition_of j),
      jn_authorized = pi_authorized j, jn_quarantined = quarantined j\<rparr>"

definition challenge_from_kernel :: "challenge_scope \<Rightarrow> challenge_scope_n" where
  "challenge_from_kernel c =
     \<lparr>sn_challenge = challenge_str (cs_challenge c), sn_agent = agent_str (cs_agent c),
      sn_policy = policy_observed (cs_policy c),
      sn_egress = sort_by_tag egress_tag (map egress_from_kernel (items (cs_egress c))),
      sn_args_hash = hash_str (cs_args_hash c), sn_authorized = cs_authorized c\<rparr>"

definition state_from_kernel :: "kernel_state \<Rightarrow> state_n" where
  "state_from_kernel s =
     \<lparr>zn_agent_active = sort_strings (map agent_str (items (agent_active s))),
      zn_agent_parent = sort_string_map
        (map (\<lambda>(child, parent). (agent_str child, agent_str parent)) (entries (agent_parent s))),
      zn_agent_cap = sort_string_map
        (map (\<lambda>(agent, caps). (agent_str agent, sort_by_tag cap_tag (map cap_from_kernel (items caps))))
          (entries (agent_cap s))),
      zn_taint_levels = sort_string_map
        (map (\<lambda>(agent, levels). (agent_str agent, sort_by_tag conf_tag (map conf_from_kernel (items levels))))
          (entries (taint_levels s))),
      zn_integ_levels = sort_string_map
        (map (\<lambda>(agent, levels). (agent_str agent, sort_by_tag integ_tag (map integ_from_kernel (items levels))))
          (entries (integ_levels s))),
      zn_pending = sort_string_map
        (map (\<lambda>(inv, j). (inv_str inv, pending_from_kernel j)) (entries (pending s))),
      zn_challenges = sort_string_map
        (map (\<lambda>(inv, c). (inv_str inv, challenge_from_kernel c)) (entries (challenges s))),
      zn_consumed_ids = sort_strings (map inv_str (items (consumed_ids s))),
      zn_consumed_attestations = sort_strings (map att_str (items (consumed_attestations s))),
      zn_consumed_crossings = sort_strings (map crossing_str (items (consumed_crossings s))),
      zn_crossing_grants = sort_grants
        (map (\<lambda>(key, g). ((agent_str (ck_agent key), assignment_str (ck_assignment key)),
            \<lparr>gn_remaining = remaining g, gn_provisioned = provisioned g\<rparr>)) (entries (crossing_grants s))),
      zn_tool_registered = sort_strings (map tool_str (items (tool_registered s)))\<rparr>"

subsection \<open>Two states with the same observation\<close>

definition same_items :: "'a vec_set \<Rightarrow> 'a vec_set \<Rightarrow> bool" where
  "same_items a b \<longleftrightarrow> set (items a) = set (items b)"

definition same_entries :: "('v \<Rightarrow> 'v \<Rightarrow> bool) \<Rightarrow> ('k, 'v) vec_map \<Rightarrow> ('k, 'v) vec_map \<Rightarrow> bool" where
  "same_entries R m n \<longleftrightarrow> (\<forall>k. rel_option R (vm_get m k) (vm_get n k))"

definition same_policy :: "action_policy_snapshot \<Rightarrow> action_policy_snapshot \<Rightarrow> bool" where
  "same_policy p q \<longleftrightarrow>
     same_items (required_caps p) (required_caps q) \<and> same_items (declared_egress p) (declared_egress q) \<and>
     aps_tool p = aps_tool q \<and> conf_clearance p = conf_clearance q \<and> integ_floor p = integ_floor q \<and>
     integ_inspect p = integ_inspect q \<and> output_conf p = output_conf q \<and>
     output_integ p = output_integ q \<and> policy_digest p = policy_digest q"

definition same_pending :: "pending_invocation \<Rightarrow> pending_invocation \<Rightarrow> bool" where
  "same_pending i j \<longleftrightarrow>
     same_policy (pi_policy i) (pi_policy j) \<and> same_items (pi_egress i) (pi_egress j) \<and>
     pi_agent i = pi_agent j \<and> admission i = admission j \<and> disposition_of i = disposition_of j \<and>
     pi_authorized i = pi_authorized j \<and> quarantined i = quarantined j"

definition same_challenge :: "challenge_scope \<Rightarrow> challenge_scope \<Rightarrow> bool" where
  "same_challenge c d \<longleftrightarrow>
     same_policy (cs_policy c) (cs_policy d) \<and> same_items (cs_egress c) (cs_egress d) \<and>
     cs_challenge c = cs_challenge d \<and> cs_agent c = cs_agent d \<and> cs_args_hash c = cs_args_hash d \<and>
     cs_authorized c = cs_authorized d"

definition same_content :: "kernel_state \<Rightarrow> kernel_state \<Rightarrow> bool" where
  "same_content s t \<longleftrightarrow>
     same_items (agent_active s) (agent_active t) \<and>
     same_entries (=) (agent_parent s) (agent_parent t) \<and>
     same_entries same_items (agent_cap s) (agent_cap t) \<and>
     same_entries same_items (taint_levels s) (taint_levels t) \<and>
     same_entries same_items (integ_levels s) (integ_levels t) \<and>
     same_entries same_pending (pending s) (pending t) \<and>
     same_entries same_challenge (challenges s) (challenges t) \<and>
     same_items (consumed_ids s) (consumed_ids t) \<and>
     same_items (consumed_attestations s) (consumed_attestations t) \<and>
     same_items (consumed_crossings s) (consumed_crossings t) \<and>
     same_entries (=) (crossing_grants s) (crossing_grants t) \<and>
     same_items (tool_registered s) (tool_registered t)"

text \<open>Sorting by a key that is injective on the values forgets exactly the order.\<close>

lemma sort_key_eq_iff:
  assumes "distinct (map k xs)" "distinct (map k ys)"
  shows "sort_key k xs = sort_key k ys \<longleftrightarrow> set xs = set ys"
proof
  assume "set xs = set ys"
  moreover have "distinct xs" "distinct ys" using assms by (auto simp: distinct_map)
  ultimately have "mset xs = mset ys" by (simp add: set_eq_iff_mset_eq_distinct)
  moreover have "inj_on k (set xs)" using assms by (simp add: distinct_map)
  ultimately show "sort_key k xs = sort_key k ys"
    by (intro sort_key_inj_key_eq) simp_all
qed (metis set_sort)

lemma sorted_items_eq_iff:
  assumes "vs_wf a" "vs_wf b" "inj h" "inj k"
  shows "sort_key k (map h (items a)) = sort_key k (map h (items b)) \<longleftrightarrow> same_items a b"
proof -
  have "distinct (map k (map h (items c)))" if "vs_wf c" for c
    using that assms(3,4) by (simp add: vs_wf_def distinct_map inj_on_def inj_def comp_inj_on)
  then show ?thesis
    using assms by (simp add: sort_key_eq_iff same_items_def inj_image_eq_iff)
qed

lemma sorted_entries_eq_iff:
  assumes wf: "vm_wf m" "vm_wf n" and h: "inj h"
    and g: "\<And>u v. u \<in> snd ` set (entries m) \<Longrightarrow> v \<in> snd ` set (entries n) \<Longrightarrow> g u = g v \<longleftrightarrow> R u v"
  shows "sort_key fst (map (\<lambda>(k, v). (h k, g v)) (entries m)) =
     sort_key fst (map (\<lambda>(k, v). (h k, g v)) (entries n)) \<longleftrightarrow> same_entries R m n"
proof -
  let ?f = "\<lambda>(k, v). (h k, g v)"
  have "distinct (map fst (map ?f (entries l)))" if "vm_wf l" for l
  proof -
    have "map fst (map ?f (entries l)) = map h (map fst (entries l))" by auto
    then show ?thesis using that h by (simp add: vm_wf_def distinct_map inj_on_def inj_def del: map_map)
  qed
  then have "?thesis \<longleftrightarrow> (?f ` set (entries m) = ?f ` set (entries n) \<longleftrightarrow> same_entries R m n)"
    using wf by (simp add: sort_key_eq_iff)
  moreover have "?f ` set (entries l) = {(h k, g v) | k v. vm_get l k = Some v}" if "vm_wf l" for l
    using that by (auto simp: vm_get_wf_iff image_iff)
  moreover have "{(h k, g v) | k v. vm_get m k = Some v} = {(h k, g v) | k v. vm_get n k = Some v} \<longleftrightarrow>
      (\<forall>k. map_option g (vm_get m k) = map_option g (vm_get n k))" (is "?A = ?B \<longleftrightarrow> ?C")
  proof
    assume eq: "?A = ?B"
    have "map_option g (vm_get m k) = Some x \<longleftrightarrow> map_option g (vm_get n k) = Some x" for k x
    proof -
      have "map_option g (vm_get l k) = Some x \<longleftrightarrow> (h k, x) \<in> {(h k, g v) | k v. vm_get l k = Some v}" for l
        using h by (auto simp: inj_eq)
      then show ?thesis using eq by blast
    qed
    then show ?C by (metis not_Some_eq)
  next
    assume C: ?C
    then have "(\<exists>v. vm_get m k = Some v \<and> x = g v) \<longleftrightarrow> (\<exists>v. vm_get n k = Some v \<and> x = g v)" for k x
      by (metis map_option_eq_Some)
    then show "?A = ?B" by fast
  qed
  moreover have "map_option g (vm_get m k) = map_option g (vm_get n k) \<longleftrightarrow>
      rel_option R (vm_get m k) (vm_get n k)" for k
  proof -
    have "g u = g v \<longleftrightarrow> R u v" if "vm_get m k = Some u" "vm_get n k = Some v" for u v
      by (rule g) (use that [THEN vm_get_entry] in \<open>auto simp: image_iff intro: bexI [rotated]\<close>)
    then show ?thesis by (cases "vm_get m k"; cases "vm_get n k") auto
  qed
  ultimately show ?thesis using wf by (simp add: same_entries_def)
qed

lemma observed_sets:
  "vs_wf a \<Longrightarrow> vs_wf b \<Longrightarrow> sort_by_tag cap_tag (map cap_from_kernel (items a)) =
     sort_by_tag cap_tag (map cap_from_kernel (items b)) \<longleftrightarrow> same_items a b"
  "vs_wf e \<Longrightarrow> vs_wf f \<Longrightarrow> sort_by_tag egress_tag (map egress_from_kernel (items e)) =
     sort_by_tag egress_tag (map egress_from_kernel (items f)) \<longleftrightarrow> same_items e f"
  "vs_wf c \<Longrightarrow> vs_wf d \<Longrightarrow> sort_by_tag conf_tag (map conf_from_kernel (items c)) =
     sort_by_tag conf_tag (map conf_from_kernel (items d)) \<longleftrightarrow> same_items c d"
  "vs_wf i \<Longrightarrow> vs_wf j \<Longrightarrow> sort_by_tag integ_tag (map integ_from_kernel (items i)) =
     sort_by_tag integ_tag (map integ_from_kernel (items j)) \<longleftrightarrow> same_items i j"
  unfolding sort_by_tag_def
  by (intro sorted_items_eq_iff; (simp | metis injI cap_wire_inverse(2) egress_wire_inverse(2)
        conf_wire_inverse(2) integ_wire_inverse(2)))+

lemma policy_observed_eq_iff:
  "policy_wf p \<Longrightarrow> policy_wf q \<Longrightarrow> policy_observed p = policy_observed q \<longleftrightarrow> same_policy p q"
  by (auto simp: policy_observed_def same_policy_def policy_wf_def observed_sets
      tool_id.expand policy_digest_t.expand)

lemma admission_from_kernel_inject: "admission_from_kernel x = admission_from_kernel y \<longleftrightarrow> x = y"
  by (metis admission_wire_inverse(2))

lemma pending_observed_eq_iff:
  "pending_wf i \<Longrightarrow> pending_wf j \<Longrightarrow> pending_from_kernel i = pending_from_kernel j \<longleftrightarrow> same_pending i j"
  by (auto simp: pending_from_kernel_def same_pending_def pending_wf_def policy_observed_eq_iff
      observed_sets agent_id.expand admission_from_kernel_inject)

lemma challenge_observed_eq_iff:
  "challenge_wf c \<Longrightarrow> challenge_wf d \<Longrightarrow>
     challenge_from_kernel c = challenge_from_kernel d \<longleftrightarrow> same_challenge c d"
  by (auto simp: challenge_from_kernel_def same_challenge_def challenge_wf_def policy_observed_eq_iff
      observed_sets agent_id.expand challenge_id.expand content_hash.expand)

lemma inj_identities:
  "inj agent_str" "inj inv_str" "inj att_str" "inj crossing_str" "inj tool_str"
  "inj (\<lambda>k :: crossing_key. (agent_str (ck_agent k), assignment_str (ck_assignment k)))"
  by (auto simp: inj_def agent_id.expand invocation_id.expand attestation_id.expand crossing_id.expand
      tool_id.expand assignment_digest.expand intro!: crossing_key.equality)

lemma state_observed_eq_iff:
  assumes "state_wf s" "state_wf t"
  shows "state_from_kernel s = state_from_kernel t \<longleftrightarrow> same_content s t"
proof -
  note fields = wf_fields [OF assms(1)] wf_fields [OF assms(2)]
  have strings: "sort_strings (map h (items a)) = sort_strings (map h (items b)) \<longleftrightarrow> same_items a b"
    if "vs_wf a" "vs_wf b" "inj h" for h :: "'z \<Rightarrow> string" and a b
    unfolding sort_strings_def by (rule sorted_items_eq_iff) (use that in auto)
  have parent: "sort_string_map (map (\<lambda>(c, p). (agent_str c, agent_str p)) (entries m)) =
      sort_string_map (map (\<lambda>(c, p). (agent_str c, agent_str p)) (entries n)) \<longleftrightarrow> same_entries (=) m n"
    if "vm_wf m" "vm_wf n" for m n
    unfolding sort_string_map_def
    by (rule sorted_entries_eq_iff) (use that in \<open>auto simp: inj_identities agent_id.expand\<close>)
  have sets: "sort_string_map (map (\<lambda>(c, l). (agent_str c, obs l)) (entries m)) =
      sort_string_map (map (\<lambda>(c, l). (agent_str c, obs l)) (entries n)) \<longleftrightarrow> same_entries same_items m n"
    if "vm_sets_wf m" "vm_sets_wf n" "\<And>a b. vs_wf a \<Longrightarrow> vs_wf b \<Longrightarrow> obs a = obs b \<longleftrightarrow> same_items a b"
    for m n and obs :: "'y vec_set \<Rightarrow> 'z"
    unfolding sort_string_map_def
    by (rule sorted_entries_eq_iff)
      (use that in \<open>auto simp: inj_identities vm_sets_wf_def vm_all_values_def\<close>)
  have records: "sort_string_map (map (\<lambda>(c, l). (inv_str c, obs l)) (entries m)) =
      sort_string_map (map (\<lambda>(c, l). (inv_str c, obs l)) (entries n)) \<longleftrightarrow> same_entries R m n"
    if "vm_wf m" "vm_wf n" "vm_all_values P m" "vm_all_values P n"
      "\<And>a b. P a \<Longrightarrow> P b \<Longrightarrow> obs a = obs b \<longleftrightarrow> R a b"
    for m n P R and obs :: "'y \<Rightarrow> 'z"
    unfolding sort_string_map_def
    by (rule sorted_entries_eq_iff) (use that in \<open>auto simp: inj_identities vm_all_values_def\<close>)
  have grants: "sort_grants (map (\<lambda>(key, g). ((agent_str (ck_agent key), assignment_str (ck_assignment key)),
        \<lparr>gn_remaining = remaining g, gn_provisioned = provisioned g\<rparr>)) (entries m)) =
      sort_grants (map (\<lambda>(key, g). ((agent_str (ck_agent key), assignment_str (ck_assignment key)),
        \<lparr>gn_remaining = remaining g, gn_provisioned = provisioned g\<rparr>)) (entries n)) \<longleftrightarrow>
      same_entries (=) m n"
    if "vm_wf m" "vm_wf n" for m n :: "(crossing_key, crossing_grant) vec_map"
    unfolding sort_grants_def
    by (rule sorted_entries_eq_iff) (use that in \<open>auto simp: inj_identities intro: crossing_grant.equality\<close>)
  note observed = records [OF fields(6) fields(20) fields(7) fields(21) pending_observed_eq_iff]
    records [OF fields(8) fields(22) fields(9) fields(23) challenge_observed_eq_iff]
  show ?thesis
    unfolding state_from_kernel_def same_content_def
    by (simp add: strings parent sets observed grants fields inj_identities observed_sets)
qed

end
