(* ===== verification/Native_Instance.thy ===== *)
theory Native_Instance
  imports Capacity_Closure State_Projection
begin

text \<open>
  The native resources of \<open>argus_nif/src/instance.rs\<close>: a live instance that applies commands and a
  recovery instance that replays recorded envelopes and is finalized once. Both keep their state
  behind a \<open>Mutex\<close> that is only ever tried; the guard is released when a method returns, so a
  method maps the resource it finds to its result and the resource it leaves.
\<close>

subsection \<open>The lock\<close>

text \<open>
  A standard-library mutex: it may be held by another caller, or poisoned by one that panicked while
  holding it. \<open>try_lock\<close> reports a held lock first.
\<close>

record 'a mutex =
  mx_held :: bool
  mx_poisoned :: bool
  mx_data :: 'a

datatype try_lock_error = WouldBlock | PoisonedLock

definition mutex_new :: "'a \<Rightarrow> 'a mutex" where
  "mutex_new x = \<lparr>mx_held = False, mx_poisoned = False, mx_data = x\<rparr>"

definition mutex_try_lock :: "'a mutex \<Rightarrow> try_lock_error + 'a" where
  "mutex_try_lock m =
     (if mx_held m then Inl WouldBlock else if mx_poisoned m then Inl PoisonedLock else Inr (mx_data m))"

fun map_try_lock :: "try_lock_error \<Rightarrow> error_n" where
  "map_try_lock WouldBlock = InstanceBusy"
| "map_try_lock PoisonedLock = ResourcePoisoned"

definition locked :: "'a mutex \<Rightarrow> error_n + 'a" where
  "locked m = map_error map_try_lock (mutex_try_lock m)"

subsection \<open>Instance states\<close>

record instance_state =
  is_kernel :: kernel_state
  is_sequence :: u64
  is_head :: digest_n

definition instance_initial :: "hash_function \<Rightarrow> background_n \<Rightarrow> instance_state" where
  "instance_initial sha256 bg =
     \<lparr>is_kernel = initial_state, is_sequence = 0, is_head = genesis sha256 bg\<rparr>"

text \<open>\<open>Applied\<close> is the pair of the next state and the envelope.\<close>

definition apply_without_commit ::
  "hash_function \<Rightarrow> instance_state \<Rightarrow> background_theory \<Rightarrow> command_n \<Rightarrow>
   error_n + instance_state \<times> envelope_n" where
  "apply_without_commit sha256 current bg command =
     and_then (preflight (is_kernel current) (is_sequence current) command) (\<lambda>_.
     and_then (checked_next (is_sequence current)) (\<lambda>sequence.
     and_then (map_error NKernel (command_apply command (is_kernel current) bg)) (\<lambda>(kernel, action).
     let previous_digest = is_head current;
         digest = link sha256 previous_digest sequence command action
     in Inr (\<lparr>is_kernel = kernel, is_sequence = sequence, is_head = digest\<rparr>,
             \<lparr>en_version = VERSION, en_sequence = sequence, en_previous_digest = previous_digest,
              en_digest = digest, en_command = command, en_action = action\<rparr>))))"

subsection \<open>Live instances\<close>

record live_instance =
  li_background :: background_theory
  li_inner :: "instance_state mutex"

definition live_from_state :: "background_theory \<Rightarrow> instance_state \<Rightarrow> live_instance" where
  "live_from_state bg st = \<lparr>li_background = bg, li_inner = mutex_new st\<rparr>"

definition live_new :: "hash_function \<Rightarrow> background_n \<Rightarrow> live_instance" where
  "live_new sha256 bg = live_from_state (background_into_kernel bg) (instance_initial sha256 bg)"

definition live_status :: "live_instance \<Rightarrow> error_n + chain_n" where
  "live_status live =
     map_ok (\<lambda>current. \<lparr>cn_version = VERSION, cn_sequence = is_sequence current, cn_head = is_head current\<rparr>)
       (locked (li_inner live))"

definition live_state :: "live_instance \<Rightarrow> error_n + state_n" where
  "live_state live =
     and_then (locked (li_inner live)) (\<lambda>current.
     and_then (check_state (is_kernel current)) (\<lambda>_.
     Inr (state_from_kernel (is_kernel current))))"

definition live_apply ::
  "hash_function \<Rightarrow> live_instance \<Rightarrow> command_n \<Rightarrow> (error_n + envelope_n) \<times> live_instance" where
  "live_apply sha256 live command =
     (case locked (li_inner live) of
        Inl e \<Rightarrow> (Inl e, live)
      | Inr current \<Rightarrow>
          (case apply_without_commit sha256 current (li_background live) command of
             Inl e \<Rightarrow> (Inl e, live)
           | Inr (next, envelope) \<Rightarrow>
               (Inr envelope, live\<lparr>li_inner := (li_inner live)\<lparr>mx_data := next\<rparr>\<rparr>)))"

subsection \<open>Recovery\<close>

record recovery_instance =
  ri_background :: background_theory
  ri_inner :: "instance_state option mutex"

definition recovery_new :: "hash_function \<Rightarrow> background_n \<Rightarrow> recovery_instance" where
  "recovery_new sha256 bg =
     \<lparr>ri_background = background_into_kernel bg,
      ri_inner = mutex_new (Some (instance_initial sha256 bg))\<rparr>"

text \<open>\<open>slot.as_ref().ok_or(RecoveryConsumed)\<close>\<close>

definition recovery_slot :: "recovery_instance \<Rightarrow> error_n + instance_state" where
  "recovery_slot rec =
     and_then (locked (ri_inner rec)) (\<lambda>slot.
       case slot of Some current \<Rightarrow> Inr current | None \<Rightarrow> Inl RecoveryConsumed)"

fun replay_error :: "error_n \<Rightarrow> error_n" where
  "replay_error (NKernel cause) = ReplayRefused cause"
| "replay_error other = other"

definition replay_check ::
  "hash_function \<Rightarrow> instance_state \<Rightarrow> background_theory \<Rightarrow> envelope_n \<Rightarrow> error_n + instance_state" where
  "replay_check sha256 current bg recorded =
     and_then (check_recovery_link (is_kernel current) (is_sequence current)) (\<lambda>_.
     if en_version recorded \<noteq> VERSION then Inl InvalidVersion else
     and_then (checked_next (is_sequence current)) (\<lambda>expected_sequence.
     if en_sequence recorded \<noteq> expected_sequence then Inl SequenceMismatch else
     if en_previous_digest recorded \<noteq> is_head current then Inl PreviousDigestMismatch else
     and_then (map_error replay_error (apply_without_commit sha256 current bg (en_command recorded)))
       (\<lambda>(next, envelope).
     if en_action envelope \<noteq> en_action recorded then Inl ActionMismatch else
     if en_digest envelope \<noteq> en_digest recorded then Inl DigestMismatch else Inr next)))"

definition recovery_replay ::
  "hash_function \<Rightarrow> recovery_instance \<Rightarrow> envelope_n \<Rightarrow> (error_n + unit) \<times> recovery_instance" where
  "recovery_replay sha256 rec recorded =
     (case and_then (recovery_slot rec) (\<lambda>current. replay_check sha256 current (ri_background rec) recorded) of
        Inl e \<Rightarrow> (Inl e, rec)
      | Inr next \<Rightarrow> (Inr (), rec\<lparr>ri_inner := (ri_inner rec)\<lparr>mx_data := Some next\<rparr>\<rparr>))"

definition recovery_finalize ::
  "recovery_instance \<Rightarrow> chain_n \<Rightarrow> (error_n + live_instance) \<times> recovery_instance" where
  "recovery_finalize rec expected =
     (case recovery_slot rec of
        Inl e \<Rightarrow> (Inl e, rec)
      | Inr current \<Rightarrow>
          if cn_version expected \<noteq> VERSION then (Inl InvalidVersion, rec)
          else if cn_sequence expected \<noteq> is_sequence current \<or> cn_head expected \<noteq> is_head current
          then (Inl FinalAnchorMismatch, rec)
          else (Inr (live_from_state (ri_background rec) current),
                rec\<lparr>ri_inner := (ri_inner rec)\<lparr>mx_data := None\<rparr>\<rparr>))"

end
