(* ===== verification/Native_History.thy ===== *)
theory Native_History
  imports Native_Instance
begin

text \<open>
  Histories of a native instance: the envelopes it has emitted, linked by sequence number and digest.
  \<open>extends\<close> is one accepted command; live application and recovery replay are both exactly this
  step, the kernel simulates it, and its capacity invariant holds throughout.
\<close>

definition extends ::
  "hash_function \<Rightarrow> background_theory \<Rightarrow> instance_state \<Rightarrow> envelope_n \<Rightarrow> instance_state \<Rightarrow> bool" where
  "extends sha256 bg st env st' \<longleftrightarrow>
     apply_without_commit sha256 st bg (en_command env) = Inr (st', env)"

lemma checked_next_Inr_iff: "checked_next n = Inr m \<longleftrightarrow> n \<noteq> - 1 \<and> m = n + 1"
  by (auto simp: checked_next_def)

lemma apply_without_commit_Inr_iff:
  "apply_without_commit sha256 st bg c = Inr (st', env) \<longleftrightarrow>
     preflight (is_kernel st) (is_sequence st) c = Inr () \<and> is_sequence st \<noteq> - 1 \<and>
     (\<exists>act. command_transition c (is_kernel st) bg = Inr (is_kernel st', act) \<and>
       en_action env = action_from_kernel act) \<and>
     en_version env = VERSION \<and> en_sequence env = is_sequence st + 1 \<and>
     en_previous_digest env = is_head st \<and> en_command env = c \<and>
     en_digest env = link sha256 (is_head st) (is_sequence st + 1) c (en_action env) \<and>
     is_sequence st' = en_sequence env \<and> is_head st' = en_digest env"
  by (cases st'; cases env)
    (auto simp: apply_without_commit_def and_then_Inr_iff checked_next_Inr_iff command_apply_Inr_iff
      Let_def)

lemmas extends_iff = extends_def [unfolded apply_without_commit_Inr_iff]

lemma extends_deterministic: "extends sha256 bg st env s1 \<Longrightarrow> extends sha256 bg st env s2 \<Longrightarrow> s1 = s2"
  by (simp add: extends_def)

subsection \<open>Live application\<close>

text \<open>A resource that no caller holds and no panic has poisoned.\<close>

definition idle :: "'a mutex \<Rightarrow> bool" where
  "idle m \<longleftrightarrow> \<not> mx_held m \<and> \<not> mx_poisoned m"

lemma locked_Inr_iff: "locked m = Inr x \<longleftrightarrow> idle m \<and> x = mx_data m"
  by (auto simp: locked_def mutex_try_lock_def idle_def)

lemma locked_Inl_iff:
  "locked m = Inl e \<longleftrightarrow>
     mx_held m \<and> e = InstanceBusy \<or> \<not> mx_held m \<and> mx_poisoned m \<and> e = ResourcePoisoned"
  by (auto simp: locked_def mutex_try_lock_def)

lemma idle_new [simp]: "idle (mutex_new x)" "mx_data (mutex_new x) = x"
  by (simp_all add: idle_def mutex_new_def)

definition live_put :: "live_instance \<Rightarrow> instance_state \<Rightarrow> live_instance" where
  "live_put live st = live\<lparr>li_inner := (li_inner live)\<lparr>mx_data := st\<rparr>\<rparr>"

lemma live_apply_Inr_iff:
  "live_apply sha256 live c = (Inr env, live') \<longleftrightarrow>
     idle (li_inner live) \<and> en_command env = c \<and>
     (\<exists>st'. extends sha256 (li_background live) (mx_data (li_inner live)) env st' \<and>
       live' = live_put live st')"
proof -
  have "live_apply sha256 live c = (Inr env, live') \<longleftrightarrow>
      (\<exists>st st'. locked (li_inner live) = Inr st \<and>
         apply_without_commit sha256 st (li_background live) c = Inr (st', env) \<and> live' = live_put live st')"
    by (auto simp: live_apply_def live_put_def split: sum.splits prod.splits)
  moreover have "apply_without_commit sha256 st bg c = Inr (st', env) \<longleftrightarrow>
      en_command env = c \<and> extends sha256 bg st env st'" for st bg st'
    by (auto simp: extends_def apply_without_commit_Inr_iff)
  ultimately show ?thesis by (auto simp: locked_Inr_iff)
qed

lemma live_apply_Inl: "live_apply sha256 live c = (Inl e, live') \<Longrightarrow> live' = live"
  by (auto simp: live_apply_def split: sum.splits prod.splits)

definition live_step :: "hash_function \<Rightarrow> live_instance \<Rightarrow> envelope_n \<Rightarrow> live_instance \<Rightarrow> bool" where
  "live_step sha256 live env live' \<longleftrightarrow> live_apply sha256 live (en_command env) = (Inr env, live')"

subsection \<open>Recovery\<close>

definition recovery_put :: "recovery_instance \<Rightarrow> instance_state option \<Rightarrow> recovery_instance" where
  "recovery_put rec slot = rec\<lparr>ri_inner := (ri_inner rec)\<lparr>mx_data := slot\<rparr>\<rparr>"

lemma recovery_slot_Inr_iff:
  "recovery_slot rec = Inr st \<longleftrightarrow> idle (ri_inner rec) \<and> mx_data (ri_inner rec) = Some st"
  by (auto simp: recovery_slot_def and_then_Inr_iff locked_Inr_iff split: option.splits)

text \<open>The link check of a replay is implied by the preflight of the replayed command.\<close>

lemma preflight_recovery_link: "preflight s n c = Inr () \<Longrightarrow> check_recovery_link s n = Inr ()"
  by (auto simp: preflight_def check_recovery_link_def check_state_def and_then_Inr_iff map_ok_Inr_iff)

lemma replay_error_Inr: "map_error replay_error r = Inr x \<longleftrightarrow> r = Inr x"
  by simp

lemma replay_check_Inr_iff:
  "replay_check sha256 st bg env = Inr st' \<longleftrightarrow> extends sha256 bg st env st'"
proof
  assume "replay_check sha256 st bg env = Inr st'"
  then obtain env' where r: "apply_without_commit sha256 st bg (en_command env) = Inr (st', env')"
    and eq: "en_version env = VERSION" "en_sequence env = is_sequence st + 1"
      "en_previous_digest env = is_head st" "en_action env' = en_action env" "en_digest env' = en_digest env"
    by (auto simp: replay_check_def and_then_Inr_iff checked_next_Inr_iff split: if_splits)
  then have "env' = env"
    by (intro envelope_n.equality) (auto simp: apply_without_commit_Inr_iff)
  with r show "extends sha256 bg st env st'" by (simp add: extends_def)
next
  assume ext: "extends sha256 bg st env st'"
  then have r: "apply_without_commit sha256 st bg (en_command env) = Inr (st', env)"
    by (simp add: extends_def)
  from ext have "check_recovery_link (is_kernel st) (is_sequence st) = Inr ()"
    by (auto simp: extends_iff intro: preflight_recovery_link)
  with ext r show "replay_check sha256 st bg env = Inr st'"
    by (auto simp: replay_check_def extends_iff checked_next_def)
qed

lemma recovery_replay_Inr_iff:
  "recovery_replay sha256 rec env = (Inr u, rec') \<longleftrightarrow>
     idle (ri_inner rec) \<and>
     (\<exists>st st'. mx_data (ri_inner rec) = Some st \<and> extends sha256 (ri_background rec) st env st' \<and>
       rec' = recovery_put rec (Some st'))"
proof -
  have "recovery_replay sha256 rec env = (Inr u, rec') \<longleftrightarrow>
      (\<exists>st st'. recovery_slot rec = Inr st \<and> replay_check sha256 st (ri_background rec) env = Inr st' \<and>
        rec' = recovery_put rec (Some st'))"
    by (cases "recovery_slot rec") (auto simp: recovery_replay_def recovery_put_def split: sum.splits)
  then show ?thesis by (auto simp: recovery_slot_Inr_iff replay_check_Inr_iff)
qed

lemma recovery_replay_Inl: "recovery_replay sha256 rec env = (Inl e, rec') \<Longrightarrow> rec' = rec"
  by (auto simp: recovery_replay_def split: sum.splits)

definition recovery_step ::
  "hash_function \<Rightarrow> recovery_instance \<Rightarrow> envelope_n \<Rightarrow> recovery_instance \<Rightarrow> bool" where
  "recovery_step sha256 rec env rec' \<longleftrightarrow> recovery_replay sha256 rec env = (Inr (), rec')"

lemma recovery_finalize_Inr_iff:
  "recovery_finalize rec expected = (Inr live, rec') \<longleftrightarrow>
     (\<exists>st. idle (ri_inner rec) \<and> mx_data (ri_inner rec) = Some st \<and>
       expected = \<lparr>cn_version = VERSION, cn_sequence = is_sequence st, cn_head = is_head st\<rparr> \<and>
       live = live_from_state (ri_background rec) st \<and> rec' = recovery_put rec None)"
proof -
  have "recovery_finalize rec expected = (Inr live, rec') \<longleftrightarrow>
      (\<exists>st. recovery_slot rec = Inr st \<and>
         expected = \<lparr>cn_version = VERSION, cn_sequence = is_sequence st, cn_head = is_head st\<rparr> \<and>
         live = live_from_state (ri_background rec) st \<and> rec' = recovery_put rec None)"
    by (cases expected; cases "recovery_slot rec") (auto simp: recovery_finalize_def recovery_put_def)
  then show ?thesis by (simp add: recovery_slot_Inr_iff)
qed

subsection \<open>Runs of both resources\<close>

text \<open>Runs of a live instance and of a recovery instance are runs of \<open>extends\<close>.\<close>

lemma live_run_iff:
  assumes "idle (li_inner live)"
  shows "run (live_step sha256) live es live' \<longleftrightarrow>
    (\<exists>st'. run (extends sha256 (li_background live)) (mx_data (li_inner live)) es st' \<and>
      live' = live_put live st')"
  using assms
proof (induction es arbitrary: live)
  case Nil
  then show ?case by (auto simp: live_put_def)
next
  case (Cons e es)
  have put: "idle (li_inner (live_put live st))" "li_background (live_put live st) = li_background live"
    "mx_data (li_inner (live_put live st)) = st" "live_put (live_put live st) st2 = live_put live st2" for st st2
    using Cons.prems by (auto simp: live_put_def idle_def)
  have step: "live_step sha256 live e t \<longleftrightarrow>
      (\<exists>st'. extends sha256 (li_background live) (mx_data (li_inner live)) e st' \<and> t = live_put live st')" for t
    using Cons.prems by (auto simp: live_step_def live_apply_Inr_iff)
  note IH = Cons.IH [OF put(1), unfolded put]
  show ?case
    unfolding run_Cons_iff step using IH by blast
qed

lemma recovery_run_iff:
  assumes "idle (ri_inner rec)" "mx_data (ri_inner rec) = Some st"
  shows "run (recovery_step sha256) rec es rec' \<longleftrightarrow>
    (\<exists>st'. run (extends sha256 (ri_background rec)) st es st' \<and> rec' = recovery_put rec (Some st'))"
  using assms
proof (induction es arbitrary: rec st)
  case Nil
  then show ?case by (auto simp: recovery_put_def)
next
  case (Cons e es)
  have put: "idle (ri_inner (recovery_put rec x))" "ri_background (recovery_put rec x) = ri_background rec"
    "mx_data (ri_inner (recovery_put rec x)) = x" "recovery_put (recovery_put rec x) y = recovery_put rec y" for x y
    using Cons.prems by (auto simp: recovery_put_def idle_def)
  have step: "recovery_step sha256 rec e t \<longleftrightarrow>
      (\<exists>st'. extends sha256 (ri_background rec) st e st' \<and> t = recovery_put rec (Some st'))" for t
    using Cons.prems by (auto simp: recovery_step_def recovery_replay_Inr_iff)
  note IH = Cons.IH [OF put(1) put(3), unfolded put]
  show ?case
    unfolding run_Cons_iff step using IH by blast
qed

subsection \<open>What a history says about the kernel\<close>

definition explained_step ::
  "background_theory \<Rightarrow> kernel_state \<Rightarrow> envelope_n \<Rightarrow> kernel_state \<Rightarrow> bool" where
  "explained_step bg s env s' \<longleftrightarrow> (\<exists>act. kstep bg s act s' \<and> en_action env = action_from_kernel act)"

interpretation history_kernel: simulation "extends sha256 bg" "explained_step bg" is_kernel for sha256 bg
  by unfold_locales (auto simp: extends_iff explained_step_def intro: command_transition_step)

lemma explained_run:
  "run (explained_step bg) s es s' \<Longrightarrow>
     \<exists>acts. run (kstep bg) s acts s' \<and> map en_action es = map action_from_kernel acts"
proof (induction rule: run.induct)
  case (run_nil s)
  show ?case by (rule exI [of _ "[]"]) simp
next
  case (run_cons s e s' es s'')
  then obtain act acts where "kstep bg s act s'" "en_action e = action_from_kernel act"
    "run (kstep bg) s' acts s''" "map en_action es = map action_from_kernel acts"
    by (auto simp: explained_step_def)
  then show ?case by (intro exI [of _ "act # acts"]) (auto intro: run.run_cons)
qed

text \<open>The capacity profile, the representation and the sequence bound hold in every instance state.\<close>

definition instance_inv :: "instance_state \<Rightarrow> bool" where
  "instance_inv st \<longleftrightarrow> state_wf (is_kernel st) \<and> check_state (is_kernel st) = Inr () \<and>
     unat (is_sequence st) \<le> MAX_ACCEPTED_SEQUENCE"

lemma check_initial_state: "check_state initial_state = Inr ()"
proof -
  have "outer_lengths_ok initial_state"
    by (simp add: outer_lengths_ok_def initial_state_def Let_def vs_len_def vm_len_def items_vs_insert
        entries_vm_insert vm_new_def limit_defs)
  moreover have "text_ok (retained_strings initial_state)"
    by (simp add: text_ok_def retained_strings_def set_strings_def map_strings_def key_string_def
        initial_state_def Let_def items_vs_insert entries_vm_insert vm_new_def root_id_def limit_defs)
  ultimately show ?thesis by (simp add: check_state_Inr_iff wf_initial)
qed

lemma extends_inv:
  assumes "instance_inv st" "extends sha256 bg st env st'"
  shows "instance_inv st'"
proof -
  from assms(2) obtain act where t: "command_transition (en_command env) (is_kernel st) bg = Inr (is_kernel st', act)"
    and p: "preflight (is_kernel st) (is_sequence st) (en_command env) = Inr ()"
    and n: "is_sequence st' = is_sequence st + 1"
    by (auto simp: extends_iff)
  have "unat (is_sequence st + 1) \<le> MAX_ACCEPTED_SEQUENCE"
    using p by (auto simp: preflight_def check_sequence_def and_then_Inr_iff checked_next_Inr_iff split: if_splits)
  with t p n assms(1) show ?thesis
    by (auto simp: instance_inv_def intro: command_transition_wf preflight_keeps_capacity)
qed

interpretation instances: invariant_system "\<lambda>st. st = instance_initial sha256 wire"
  "extends sha256 bg" instance_inv for sha256 wire bg
proof
  show "instance_inv st" if "st = instance_initial sha256 wire" for st
    using that by (simp add: instance_initial_def instance_inv_def wf_initial check_initial_state)
qed (rule extends_inv)

text \<open>The envelopes are numbered without gaps and each points at its predecessor.\<close>

fun chained :: "digest_n \<Rightarrow> envelope_n list \<Rightarrow> digest_n \<Rightarrow> bool" where
  "chained d [] d' \<longleftrightarrow> d = d'"
| "chained d (e # es) d' \<longleftrightarrow> en_previous_digest e = d \<and> chained (en_digest e) es d'"

lemma extends_run_chain:
  "run (extends sha256 bg) st es st' \<Longrightarrow>
     chained (is_head st) es (is_head st') \<and> is_sequence st' = is_sequence st + of_nat (length es) \<and>
     map en_sequence es = map (\<lambda>n. is_sequence st + of_nat (Suc n)) [0..<length es]"
proof (induction rule: run.induct)
  case (run_cons st e st' es st'')
  have "map (\<lambda>n. is_sequence st + of_nat (Suc n)) [0..<length (e # es)] =
      (is_sequence st + 1) # map (\<lambda>n. is_sequence st + 1 + of_nat (Suc n)) [0..<length es]"
    by (simp add: upt_conv_Cons map_Suc_upt [symmetric] algebra_simps del: upt_Suc)
  with run_cons show ?case by (auto simp: extends_iff algebra_simps)
qed simp

end
