(* ===== verification/History_Integrity.thy ===== *)
theory History_Integrity
  imports Native_History
begin

text \<open>
  What the head of a chain commits to. Two histories that end in the same sequence number and head
  have the same background, commands and actions, the set-valued lists of a command up to order, or
  they exhibit two different transcripts with the same SHA-256 value.
\<close>

subsection \<open>The strings of an accepted envelope are short\<close>

lemma check_values_Inr_iff:
  "check_values vs = Inr () \<longleftrightarrow> (\<forall>v \<in> set vs. length v \<le> MAX_OPAQUE_UTF8_BYTES)"
  by (simp add: check_values_def for_each_unit_Inr_iff)

lemma check_command_strings:
  "check_command c = Inr () \<Longrightarrow> \<forall>v \<in> set (command_strings c). length v \<le> MAX_OPAQUE_UTF8_BYTES"
  by (cases c)
    (auto simp: and_then_Inr_iff check_values_Inr_iff check_cross_input_def check_evidence_def
      cross_strings_def conformance_strings_def inspection_strings_def split: option.splits)

lemma pending_agent_retained:
  "vm_get (pending s) i = Some j \<Longrightarrow> agent_str (pi_agent j) \<in> set (retained_strings s)"
proof -
  assume "vm_get (pending s) i = Some j"
  then have "(i, j) \<in> set (entries (pending s))" by (rule vm_get_entry)
  moreover have "agent_str (pi_agent j) \<in> set (pending_strings (i, j))"
    by (simp add: pending_strings_def)
  ultimately have "agent_str (pi_agent j) \<in> set (map_strings pending_strings (pending s))"
    unfolding map_strings_def by auto
  then show ?thesis by (simp add: retained_strings_def)
qed

lemma action_strings_known:
  assumes "command_transition c s bg = Inr (s', act)"
  shows "set (action_strings (action_from_kernel act)) \<subseteq> set (command_strings c) \<union> set (retained_strings s)"
  using assms
proof (cases c)
  case (CmdSettleInvocation i out r)
  then show ?thesis
    using assms
    by (auto simp: settle_invocation_def Let_def resolution_into_kernel_def
        split: option.splits if_splits dest: pending_agent_retained)
next
  case (CmdBeginInvocation a i ch p egr ah auth)
  then show ?thesis
    using assms
    by (auto simp: begin_invocation_def Let_def policy_into_kernel_def
        split: if_splits verdict.splits enforcement_mode.splits)
next
  case (CmdGrantCrossing g a d n)
  then have "act = ActGrantCrossing (AgentId g) (AgentId a) (AssignmentDigest d) n"
    using assms by (auto simp: grant_crossing_def Let_def split: if_splits)
  with CmdGrantCrossing show ?thesis by simp
qed (auto simp: register_tool_def unregister_tool_def delegate_def grant_capability_def
    grant_crossing_def revoke_def cascade_revoke_def ingest_def authorize_inspected_def
    cross_output_def Let_def inspection_into_kernel_def inspection_strings_def cross_into_kernel_def
    cross_strings_def split: if_splits option.splits)

lemma opaque_short: "\<forall>v \<in> set vs. length v \<le> MAX_OPAQUE_UTF8_BYTES \<Longrightarrow> all_short vs"
  by (auto simp: all_short_def u32_length_def limit_defs)

lemma extends_short:
  assumes "instance_inv st" "extends sha256 bg st e st'"
  shows "all_short (command_strings (en_command e))" "all_short (action_strings (en_action e))"
proof -
  from assms(2) obtain act
    where t: "command_transition (en_command e) (is_kernel st) bg = Inr (is_kernel st', act)"
      "en_action e = action_from_kernel act"
      and "check_command (en_command e) = Inr ()"
    by (auto simp: extends_iff preflight_def and_then_Inr_iff)
  then have c: "\<forall>v \<in> set (command_strings (en_command e)). length v \<le> MAX_OPAQUE_UTF8_BYTES"
    by (simp add: check_command_strings)
  moreover have "\<forall>v \<in> set (retained_strings (is_kernel st)). length v \<le> MAX_OPAQUE_UTF8_BYTES"
    using assms(1) by (auto simp: instance_inv_def check_state_Inr_iff text_ok_def)
  ultimately have "\<forall>v \<in> set (action_strings (en_action e)). length v \<le> MAX_OPAQUE_UTF8_BYTES"
    using action_strings_known [OF t(1)] t(2) by auto
  with c show "all_short (command_strings (en_command e))" "all_short (action_strings (en_action e))"
    by (auto intro: opaque_short)
qed

subsection \<open>Histories and collisions\<close>

definition envelope_transcript :: "envelope_n \<Rightarrow> byte list" where
  "envelope_transcript e =
     link_transcript (en_previous_digest e) (en_sequence e) (en_command e) (en_action e)"

definition history_transcripts :: "background_n \<Rightarrow> envelope_n list \<Rightarrow> byte list set" where
  "history_transcripts w es = insert (genesis_transcript w) (envelope_transcript ` set es)"

definition collision :: "hash_function \<Rightarrow> byte list set \<Rightarrow> byte list set \<Rightarrow> bool" where
  "collision sha256 A B \<longleftrightarrow> (\<exists>x \<in> A. \<exists>y \<in> B. x \<noteq> y \<and> sha256 x = sha256 y)"

definition same_record :: "envelope_n \<Rightarrow> envelope_n \<Rightarrow> bool" where
  "same_record d e \<longleftrightarrow>
     en_version d = en_version e \<and> en_sequence d = en_sequence e \<and>
     en_previous_digest d = en_previous_digest e \<and> en_digest d = en_digest e \<and>
     canonical_command (en_command d) = canonical_command (en_command e) \<and> en_action d = en_action e"

lemma collision_mono: "collision sha256 A B \<Longrightarrow> A \<subseteq> C \<Longrightarrow> B \<subseteq> D \<Longrightarrow> collision sha256 C D"
  unfolding collision_def by blast

lemma extends_run_sequence:
  "run (extends sha256 bg) st es st' \<Longrightarrow> unat (is_sequence st') = unat (is_sequence st) + length es"
proof (induction rule: run.induct)
  case (run_cons st e st' es st'')
  then have "is_sequence st \<noteq> - 1" "is_sequence st' = is_sequence st + 1"
    by (auto simp: extends_iff)
  then have "unat (is_sequence st') = Suc (unat (is_sequence st))"
    using unatSuc [of "is_sequence st"] by (simp only: add_eq_0_iff add.commute simp_thms not_False_eq_True)
  with run_cons show ?case by simp
qed simp

lemma head_wf:
  assumes "\<And>x. length (sha256 x) = 32" "run (extends sha256 bg) (instance_initial sha256 w) es st"
  shows "digest_wf (is_head st)"
  using assms(2)
proof (cases es rule: rev_cases)
  case Nil
  then show ?thesis
    using assms by (simp add: instance_initial_def genesis_def digest_wf_def)
next
  case (snoc fs e)
  then show ?thesis
    using assms by (auto simp: run_append_iff run_Cons_iff extends_iff link_def digest_wf_def)
qed

text \<open>One link: equal digests give equal contents, or a collision.\<close>

lemma extends_link:
  assumes sha: "\<And>x. length (sha256 x) = 32"
    and d: "instance_inv s" "digest_wf (is_head s)" "extends sha256 bg s d s'"
    and e: "instance_inv t" "digest_wf (is_head t)" "extends sha256 bg' t e t'"
    and head: "is_head s' = is_head t'"
  shows "same_record d e \<and> is_head s = is_head t \<or>
    collision sha256 {envelope_transcript d} {envelope_transcript e}"
proof (cases "envelope_transcript d = envelope_transcript e")
  case True
  have "en_previous_digest d = is_head s" "en_previous_digest e = is_head t"
    using d e by (auto simp: extends_iff)
  with True d e have "en_previous_digest d = en_previous_digest e" "en_sequence d = en_sequence e"
    "canonical_command (en_command d) = canonical_command (en_command e)" "en_action d = en_action e"
    using extends_short [OF d(1,3)] extends_short [OF e(1,3)]
    by (simp_all add: envelope_transcript_def link_transcript_inject)
  with d e head show ?thesis by (auto simp: same_record_def extends_iff)
next
  case False
  moreover have "sha256 (envelope_transcript d) = sha256 (envelope_transcript e)"
    using d e head by (auto simp: extends_iff link_def envelope_transcript_def)
  ultimately show ?thesis by (simp add: collision_def)
qed

lemma histories_agree:
  assumes sha: "\<And>x. length (sha256 x) = 32"
  shows "run (extends sha256 bg) (instance_initial sha256 v) ds s \<Longrightarrow>
     run (extends sha256 bg') (instance_initial sha256 w) es t \<Longrightarrow>
     length ds = length es \<Longrightarrow> is_head s = is_head t \<Longrightarrow>
     background_view v = background_view w \<and> list_all2 same_record ds es \<or>
     collision sha256 (history_transcripts v ds) (history_transcripts w es)"
proof (induction ds arbitrary: es s t rule: rev_induct)
  case Nil
  then show ?case
    by (cases "genesis_transcript v = genesis_transcript w")
      (auto simp: instance_initial_def genesis_def genesis_transcript_inject collision_def
        history_transcripts_def)
next
  case (snoc d ds)
  then obtain fs e where es: "es = fs @ [e]" by (cases es rule: rev_cases) auto
  from snoc.prems(1) obtain s1 where s1: "run (extends sha256 bg) (instance_initial sha256 v) ds s1"
    "extends sha256 bg s1 d s" by (auto simp: run_append_iff run_Cons_iff)
  from snoc.prems(2) obtain t1 where t1: "run (extends sha256 bg') (instance_initial sha256 w) fs t1"
    "extends sha256 bg' t1 e t" by (auto simp: es run_append_iff run_Cons_iff)
  have inv: "instance_inv s1" "instance_inv t1"
    using instances.inv_reachable [OF refl s1(1)] instances.inv_reachable [OF refl t1(1)] .
  have sub: "history_transcripts v ds \<subseteq> history_transcripts v (ds @ [d])"
    "history_transcripts w fs \<subseteq> history_transcripts w es"
    "{envelope_transcript d} \<subseteq> history_transcripts v (ds @ [d])"
    "{envelope_transcript e} \<subseteq> history_transcripts w es"
    by (auto simp: history_transcripts_def es)
  consider (same) "same_record d e" "is_head s1 = is_head t1"
    | (clash) "collision sha256 {envelope_transcript d} {envelope_transcript e}"
    using extends_link [OF sha inv(1) head_wf [OF sha s1(1)] s1(2) inv(2) head_wf [OF sha t1(1)] t1(2)
        snoc.prems(4)] by blast
  then show ?case
  proof cases
    case same
    have "background_view v = background_view w \<and> list_all2 same_record ds fs \<or>
        collision sha256 (history_transcripts v ds) (history_transcripts w fs)"
      by (rule snoc.IH [OF s1(1) t1(1)]) (use snoc.prems(3) same(2) in \<open>simp_all add: es\<close>)
    then show ?thesis
      using same(1) collision_mono [OF _ sub(1,2)] by (auto simp: es list_all2_appendI)
  next
    case clash
    then show ?thesis using collision_mono [OF _ sub(3,4)] by blast
  qed
qed

end
