(* ===== verification/Instance_Concurrency.thy ===== *)
theory Instance_Concurrency
  imports Native_History
begin

text \<open>
  Concurrent calls of \<open>instance_apply\<close> on one shared resource. A call first tries the lock: it is
  refused at once, or it runs with the lock held until it finishes, or a panic inside the transition
  poisons the lock before anything was committed. Calls of different threads interleave at these
  points.
\<close>

record 't shared =
  sh_live :: live_instance
  sh_running :: "'t \<rightharpoonup> command_n"

datatype 't call_event =
    Entered 't command_n
  | Returned 't "error_n + envelope_n"
  | Panicked 't

definition hold :: "live_instance \<Rightarrow> live_instance" where
  "hold live = live\<lparr>li_inner := (li_inner live)\<lparr>mx_held := True\<rparr>\<rparr>"

definition release :: "live_instance \<Rightarrow> live_instance" where
  "release live = live\<lparr>li_inner := (li_inner live)\<lparr>mx_held := False\<rparr>\<rparr>"

definition poison :: "live_instance \<Rightarrow> live_instance" where
  "poison live = live\<lparr>li_inner := (li_inner live)\<lparr>mx_held := False, mx_poisoned := True\<rparr>\<rparr>"

inductive call_step ::
  "hash_function \<Rightarrow> 't shared \<Rightarrow> 't call_event \<Rightarrow> 't shared \<Rightarrow> bool" for sha256 where
  refused: "sh_running sh t = None \<Longrightarrow> locked (li_inner (sh_live sh)) = Inl e \<Longrightarrow>
     call_step sha256 sh (Returned t (Inl e)) sh"
| entered: "sh_running sh t = None \<Longrightarrow> locked (li_inner (sh_live sh)) = Inr st \<Longrightarrow>
     call_step sha256 sh (Entered t c)
       (sh\<lparr>sh_live := hold (sh_live sh), sh_running := (sh_running sh)(t \<mapsto> c)\<rparr>)"
| finished: "sh_running sh t = Some c \<Longrightarrow> live_apply sha256 (release (sh_live sh)) c = (res, live') \<Longrightarrow>
     call_step sha256 sh (Returned t res) (sh\<lparr>sh_live := live', sh_running := (sh_running sh)(t := None)\<rparr>)"
| panicked: "sh_running sh t = Some c \<Longrightarrow>
     call_step sha256 sh (Panicked t)
       (sh\<lparr>sh_live := poison (sh_live sh), sh_running := (sh_running sh)(t := None)\<rparr>)"

inductive_cases call_stepE: "call_step sha256 sh ev sh'"

text \<open>The envelopes handed out, in the order in which the calls return.\<close>

fun emitted :: "'t call_event \<Rightarrow> envelope_n list" where
  "emitted (Returned t (Inr env)) = [env]"
| "emitted ev = []"

definition sh_new :: "live_instance \<Rightarrow> 't shared" where
  "sh_new live = \<lparr>sh_live = live, sh_running = Map.empty\<rparr>"

text \<open>At most one call runs, and exactly while the lock is held.\<close>

definition exclusive :: "'t shared \<Rightarrow> bool" where
  "exclusive sh \<longleftrightarrow>
     (mx_held (li_inner (sh_live sh)) \<longrightarrow>
        \<not> mx_poisoned (li_inner (sh_live sh)) \<and> (\<exists>t c. sh_running sh = [t \<mapsto> c])) \<and>
     (\<not> mx_held (li_inner (sh_live sh)) \<longrightarrow> sh_running sh = Map.empty)"

lemma live_apply_frame:
  "live_apply sha256 live c = (res, live') \<Longrightarrow>
     mx_held (li_inner live') = mx_held (li_inner live) \<and>
     mx_poisoned (li_inner live') = mx_poisoned (li_inner live) \<and> li_background live' = li_background live"
  by (auto simp: live_apply_def split: sum.splits prod.splits)

lemma exclusive_step: "exclusive sh \<Longrightarrow> call_step sha256 sh ev sh' \<Longrightarrow> exclusive sh'"
  by (erule call_stepE)
    (auto simp: exclusive_def hold_def release_def poison_def locked_Inr_iff idle_def
      dest: live_apply_frame split: if_splits)

lemma emitted_step:
  assumes "exclusive sh" "call_step sha256 sh ev sh'"
  shows "run (extends sha256 (li_background (sh_live sh))) (mx_data (li_inner (sh_live sh))) (emitted ev)
      (mx_data (li_inner (sh_live sh'))) \<and> li_background (sh_live sh') = li_background (sh_live sh)"
  using assms(2)
proof (cases rule: call_step.cases)
  case (finished t c res live')
  have frame: "li_background (release l) = li_background l" "mx_data (li_inner (release l)) = mx_data (li_inner l)" for l
    by (simp_all add: release_def)
  show ?thesis
  proof (cases res)
    case (Inl e)
    with finished live_apply_Inl [of sha256 "release (sh_live sh)" c e live'] show ?thesis
      by (simp add: frame)
  next
    case (Inr env)
    with finished(4) have "extends sha256 (li_background (sh_live sh)) (mx_data (li_inner (sh_live sh))) env
        (mx_data (li_inner live'))" "li_background live' = li_background (sh_live sh)"
      by (auto simp: live_apply_Inr_iff frame live_put_def)
    with finished Inr show ?thesis by (simp add: run_Cons_iff)
  qed
qed (simp_all add: hold_def poison_def)

lemma emitted_run:
  assumes "run (call_step sha256) sh evs sh'" "exclusive sh"
  shows "run (extends sha256 (li_background (sh_live sh))) (mx_data (li_inner (sh_live sh)))
      (concat (map emitted evs)) (mx_data (li_inner (sh_live sh'))) \<and> exclusive sh' \<and>
    li_background (sh_live sh') = li_background (sh_live sh)"
  using assms
proof (induction rule: run.induct)
  case (run_cons sh ev sh' evs sh'')
  have ex: "exclusive sh'" by (rule exclusive_step [OF run_cons.prems run_cons.hyps(1)])
  show ?case
    using emitted_step [OF run_cons.prems run_cons.hyps(1)] run_cons.IH [OF ex]
    by (auto intro: run_append)
qed (simp add: exclusive_def)

interpretation calls: invariant_system "\<lambda>sh. \<exists>live. idle (li_inner live) \<and> sh = sh_new live"
  "call_step sha256" exclusive for sha256
proof
  show "exclusive sh" if "\<exists>live. idle (li_inner live) \<and> sh = sh_new live" for sh :: "'a shared"
    using that by (auto simp: exclusive_def sh_new_def idle_def)
qed (rule exclusive_step)

text \<open>After a panic the lock stays poisoned and every call is refused.\<close>

definition poisoned :: "'t shared \<Rightarrow> bool" where
  "poisoned sh \<longleftrightarrow> mx_poisoned (li_inner (sh_live sh)) \<and> \<not> mx_held (li_inner (sh_live sh)) \<and>
     sh_running sh = Map.empty"

lemma poisoned_step:
  "poisoned sh \<Longrightarrow> call_step sha256 sh ev sh' \<Longrightarrow>
     sh' = sh \<and> (\<exists>t. ev = Returned t (Inl ResourcePoisoned))"
  by (erule call_stepE) (auto simp: poisoned_def locked_Inr_iff locked_Inl_iff idle_def)

end
