(* ===== verification/Native_Lifetime.thy ===== *)
theory Native_Lifetime
  imports Native_History
begin

text \<open>
  The lifetime of a native instance: every accepted command advances the sequence number, which the
  preflight bounds, so no instance accepts commands for ever. The bound is attained: an instance that
  registers and unregisters one tool in turn is refused only when the sequence is exhausted.
\<close>

subsection \<open>The sequence bounds every run\<close>

lemma preflight_sequence: "preflight s n c = Inr () \<Longrightarrow> n \<noteq> - 1 \<and> unat (n + 1) \<le> MAX_ACCEPTED_SEQUENCE"
  by (auto simp: preflight_def check_sequence_def and_then_Inr_iff checked_next_Inr_iff split: if_splits)

lemma extends_sequence:
  assumes "extends sha256 bg st env st'"
  shows "unat (is_sequence st') = Suc (unat (is_sequence st))" "unat (is_sequence st') \<le> MAX_ACCEPTED_SEQUENCE"
proof -
  have "is_sequence st' = is_sequence st + 1" "is_sequence st \<noteq> - 1"
    "unat (is_sequence st + 1) \<le> MAX_ACCEPTED_SEQUENCE"
    using assms preflight_sequence by (auto simp: extends_iff)
  moreover from this have "unat (is_sequence st + 1) = Suc (unat (is_sequence st))"
    by (metis add.inverse_inverse add_eq_0_iff unatSuc add.commute)
  ultimately show "unat (is_sequence st') = Suc (unat (is_sequence st))"
    "unat (is_sequence st') \<le> MAX_ACCEPTED_SEQUENCE" by simp_all
qed

definition commands_left :: "instance_state \<Rightarrow> nat" where
  "commands_left st = MAX_ACCEPTED_SEQUENCE - unat (is_sequence st)"

lemma extends_commands_left:
  "extends sha256 bg st env st' \<Longrightarrow> commands_left st = Suc (commands_left st')"
  using extends_sequence [of sha256 bg st env st'] by (simp add: commands_left_def)

lemma extends_wf: "wf {(st', st). \<exists>env. extends sha256 bg st env st'}"
  by (rule wf_subset [OF wf_measure [of commands_left]]) (auto dest: extends_commands_left)

lemma extends_run_length:
  "run (extends sha256 bg) st es st' \<Longrightarrow> length es + commands_left st' = commands_left st"
  by (induction rule: run.induct) (auto dest: extends_commands_left)

lemma preflight_exhausted:
  assumes "commands_left st = 0"
  shows "preflight s (is_sequence st) c = Inl SequenceExhausted"
proof (cases "is_sequence st = - 1")
  case False
  then have "unat (is_sequence st + 1) = Suc (unat (is_sequence st))"
    by (metis add.inverse_inverse add_eq_0_iff unatSuc add.commute)
  then show ?thesis
    using assms False by (simp add: preflight_def check_sequence_def checked_next_def commands_left_def)
qed (simp add: preflight_def check_sequence_def checked_next_def)

lemma exhausted_refuses:
  "idle (li_inner live) \<Longrightarrow> commands_left (mx_data (li_inner live)) = 0 \<Longrightarrow>
     live_apply sha256 live c = (Inl SequenceExhausted, live)"
  by (simp add: live_apply_def locked_def mutex_try_lock_def idle_def apply_without_commit_def preflight_exhausted)

subsection \<open>The bound is attained\<close>

definition registered :: "string list \<Rightarrow> kernel_state" where
  "registered names = initial_state\<lparr>tool_registered := VecSet (map ToolId names)\<rparr>"

lemma initial_state_explicit:
  "initial_state =
     \<lparr>agent_active = VecSet [AgentId ''root''], agent_parent = VecMap [],
      agent_cap = VecMap [(AgentId ''root'', VecSet cap_all)], taint_levels = VecMap [], integ_levels = VecMap [],
      pending = VecMap [], challenges = VecMap [], consumed_ids = VecSet [], consumed_attestations = VecSet [],
      consumed_crossings = VecSet [], crossing_grants = VecMap [], tool_registered = VecSet []\<rparr>"
  by code_simp

lemma length_cap_all: "length cap_all = 15"
  by (simp add: cap_all_def)

lemmas evaluate_limits = registered_def root_id_def initial_state_explicit length_cap_all
  preflight_def check_sequence_def checked_next_def check_recovery_link_def check_state_def checked_state_text_def
  check_state_shape_def retained_text_def check_values_def text_add_all_def text_add_def check_len_def
  checked_capacity_def limit_defs MAX_ACCEPTED_SEQUENCE_def vs_len_def vm_len_def

text \<open>Every second state has the tool.\<close>

definition toggled :: "nat \<Rightarrow> kernel_state" where
  "toggled n = (if even n then initial_state else registered [''t''])"

definition toggle_command :: "nat \<Rightarrow> command_n" where
  "toggle_command n = (if even n then CmdRegisterTool ''t'' else CmdUnregisterTool ''t'')"

definition toggle_action :: "nat \<Rightarrow> action_n" where
  "toggle_action n = (if even n then NActRegisterTool ''t'' else NActUnregisterTool ''t'')"

lemma check_sequence_of_nat: "n < MAX_ACCEPTED_SEQUENCE \<Longrightarrow> check_sequence (of_nat n) = Inr ()"
proof -
  assume n: "n < MAX_ACCEPTED_SEQUENCE"
  then have "unat (of_nat (Suc n) :: u64) = Suc n"
    unfolding unat_of_nat by (simp add: MAX_ACCEPTED_SEQUENCE_def)
  moreover have "(of_nat n :: u64) \<noteq> - 1"
  proof
    assume "(of_nat n :: u64) = - 1"
    then have "(of_nat (Suc n) :: u64) = 0" by simp
    with \<open>unat (of_nat (Suc n) :: u64) = Suc n\<close> show False by simp
  qed
  ultimately show ?thesis
    using n by (simp add: check_sequence_def checked_next_def add.commute)
qed

lemma toggle_preflight:
  assumes "n < MAX_ACCEPTED_SEQUENCE"
  shows "preflight (toggled n) (of_nat n) (toggle_command n) = Inr ()"
proof -
  have "preflight s (of_nat n) c = preflight s 0 c" for s c
    using check_sequence_of_nat [OF assms] check_sequence_of_nat [of 0]
    by (simp add: preflight_def MAX_ACCEPTED_SEQUENCE_def)
  moreover have "preflight initial_state 0 (CmdRegisterTool ''t'') = Inr ()"
    "preflight (registered [''t'']) 0 (CmdUnregisterTool ''t'') = Inr ()"
    by (simp_all add: evaluate_limits)
  ultimately show ?thesis by (simp add: toggled_def toggle_command_def)
qed

lemma toggle_apply: "command_apply (toggle_command n) (toggled n) bg = Inr (toggled (Suc n), toggle_action n)"
proof -
  have "command_apply (CmdRegisterTool ''t'') initial_state bg = Inr (registered [''t''], NActRegisterTool ''t'')"
    "command_apply (CmdUnregisterTool ''t'') (registered [''t'']) bg = Inr (initial_state, NActUnregisterTool ''t'')"
    by code_simp+
  then show ?thesis by (simp add: toggled_def toggle_command_def toggle_action_def)
qed

lemma toggle_step:
  assumes "n < MAX_ACCEPTED_SEQUENCE" "is_kernel st = toggled n" "is_sequence st = of_nat n"
  shows "\<exists>env st'. extends sha256 bg st env st' \<and> is_kernel st' = toggled (Suc n) \<and> is_sequence st' = of_nat (Suc n)"
proof -
  obtain st' env where step: "apply_without_commit sha256 st bg (toggle_command n) = Inr (st', env)"
    and st': "is_kernel st' = toggled (Suc n)" "is_sequence st' = of_nat (Suc n)"
    using toggle_preflight [OF assms(1)] toggle_apply [of n bg] check_sequence_of_nat [OF assms(1)] assms(2,3)
    by (simp add: apply_without_commit_def Let_def check_sequence_def checked_next_def add.commute split: if_splits)
  from step have "en_command env = toggle_command n"
    by (simp add: apply_without_commit_Inr_iff)
  with step have "extends sha256 bg st env st'" by (simp add: extends_def)
  with st' show ?thesis by blast
qed

lemma toggle_run:
  "n \<le> MAX_ACCEPTED_SEQUENCE \<Longrightarrow>
     \<exists>es st. length es = n \<and> run (extends sha256 bg) (instance_initial sha256 wire) es st \<and>
       is_kernel st = toggled n \<and> is_sequence st = of_nat n"
proof (induction n)
  case 0
  then show ?case
    by (intro exI [of _ "[]"]) (simp add: instance_initial_def toggled_def)
next
  case (Suc n)
  then obtain es st where es: "length es = n" "run (extends sha256 bg) (instance_initial sha256 wire) es st"
    "is_kernel st = toggled n" "is_sequence st = of_nat n" by auto
  obtain env st' where "extends sha256 bg st env st'" "is_kernel st' = toggled (Suc n)" "is_sequence st' = of_nat (Suc n)"
    using toggle_step [OF _ es(3,4)] Suc.prems by (meson Suc_le_eq)
  with es(1) run_snoc [OF es(2)] show ?case
    by (intro exI [of _ "es @ [env]"] exI [of _ st']) simp
qed

subsection \<open>The lifetime of an instance\<close>

text \<open>
  C6. An instance stops: the relation of one accepted command is well founded, so there is no infinite
  run from any state; an instance accepts at most 100000 commands after its genesis, some instance
  accepts exactly that many, and after them every command is refused with \<open>SequenceExhausted\<close> and
  changes nothing.
\<close>

theorem instance_lifetime:
  "wf {(st', st). \<exists>env. extends sha256 bg st env st'} \<and>
   (\<forall>es st. run (extends sha256 bg) (instance_initial sha256 wire) es st \<longrightarrow>
      length es \<le> MAX_ACCEPTED_SEQUENCE \<and>
      (length es = MAX_ACCEPTED_SEQUENCE \<longrightarrow>
         live_apply sha256 (live_from_state bg st) c = (Inl SequenceExhausted, live_from_state bg st))) \<and>
   (\<exists>es st. length es = MAX_ACCEPTED_SEQUENCE \<and> run (extends sha256 bg) (instance_initial sha256 wire) es st)"
proof -
  have start: "commands_left (instance_initial sha256 wire) = MAX_ACCEPTED_SEQUENCE"
    by (simp add: commands_left_def instance_initial_def)
  have idle: "idle (li_inner (live_from_state bg st))" "mx_data (li_inner (live_from_state bg st)) = st" for st
    by (simp_all add: live_from_state_def)
  have "length es \<le> MAX_ACCEPTED_SEQUENCE \<and>
      (length es = MAX_ACCEPTED_SEQUENCE \<longrightarrow>
         live_apply sha256 (live_from_state bg st) c = (Inl SequenceExhausted, live_from_state bg st))"
    if "run (extends sha256 bg) (instance_initial sha256 wire) es st" for es st
    using extends_run_length [OF that] start idle by (auto intro: exhausted_refuses)
  with extends_wf toggle_run [OF order_refl, of sha256 bg wire] show ?thesis by blast
qed

theorem instance_lifetime_witness:
  "\<exists>(es :: envelope_n list) st. length es = 100000 \<and>
     live_apply (\<lambda>_. replicate 32 0) (live_from_state (builder_build builder_new) st) (CmdRegisterTool ''t'') =
       (Inl SequenceExhausted, live_from_state (builder_build builder_new) st)"
proof -
  note life = instance_lifetime [of "\<lambda>_. replicate 32 0" "builder_build builder_new"
      "\<lparr>bn_mode = EnforceN, bn_allow_ceiling = (\<lambda>_. None), bn_inspect_ceiling = (\<lambda>_. None)\<rparr>" "CmdRegisterTool ''t''",
      unfolded MAX_ACCEPTED_SEQUENCE_def, THEN conjunct2]
  from life [THEN conjunct2] obtain es st where "length es = 100000"
    "run (extends (\<lambda>_. replicate 32 0) (builder_build builder_new)) (instance_initial (\<lambda>_. replicate 32 0)
      \<lparr>bn_mode = EnforceN, bn_allow_ceiling = (\<lambda>_. None), bn_inspect_ceiling = (\<lambda>_. None)\<rparr>) es st"
    by (elim exE conjE)
  with life [THEN conjunct1] show ?thesis
    by (intro exI [of _ es] exI [of _ st]) simp
qed

end
