(* ===== verification/Service_Properties.thy ===== *)
theory Service_Properties
  imports Kernel_Driver History_Integrity Instance_Concurrency Native_Lifetime
begin

text \<open>
  The properties of the layers around the transitions: the driver of \<open>kernel.rs\<close> and the native
  service of \<open>argus_nif\<close> (wire types, capacity profile, chained histories, recovery, observation
  and concurrent calls), each with a witness at concrete inputs.
\<close>

section \<open>The driver\<close>

text \<open>
  C28. The driver commits after appending: a refused call leaves state, sequence number and
  background alone, and a successful one has appended the event it returns, which carries the next
  sequence number and records exactly the transition from the old to the new state.
\<close>

theorem driver_appends_before_commit:
  assumes "driver_call sink k res k'"
  shows "k_background k' = k_background k \<and> k_authorizer k' = k_authorizer k \<and>
    (case res of
       Inl e \<Rightarrow> k_state k' = k_state k \<and> k_sequence k' = k_sequence k
     | Inr ev \<Rightarrow>
         ev_sequence ev = k_sequence k + 1 \<and> k_sequence k' = k_sequence k + 1 \<and>
         kstep (k_background k) (k_state k) (ev_action ev) (k_state k') \<and>
         fst (sink (k_events k) ev) = Inr () \<and> snd (sink (k_events k) ev) = k_events k')"
proof -
  obtain r where r: "kernel_apply sink k r = (res, k')"
    and step: "\<forall>s' act. r = Inr (s', act) \<longrightarrow> kstep (k_background k) (k_state k) act s'"
    using driver_call_apply [OF assms] by blast
  show ?thesis
    using r step by (cases res) (auto dest!: kernel_apply_error kernel_apply_ok)
qed

definition demo_sink :: "kernel_event list event_append" where
  "demo_sink st ev = (Inr (), st @ [ev])"

definition demo_kernel :: "kernel_event list kernel" where
  "demo_kernel = kernel_new (demo_bg Enforce) (\<lambda>_ _ _ _ _. True) []"

lemma demo_driver_call:
  "\<exists>k'. driver_call demo_sink demo_kernel (Inr \<lparr>ev_sequence = 1, ev_action = ActRegisterTool mailer\<rparr>) k' \<and>
     k_events k' = [\<lparr>ev_sequence = 1, ev_action = ActRegisterTool mailer\<rparr>]"
proof -
  have reg: "register_tool initial_state mailer =
      Inr (initial_state\<lparr>tool_registered := vs_insert vs_new mailer\<rparr>, ActRegisterTool mailer)"
    by code_simp
  let ?k = "demo_kernel\<lparr>k_events := [\<lparr>ev_sequence = 1, ev_action = ActRegisterTool mailer\<rparr>],
    k_sequence := 1, k_state := initial_state\<lparr>tool_registered := vs_insert vs_new mailer\<rparr>\<rparr>"
  from reg have "kernel_register_tool demo_sink demo_kernel mailer =
      (Inr \<lparr>ev_sequence = 1, ev_action = ActRegisterTool mailer\<rparr>, ?k)"
    by (simp add: kernel_register_tool_def kernel_apply_def demo_kernel_def kernel_new_def
        demo_sink_def kernel_event_new_def Let_def)
  from call_register [OF this] show ?thesis by (intro exI [of _ ?k]) simp
qed

theorem driver_appends_before_commit_witness:
  "\<exists>k' :: kernel_event list kernel. k_sequence k' = k_sequence demo_kernel + 1 \<and>
     kstep (demo_bg Enforce) initial_state (ActRegisterTool mailer) (k_state k')"
proof -
  obtain k' where "driver_call demo_sink demo_kernel (Inr \<lparr>ev_sequence = 1, ev_action = ActRegisterTool mailer\<rparr>) k'"
    using demo_driver_call by blast
  from driver_appends_before_commit [OF this] show ?thesis
    by (auto simp: demo_kernel_def kernel_new_def intro!: exI [of _ k'])
qed

text \<open>
  C29. The log explains the state: over a store whose successful appends extend its log and whose
  failed ones do not, after any calls from a fresh kernel the logged actions, in order, lead the
  transition system from the initial state to the driver's state, and the logged sequence numbers
  are 1, 2, 3 and so on up to the driver's own.
\<close>

theorem driver_log_explains_state:
  assumes "event_sink sink log" "log events = []"
    "run (\<lambda>k res k'. driver_call sink k res k') (kernel_new bg authorizer events) results k"
  shows "run (kstep bg) initial_state (map ev_action (log (k_events k))) (k_state k) \<and>
    map ev_sequence (log (k_events k)) = map (\<lambda>n. of_nat (Suc n)) [0..<length (log (k_events k))] \<and>
    k_sequence k = of_nat (length (log (k_events k)))"
proof -
  have "logged bg log (kernel_new bg authorizer events)"
    by (rule logged_new) (rule assms(2))
  then have "logged bg log k" using driver.inv_run [OF assms(3)] assms(1) by blast
  then show ?thesis by (simp add: logged_def)
qed

theorem driver_log_explains_state_witness:
  "\<exists>k :: kernel_event list kernel. run (kstep (demo_bg Enforce)) initial_state [ActRegisterTool mailer] (k_state k)"
proof -
  let ?ev = "\<lparr>ev_sequence = 1, ev_action = ActRegisterTool mailer\<rparr>"
  obtain k' where k': "driver_call demo_sink demo_kernel (Inr ?ev) k'" "k_events k' = [?ev]"
    using demo_driver_call by blast
  have "event_sink demo_sink (\<lambda>st. st)" by (simp add: event_sink_def demo_sink_def)
  from driver_log_explains_state [OF this refl, of "demo_bg Enforce" "\<lambda>_ _ _ _ _. True" "[Inr ?ev]" k']
    k' show ?thesis
    by (intro exI [of _ k']) (simp add: run_Cons_iff demo_kernel_def)
qed

section \<open>The wire\<close>

text \<open>
  C30. The wire carries the kernel's values without loss: decoding undoes encoding for policies
  without repetitions, evidence, crossing inputs and admissions, different actions and errors are
  encoded differently, and the decoded background has the described mode, the fixed root, and gates
  that compare with the described ceilings, an absent or empty ceiling admitting nothing.
\<close>

theorem wire_faithful:
  assumes "policy_wf p"
  shows "policy_into_kernel (policy_from_kernel p) = p \<and>
    inspection_into_kernel (inspection_from_kernel ia) = ia \<and>
    resolution_into_kernel (resolution_from_kernel ra) = ra \<and>
    conformance_into_kernel (conformance_from_kernel ca) = ca \<and>
    cross_into_kernel (cross_from_kernel q) = q \<and> admission_into_kernel (admission_from_kernel d) = d \<and>
    (action_from_kernel a = action_from_kernel b \<longleftrightarrow> a = b) \<and>
    (error_from_kernel e = error_from_kernel f \<longleftrightarrow> e = f) \<and>
    bg_mode (background_into_kernel w) = mode_into_kernel (bn_mode w) \<and>
    root_agent (background_into_kernel w) = root_id \<and>
    (flow_allows (background_into_kernel w) l x \<longleftrightarrow>
       (\<exists>c. flatten (bn_allow_ceiling w (egress_from_kernel x)) = Some c \<and> l \<le> conf_into_kernel c)) \<and>
    (flow_inspects (background_into_kernel w) l x \<longleftrightarrow>
       (\<exists>c. flatten (bn_inspect_ceiling w (egress_from_kernel x)) = Some c \<and> l \<le> conf_into_kernel c))"
  using assms
  by (simp add: policy_wire_inverse_kernel action_from_kernel_inj error_from_kernel_inj
      background_into_kernel_fields background_into_kernel_gates)

theorem wire_faithful_witness:
  "policy_into_kernel (policy_from_kernel demo_policy) = demo_policy"
proof -
  have "policy_wf demo_policy" by code_simp
  from wire_faithful [OF this] show ?thesis by blast
qed

section \<open>The capacity profile\<close>

text \<open>
  A native session for the witnesses: a checksum in place of SHA-256, and the envelope of a first
  accepted command.
\<close>

definition demo_hash :: hash_function where
  "demo_hash bytes = replicate 31 0 @ [fold (+) bytes 0]"

definition demo_wire :: background_n where
  "demo_wire = \<lparr>bn_mode = EnforceN,
     bn_allow_ceiling = (\<lambda>e. if e = NEgNetworkExternal then Some (Some InternalN) else None),
     bn_inspect_ceiling = (\<lambda>e. if e = NEgNetworkExternal then Some (Some SensitiveN) else Some None)\<rparr>"

abbreviation demo_start :: instance_state where
  "demo_start \<equiv> instance_initial demo_hash demo_wire"

definition demo_envelope :: envelope_n where
  "demo_envelope =
     \<lparr>en_version = VERSION, en_sequence = 1, en_previous_digest = genesis demo_hash demo_wire,
      en_digest = link demo_hash (genesis demo_hash demo_wire) 1 (CmdRegisterTool ''t'') (NActRegisterTool ''t''),
      en_command = CmdRegisterTool ''t'', en_action = NActRegisterTool ''t''\<rparr>"

definition demo_registered :: kernel_state where
  "demo_registered = initial_state\<lparr>tool_registered := vs_insert vs_new (ToolId ''t'')\<rparr>"

definition demo_next :: instance_state where
  "demo_next = \<lparr>is_kernel = demo_registered, is_sequence = 1, is_head = en_digest demo_envelope\<rparr>"

lemma demo_preflight: "preflight initial_state 0 (CmdRegisterTool ''t'') = Inr ()"
proof -
  obtain b where b: "checked_state_text initial_state = Inr b" "b \<le> 8"
  proof -
    obtain b where b: "checked_state_text initial_state = Inr b"
      using check_initial_state by (auto simp: check_state_def map_ok_Inr_iff)
    then have "b = sum_list (map length (retained_strings initial_state))"
      by (auto simp: checked_state_text_def and_then_Inr_iff retained_text_Inr_iff fits_def)
    also have "\<dots> = 8"
      by (simp add: retained_strings_def set_strings_def map_strings_def key_string_def
          initial_state_def Let_def items_vs_insert entries_vm_insert vm_new_def root_id_def)
    finally show thesis using that b by simp
  qed
  then show ?thesis
    by (simp add: preflight_def check_sequence_def checked_next_def MAX_ACCEPTED_SEQUENCE_def
        check_values_def check_len_def text_add_def checked_capacity_def limit_defs
        initial_state_def Let_def vs_len_def)
qed

lemma demo_register: "register_tool initial_state (ToolId ''t'') = Inr (demo_registered, ActRegisterTool (ToolId ''t''))"
  unfolding demo_registered_def by code_simp

lemma demo_extends: "extends demo_hash bg demo_start demo_envelope demo_next"
  using demo_preflight
  by (simp add: extends_iff instance_initial_def demo_envelope_def demo_next_def demo_register)

lemma demo_extends_run: "run (extends demo_hash bg) demo_start [demo_envelope] demo_next"
  using demo_extends by (simp add: run_Cons_iff)

text \<open>
  C31. The profile is closed: when the preflight admits a command and the kernel accepts it, the next
  state is again within every bound, so observing it and the next command's own check cannot fail on
  the state already held.
\<close>

theorem capacity_closed:
  assumes "preflight s sequence c = Inr ()" "command_apply c s bg = Inr (s', act)" "state_wf s"
  shows "check_state s' = Inr () \<and> state_wf s'"
  using assms(2) preflight_keeps_capacity [OF assms(1) _ assms(3)] command_transition_wf [OF _ assms(3)]
  by (auto simp: command_apply_Inr_iff)

theorem capacity_closed_witness: "check_state demo_registered = Inr ()"
proof -
  have "command_apply (CmdRegisterTool ''t'') initial_state (demo_bg Enforce) =
      Inr (demo_registered, NActRegisterTool ''t'')"
    by (simp add: command_apply_def demo_register)
  from capacity_closed [OF demo_preflight this wf_initial] show ?thesis by simp
qed

text \<open>
  C32. The preflight over-charges crossings to a receiver that holds every confidentiality level. Take
  any crossing it admits in a state where the receiver holds some labels. Were the receiver to hold all
  of them, and everything else as it is, the same crossing would be refused with
  \<^const>\<open>CapacityExceeded\<close>; yet whenever the kernel accepts it there, no confidentiality label is
  added anywhere and the next state is within every bound of the profile.
\<close>

theorem full_receiver_refused:
  assumes "preflight s sequence (CmdCrossOutput q) = Inr ()" "state_wf s"
    and "vm_get (taint_levels s) (AgentId (xn_rcv q)) = Some held"
    and "vs_wf levels" "\<And>l. vs_contains levels l"
    and "full = s\<lparr>taint_levels := vm_insert (taint_levels s) (AgentId (xn_rcv q)) levels\<rparr>"
  shows "preflight full sequence (CmdCrossOutput q) = Inl CapacityExceeded \<and>
    (\<forall>s' act. command_apply (CmdCrossOutput q) full bg = Inr (s', act) \<longrightarrow>
       vm_elems (taint_levels s') = vm_elems (taint_levels full) \<and> check_state s' = Inr ())"
proof -
  have UNIV: "set (items levels) = UNIV" using assms(5) by (auto simp: vec_simps)
  then have "MAX_CONF_LEVELS \<le> vs_len levels"
    using assms(4) distinct_card [of "items levels"]
    by (simp add: vs_wf_def vs_len_def card_vocabularies MAX_CONF_LEVELS_def)
  then have none: "check_post_transition full (CmdCrossOutput q) budget \<noteq> Inr t" for budget t
    by (intro full_receiver_charged) (simp_all add: assms(6) vec_simps)
  have "preflight full sequence (CmdCrossOutput q) \<noteq> Inr ()"
    using none by (auto simp: preflight_def and_then_Inr_iff map_ok_Inr_iff)
  moreover have "check_sequence sequence = Inr ()"
    using assms(1) by (auto simp: preflight_def and_then_Inr_iff)
  ultimately have "preflight full sequence (CmdCrossOutput q) = Inl CapacityExceeded"
    using preflight_errors(2) by (cases "preflight full sequence (CmdCrossOutput q)") auto
  then show ?thesis
    using full_receiver_no_label [of full bg "cross_into_kernel q"] UNIV
      full_receiver_within_profile [OF assms(1,2,4,3,6), of bg]
    by (auto simp: command_apply_Inr_iff assms(6) cross_into_kernel_def vec_simps)
qed

text \<open>The worker holds one label; the root, which holds none, releases its empty set to it.\<close>

definition demo_wire_crossing :: cross_input_n where
  "demo_wire_crossing =
     \<lparr>xn_src = ''root'', xn_rcv = ''w'', xn_crossing = ''c'', xn_output_hash = ''o'',
      xn_descriptor = ''d'', xn_fallback = ReleaseUnendorsedN, xn_t_integ = TrustedN, xn_t_conf = None,
      xn_assignment = ''d'', xn_evidence = None, xn_released_conf = PublicN,
      xn_released_integ = TrustedN\<rparr>"

definition demo_receiver :: kernel_state where
  "demo_receiver = initial_state
     \<lparr>agent_active := VecSet [root_id, worker], agent_parent := VecMap [(worker, root_id)],
      taint_levels := VecMap [(worker, VecSet [Internal])],
      integ_levels := VecMap [(worker, VecSet [Trusted])]\<rparr>"

definition demo_full :: kernel_state where
  "demo_full = demo_receiver\<lparr>taint_levels :=
     vm_insert (taint_levels demo_receiver) (AgentId (xn_rcv demo_wire_crossing))
       (VecSet [Public, Internal, Sensitive, Restricted])\<rparr>"

lemma demo_receiver_wf: "state_wf demo_receiver"
proof -
  let ?d = "delegate initial_state (demo_bg Enforce) root_id worker"
  let ?i = "ingest (ok_state ?d) (demo_bg Enforce) worker None Internal Trusted"
  have "succeeds ?d" "succeeds ?i" "ok_state ?i = demo_receiver" by code_simp+
  then show ?thesis
    using wf_ingest [OF succeeds_eq] wf_delegate [OF succeeds_eq] wf_initial by metis
qed

lemma demo_crossing_admitted: "preflight demo_receiver 0 (CmdCrossOutput demo_wire_crossing) = Inr ()"
  by (simp add: demo_receiver_def demo_wire_crossing_def evaluate_limits check_cross_input_def
      check_cross_post_def check_label_key_def cross_addition_def len_or_zero_def vm_contains_key_iff Let_def
      vm_get_map_of)

lemma demo_full_crosses:
  "\<exists>s' act. command_apply (CmdCrossOutput demo_wire_crossing) demo_full (demo_bg Enforce) = Inr (s', act)"
proof -
  have "\<not> isl (command_apply (CmdCrossOutput demo_wire_crossing) demo_full (demo_bg Enforce))"
    by code_simp
  then show ?thesis by (cases "command_apply (CmdCrossOutput demo_wire_crossing) demo_full (demo_bg Enforce)") auto
qed

theorem full_receiver_refused_witness:
  "preflight demo_receiver 0 (CmdCrossOutput demo_wire_crossing) = Inr () \<and>
   preflight demo_full 0 (CmdCrossOutput demo_wire_crossing) = Inl CapacityExceeded \<and>
   (\<exists>s' act. command_apply (CmdCrossOutput demo_wire_crossing) demo_full (demo_bg Enforce) = Inr (s', act) \<and>
      vm_elems (taint_levels s') = vm_elems (taint_levels demo_full) \<and> check_state s' = Inr ())"
proof -
  let ?levels = "VecSet [Public, Internal, Sensitive, Restricted]"
  have held: "vm_get (taint_levels demo_receiver) (AgentId (xn_rcv demo_wire_crossing)) = Some (VecSet [Internal])"
    by code_simp
  have all: "vs_contains ?levels l" for l by (cases l) (simp_all add: vec_simps)
  have wf: "vs_wf ?levels" by (simp add: vs_wf_def)
  show ?thesis
    using full_receiver_refused [OF demo_crossing_admitted demo_receiver_wf held wf all demo_full_def]
      demo_crossing_admitted demo_full_crosses
    by blast
qed

section \<open>Native instances\<close>

text \<open>
  C33. Applying a command is atomic: a refusal of any kind leaves the resource as it was, and a
  success means the lock was free, the kernel accepted the command in the resource's state, the
  envelope carries the next sequence number, the old head and the digest of its own link, and the
  resource then reports that sequence number and digest as its status.
\<close>

theorem live_apply_atomic:
  assumes "live_apply sha256 live c = (res, live')"
  shows "case res of
      Inl e \<Rightarrow> live' = live
    | Inr env \<Rightarrow>
        (\<exists>st. live_status live = Inr \<lparr>cn_version = VERSION, cn_sequence = is_sequence st, cn_head = is_head st\<rparr> \<and>
           mx_data (li_inner live) = st \<and> en_previous_digest env = is_head st \<and>
           en_sequence env = is_sequence st + 1 \<and> en_command env = c \<and>
           en_digest env = link sha256 (is_head st) (is_sequence st + 1) c (en_action env) \<and>
           command_apply c (is_kernel st) (li_background live) =
             Inr (is_kernel (mx_data (li_inner live')), en_action env)) \<and>
        live_status live' = Inr \<lparr>cn_version = VERSION, cn_sequence = en_sequence env, cn_head = en_digest env\<rparr> \<and>
        li_background live' = li_background live"
proof (cases res)
  case (Inl e)
  then show ?thesis using assms live_apply_Inl by auto
next
  case (Inr env)
  then obtain st' where "idle (li_inner live)" "en_command env = c" "live' = live_put live st'"
    "extends sha256 (li_background live) (mx_data (li_inner live)) env st'"
    using assms by (auto simp: live_apply_Inr_iff)
  then show ?thesis
    using Inr
    by (auto simp: live_status_def locked_def mutex_try_lock_def live_put_def idle_def extends_iff
        command_apply_Inr_iff)
qed

lemma demo_live_apply:
  "live_apply demo_hash (live_new demo_hash demo_wire) (CmdRegisterTool ''t'') =
     (Inr demo_envelope, live_put (live_new demo_hash demo_wire) demo_next)"
  using demo_extends
  by (auto simp: live_apply_Inr_iff live_new_def live_from_state_def)
    (simp add: demo_envelope_def)

theorem live_apply_atomic_witness:
  "live_status (live_put (live_new demo_hash demo_wire) demo_next) =
     Inr \<lparr>cn_version = VERSION, cn_sequence = 1, cn_head = en_digest demo_envelope\<rparr>"
  using live_apply_atomic [OF demo_live_apply] by (simp add: demo_envelope_def)

text \<open>
  C34. Replay reproduces the live history: whatever envelopes a live instance has emitted, a recovery
  instance for the same background accepts them in order, and finalizing it with the live instance's
  status yields a live instance equal to the original.
\<close>

theorem replay_reproduces_live:
  assumes "run (live_step sha256) (live_new sha256 w) es live"
  shows "\<exists>rec chain. run (recovery_step sha256) (recovery_new sha256 w) es rec \<and>
    live_status live = Inr chain \<and> fst (recovery_finalize rec chain) = Inr live"
proof -
  have idle: "idle (li_inner (live_new sha256 w))" by (simp add: live_new_def live_from_state_def)
  from assms obtain st where st: "run (extends sha256 (background_into_kernel w)) (instance_initial sha256 w) es st"
    and live: "live = live_put (live_new sha256 w) st"
    unfolding live_run_iff [OF idle] by (auto simp: live_new_def live_from_state_def)
  let ?rec = "recovery_put (recovery_new sha256 w) (Some st)"
  have "run (recovery_step sha256) (recovery_new sha256 w) es ?rec"
    by (subst recovery_run_iff [where st = "instance_initial sha256 w"])
      (use st in \<open>auto simp: recovery_new_def\<close>)
  moreover have "live_status live = Inr \<lparr>cn_version = VERSION, cn_sequence = is_sequence st, cn_head = is_head st\<rparr>"
    by (simp add: live live_put_def live_new_def live_from_state_def live_status_def locked_def
        mutex_try_lock_def mutex_new_def)
  moreover have "fst (recovery_finalize ?rec
      \<lparr>cn_version = VERSION, cn_sequence = is_sequence st, cn_head = is_head st\<rparr>) = Inr live"
    by (simp add: recovery_finalize_def recovery_slot_def locked_def mutex_try_lock_def recovery_put_def
        recovery_new_def mutex_new_def live live_put_def live_new_def live_from_state_def)
  ultimately show ?thesis by blast
qed

lemma demo_live_run:
  "run (live_step demo_hash) (live_new demo_hash demo_wire) [demo_envelope]
     (live_put (live_new demo_hash demo_wire) demo_next)"
proof -
  have "live_step demo_hash (live_new demo_hash demo_wire) demo_envelope
      (live_put (live_new demo_hash demo_wire) demo_next)"
    using demo_live_apply by (simp add: live_step_def) (simp add: demo_envelope_def)
  then show ?thesis by (simp add: run_Cons_iff)
qed

theorem replay_reproduces_live_witness:
  "\<exists>rec. run (recovery_step demo_hash) (recovery_new demo_hash demo_wire) [demo_envelope] rec"
  using replay_reproduces_live [OF demo_live_run] by blast

text \<open>A finalized recovery holds the state its envelopes lead to.\<close>

lemma recovery_accepted:
  assumes "run (recovery_step sha256) (recovery_new sha256 w) es rec"
    "recovery_finalize rec expected = (Inr live, rec')"
  obtains st where "run (extends sha256 (background_into_kernel w)) (instance_initial sha256 w) es st"
    "cn_sequence expected = is_sequence st" "cn_head expected = is_head st"
    "live = live_from_state (background_into_kernel w) st" "recovery_slot rec' = Inl RecoveryConsumed"
    "length es = unat (is_sequence st)"
proof -
  have start: "idle (ri_inner (recovery_new sha256 w))"
    "mx_data (ri_inner (recovery_new sha256 w)) = Some (instance_initial sha256 w)"
    by (simp_all add: recovery_new_def)
  obtain st where st: "run (extends sha256 (background_into_kernel w)) (instance_initial sha256 w) es st"
    and rec: "rec = recovery_put (recovery_new sha256 w) (Some st)"
    using assms(1) unfolding recovery_run_iff [OF start] by (auto simp: recovery_new_def)
  show thesis
  proof (rule that [OF st])
    show "cn_sequence expected = is_sequence st" "cn_head expected = is_head st"
      "live = live_from_state (background_into_kernel w) st"
      using assms(2) by (auto simp: recovery_finalize_Inr_iff rec recovery_put_def recovery_new_def)
    have "rec' = recovery_put rec None" using assms(2) by (auto simp: recovery_finalize_Inr_iff)
    then show "recovery_slot rec' = Inl RecoveryConsumed"
      by (simp add: rec recovery_put_def recovery_new_def recovery_slot_def locked_def
          mutex_try_lock_def mutex_new_def)
    show "length es = unat (is_sequence st)"
      using extends_run_sequence [OF st] by (simp add: instance_initial_def)
  qed
qed

text \<open>
  C35. What recovery accepts is a history of the kernel: after a successful finalization the recovered
  kernel state is reached from the initial one by exactly the recorded actions, the envelopes are
  numbered 1, 2, 3 and so on and chained from the genesis digest to the expected head, their number is
  the expected sequence number and at most 100000, the recovered state is within the capacity profile,
  and the recovery instance is consumed: every later call on it is refused.
\<close>

theorem recovery_accepts_histories:
  assumes "run (recovery_step sha256) (recovery_new sha256 w) es rec"
    "recovery_finalize rec expected = (Inr live, rec')"
  shows "(\<exists>acts. run (kstep (background_into_kernel w)) initial_state acts (is_kernel (mx_data (li_inner live))) \<and>
      map en_action es = map action_from_kernel acts) \<and>
    map en_sequence es = map (\<lambda>n. of_nat (Suc n)) [0..<length es] \<and>
    chained (genesis sha256 w) es (cn_head expected) \<and> cn_sequence expected = of_nat (length es) \<and>
    length es \<le> MAX_ACCEPTED_SEQUENCE \<and>
    live_state live = Inr (state_from_kernel (is_kernel (mx_data (li_inner live)))) \<and>
    fst (recovery_replay sha256 rec' env) = Inl RecoveryConsumed \<and>
    fst (recovery_finalize rec' chain) = Inl RecoveryConsumed"
proof -
  obtain st where st: "run (extends sha256 (background_into_kernel w)) (instance_initial sha256 w) es st"
    and fin: "cn_sequence expected = is_sequence st" "cn_head expected = is_head st"
      "live = live_from_state (background_into_kernel w) st" "recovery_slot rec' = Inl RecoveryConsumed"
      "length es = unat (is_sequence st)"
    by (rule recovery_accepted [OF assms])
  have inv: "instance_inv st" by (rule instances.inv_reachable [OF refl st])
  have "run (explained_step (background_into_kernel w)) initial_state es (is_kernel st)"
    using history_kernel.sim_run [OF st] by (simp add: instance_initial_def)
  note explained = explained_run [OF this]
  have chain: "chained (genesis sha256 w) es (is_head st)" "is_sequence st = of_nat (length es)"
    "map en_sequence es = map (\<lambda>n. of_nat (Suc n)) [0..<length es]"
    using extends_run_chain [OF st] by (simp_all add: instance_initial_def)
  have bound: "length es \<le> MAX_ACCEPTED_SEQUENCE"
    using inv fin(5) by (simp add: instance_inv_def)
  have "live_state live = Inr (state_from_kernel (is_kernel st))"
    using inv by (simp add: fin live_state_def live_from_state_def locked_def mutex_try_lock_def
        mutex_new_def instance_inv_def)
  with explained chain bound show ?thesis
    by (simp add: fin(1-4) live_from_state_def recovery_replay_def recovery_finalize_def)
qed

lemma demo_recovery_run:
  "run (recovery_step demo_hash) (recovery_new demo_hash demo_wire) [demo_envelope]
     (recovery_put (recovery_new demo_hash demo_wire) (Some demo_next))"
  by (subst recovery_run_iff [where st = demo_start])
    (use demo_extends_run in \<open>auto simp: recovery_new_def\<close>)

theorem recovery_accepts_histories_witness:
  "chained (genesis demo_hash demo_wire) [demo_envelope] (is_head demo_next)"
proof -
  have "recovery_finalize (recovery_put (recovery_new demo_hash demo_wire) (Some demo_next))
      \<lparr>cn_version = VERSION, cn_sequence = is_sequence demo_next, cn_head = is_head demo_next\<rparr> =
      (Inr (live_from_state (background_into_kernel demo_wire) demo_next),
       recovery_put (recovery_put (recovery_new demo_hash demo_wire) (Some demo_next)) None)"
    by (auto simp: recovery_finalize_Inr_iff recovery_put_def recovery_new_def idle_def mutex_new_def)
  from recovery_accepts_histories [OF demo_recovery_run this] show ?thesis by simp
qed

text \<open>
  C36. Each altered field of a valid next envelope is refused for its own reason and nothing is
  committed: another version, sequence number, predecessor, action or digest, and a command that the
  kernel refuses.
\<close>

theorem replay_detects_alteration:
  assumes "recovery_replay sha256 rec env = (Inr (), rec')"
    and "v \<noteq> en_version env" "n \<noteq> en_sequence env" "p \<noteq> en_previous_digest env" "a \<noteq> en_action env"
      "d \<noteq> en_digest env"
    and "mx_data (ri_inner rec) = Some st" "preflight (is_kernel st) (is_sequence st) c = Inr ()"
      "command_apply c (is_kernel st) (ri_background rec) = Inl k"
  shows "recovery_replay sha256 rec (env\<lparr>en_version := v\<rparr>) = (Inl InvalidVersion, rec) \<and>
    recovery_replay sha256 rec (env\<lparr>en_sequence := n\<rparr>) = (Inl SequenceMismatch, rec) \<and>
    recovery_replay sha256 rec (env\<lparr>en_previous_digest := p\<rparr>) = (Inl PreviousDigestMismatch, rec) \<and>
    recovery_replay sha256 rec (env\<lparr>en_action := a\<rparr>) = (Inl ActionMismatch, rec) \<and>
    recovery_replay sha256 rec (env\<lparr>en_digest := d\<rparr>) = (Inl DigestMismatch, rec) \<and>
    recovery_replay sha256 rec (env\<lparr>en_command := c\<rparr>) = (Inl (ReplayRefused k), rec)"
proof -
  have slot: "recovery_slot rec = Inr st"
    using assms(1,7) by (auto simp: recovery_slot_Inr_iff recovery_replay_Inr_iff)
  obtain st' where ext: "extends sha256 (ri_background rec) st env st'"
    using assms(1,7) by (auto simp: recovery_replay_Inr_iff)
  then have r: "apply_without_commit sha256 st (ri_background rec) (en_command env) = Inr (st', env)"
    by (simp add: extends_def)
  have link: "check_recovery_link (is_kernel st) (is_sequence st) = Inr ()"
    using ext by (auto simp: extends_iff intro: preflight_recovery_link)
  have expected: "checked_next (is_sequence st) = Inr (en_sequence env)"
    using ext by (simp add: extends_iff checked_next_def)
  have fields: "en_version env = VERSION" "en_previous_digest env = is_head st"
    using ext by (simp_all add: extends_iff)
  have refused: "apply_without_commit sha256 st (ri_background rec) c = Inl (NKernel k)"
    using assms(8,9) expected by (simp add: apply_without_commit_def)
  show ?thesis
    using assms(2-6) by (simp add: recovery_replay_def slot replay_check_def link expected fields r refused)
qed

theorem replay_detects_alteration_witness:
  "recovery_replay demo_hash (recovery_new demo_hash demo_wire) (demo_envelope\<lparr>en_sequence := 2\<rparr>) =
     (Inl SequenceMismatch, recovery_new demo_hash demo_wire)"
proof -
  have replay: "recovery_replay demo_hash (recovery_new demo_hash demo_wire) demo_envelope =
      (Inr (), recovery_put (recovery_new demo_hash demo_wire) (Some demo_next))"
    using demo_extends by (auto simp: recovery_replay_Inr_iff recovery_new_def)
  have pre: "preflight initial_state 0 (CmdUnregisterTool ''t'') = Inr ()"
    using demo_preflight
    by (auto simp: preflight_def and_then_Inr_iff map_ok_Inr_iff)
  have "command_apply (CmdUnregisterTool ''t'') initial_state bg = Inl NToolNotRegistered" for bg
    by (simp add: command_apply_def unregister_tool_def initial_state_def Let_def vs_contains_iff)
  then show ?thesis
    by (intro replay_detects_alteration [OF replay, where v = 0 and p = "DigestN []" and d = "DigestN []"
          and a = "NActRegisterTool ''u''" and st = demo_start and c = "CmdUnregisterTool ''t''"
          and k = NToolNotRegistered, THEN conjunct2, THEN conjunct1])
      (simp_all add: demo_envelope_def VERSION_def genesis_def link_def demo_hash_def recovery_new_def
        instance_initial_def pre)
qed

text \<open>
  C37. The head commits to the history: when two recovery instances for possibly different
  backgrounds have accepted two histories and both finalize against the same anchor, then the two
  backgrounds describe the same theory and the histories agree envelope by envelope (the set-valued
  lists of a policy up to order and repetition), or the histories exhibit two different transcripts
  with the same hash. The hash function is any function to 32 bytes, as SHA-256 is.
\<close>

theorem anchor_commits_to_history:
  assumes "\<And>bytes. length (sha256 bytes) = 32"
    and "run (recovery_step sha256) (recovery_new sha256 v) ds rec1" "recovery_finalize rec1 anchor = (Inr live1, rec1')"
    and "run (recovery_step sha256) (recovery_new sha256 w) es rec2" "recovery_finalize rec2 anchor = (Inr live2, rec2')"
  shows "background_into_kernel v = background_into_kernel w \<and> list_all2 same_record ds es \<or>
    (\<exists>x y. x \<in> history_transcripts v ds \<and> y \<in> history_transcripts w es \<and> x \<noteq> y \<and> sha256 x = sha256 y)"
proof -
  obtain s where s: "run (extends sha256 (background_into_kernel v)) (instance_initial sha256 v) ds s"
    "is_head s = cn_head anchor" "length ds = unat (cn_sequence anchor)"
    using recovery_accepted [OF assms(2,3)] by metis
  obtain t where t: "run (extends sha256 (background_into_kernel w)) (instance_initial sha256 w) es t"
    "is_head t = cn_head anchor" "length es = unat (cn_sequence anchor)"
    using recovery_accepted [OF assms(4,5)] by metis
  have "background_view v = background_view w \<and> list_all2 same_record ds es \<or>
      collision sha256 (history_transcripts v ds) (history_transcripts w es)"
    by (rule histories_agree [OF assms(1) s(1) t(1)]) (use s t in simp_all)
  then show ?thesis
    using background_view_kernel [of v w] unfolding collision_def by blast
qed

theorem anchor_commits_to_history_witness:
  "background_into_kernel demo_wire = background_into_kernel demo_wire \<and>
     list_all2 same_record [demo_envelope] [demo_envelope] \<or>
   (\<exists>x y. x \<in> history_transcripts demo_wire [demo_envelope] \<and>
     y \<in> history_transcripts demo_wire [demo_envelope] \<and> x \<noteq> y \<and> demo_hash x = demo_hash y)"
proof -
  have "recovery_finalize (recovery_put (recovery_new demo_hash demo_wire) (Some demo_next))
      \<lparr>cn_version = VERSION, cn_sequence = is_sequence demo_next, cn_head = is_head demo_next\<rparr> =
      (Inr (live_from_state (background_into_kernel demo_wire) demo_next),
       recovery_put (recovery_put (recovery_new demo_hash demo_wire) (Some demo_next)) None)"
    by (auto simp: recovery_finalize_Inr_iff recovery_put_def recovery_new_def idle_def mutex_new_def)
  from anchor_commits_to_history [OF _ demo_recovery_run this demo_recovery_run this]
  show ?thesis by (simp add: demo_hash_def)
qed

section \<open>Transcripts and observations\<close>

text \<open>
  C38. Canonical bytes are unambiguous: a genesis transcript determines the background's mode and
  ceilings, a link transcript determines the predecessor, the sequence number, the action, and the
  command up to the order of its set-valued lists, and no transcript is of both kinds. The digests are
  of 32 bytes and the strings shorter than \<open>2^32\<close> bytes.
\<close>

theorem transcripts_unambiguous:
  assumes "digest_wf p" "digest_wf q" "all_short (command_strings c)" "all_short (command_strings d)"
    and "all_short (action_strings a)" "all_short (action_strings b)"
  shows "(link_transcript p m c a = link_transcript q n d b \<longleftrightarrow>
      p = q \<and> m = n \<and> canonical_command c = canonical_command d \<and> a = b) \<and>
    (genesis_transcript v = genesis_transcript w \<longleftrightarrow>
      bn_mode v = bn_mode w \<and> flatten \<circ> bn_allow_ceiling v = flatten \<circ> bn_allow_ceiling w \<and>
      flatten \<circ> bn_inspect_ceiling v = flatten \<circ> bn_inspect_ceiling w) \<and>
    genesis_transcript v \<noteq> link_transcript p m c a"
  using link_transcript_inject [OF assms]
  by (simp add: genesis_transcript_inject domains_differ background_view_def)

theorem transcripts_unambiguous_witness:
  "link_transcript (DigestN (replicate 32 7)) 3 (CmdRevoke ''a'' ''bc'') (NActRevoke ''a'' ''bc'') \<noteq>
   link_transcript (DigestN (replicate 32 7)) 3 (CmdRevoke ''ab'' ''c'') (NActRevoke ''ab'' ''c'')"
proof -
  have "digest_wf (DigestN (replicate 32 7))" by (simp add: digest_wf_def)
  from transcripts_unambiguous [OF this this, of "CmdRevoke ''a'' ''bc''" "CmdRevoke ''ab'' ''c''"
      "NActRevoke ''a'' ''bc''" "NActRevoke ''ab'' ''c''"]
  show ?thesis by (simp add: u32_length_def)
qed

text \<open>
  C39. The observed state is canonical and complete: two duplicate-free kernel states project to the
  same observation exactly when they have the same content in every collection, whatever the order in
  which entries, labels, capabilities and channels were inserted.
\<close>

theorem observation_canonical:
  assumes "state_wf s" "state_wf t"
  shows "state_from_kernel s = state_from_kernel t \<longleftrightarrow>
    same_items (agent_active s) (agent_active t) \<and>
    same_entries (=) (agent_parent s) (agent_parent t) \<and>
    same_entries same_items (agent_cap s) (agent_cap t) \<and>
    same_entries same_items (taint_levels s) (taint_levels t) \<and>
    same_entries same_items (integ_levels s) (integ_levels t) \<and>
    same_entries same_pending (pending s) (pending t) \<and>
    same_entries same_challenge (challenges s) (challenges t) \<and>
    same_items (consumed_ids s) (consumed_ids t) \<and>
    same_items (consumed_attestations s) (consumed_attestations t) \<and>
    same_items (consumed_crossings s) (consumed_crossings t) \<and>
    same_entries (=) (crossing_grants s) (crossing_grants t) \<and>
    same_items (tool_registered s) (tool_registered t)"
  using state_observed_eq_iff [OF assms] by (simp add: same_content_def)

theorem observation_canonical_witness:
  "state_from_kernel (initial_state\<lparr>tool_registered := VecSet [ToolId ''a'', ToolId ''b'']\<rparr>) =
   state_from_kernel (initial_state\<lparr>tool_registered := VecSet [ToolId ''b'', ToolId ''a'']\<rparr>)"
proof -
  have "state_wf (initial_state\<lparr>tool_registered := VecSet [ToolId x, ToolId y]\<rparr>)" if "x \<noteq> y" for x y
    using that by (intro wf_update(12) wf_initial) (simp add: vs_wf_def)
  from observation_canonical [OF this this, of "''a''" "''b''" "''b''" "''a''"] show ?thesis
    by (auto simp: same_items_def same_entries_def option.rel_eq intro!: option.rel_refl)
      (simp_all add: option.rel_refl same_items_def same_pending_def same_challenge_def same_policy_def)
qed

section \<open>Concurrent calls\<close>

text \<open>
  C40. Concurrent calls are serialised: in any interleaving of calls on a fresh instance, with panics,
  the envelopes handed out form, in the order of return, one history of the resource's state, at most
  one call runs at a time, and once a panic has poisoned the lock nothing changes any more.
\<close>

theorem concurrent_calls_serialised:
  assumes "run (call_step sha256) (sh_new (live_new sha256 w)) evs sh"
  shows "run (extends sha256 (background_into_kernel w)) (instance_initial sha256 w)
      (concat (map emitted evs)) (mx_data (li_inner (sh_live sh))) \<and>
    exclusive sh \<and>
    (\<forall>more sh'. poisoned sh \<and> run (call_step sha256) sh more sh' \<longrightarrow>
       sh' = sh \<and> (\<forall>ev \<in> set more. \<exists>t. ev = Returned t (Inl ResourcePoisoned)))"
proof -
  have "exclusive (sh_new (live_new sha256 w))"
    by (rule calls.inv_init) (intro exI [of _ "live_new sha256 w"], simp add: live_new_def live_from_state_def)
  note result = emitted_run [OF assms this]
  have "sh' = sh \<and> (\<forall>ev \<in> set more. \<exists>t. ev = Returned t (Inl ResourcePoisoned))"
    if "run (call_step sha256) sh more sh'" "poisoned sh" for more sh'
    using that
  proof (induction rule: run.induct)
    case (run_cons a ev b more c)
    from poisoned_step [OF run_cons.prems run_cons.hyps(1)] run_cons show ?case by auto
  qed simp
  with result show ?thesis by (auto simp: sh_new_def live_new_def live_from_state_def)
qed

theorem concurrent_calls_serialised_witness:
  "run (extends demo_hash (background_into_kernel demo_wire)) demo_start [demo_envelope] demo_next"
proof -
  let ?live = "live_new demo_hash demo_wire"
  let ?sh = "sh_new ?live :: nat shared"
  let ?busy = "?sh\<lparr>sh_live := hold ?live, sh_running := [0 \<mapsto> CmdRegisterTool ''t'']\<rparr>"
  let ?done = "?sh\<lparr>sh_live := live_put ?live demo_next, sh_running := Map.empty\<rparr>"
  have enter: "call_step demo_hash ?sh (Entered 0 (CmdRegisterTool ''t'')) ?busy"
    using entered [of ?sh 0 demo_start demo_hash "CmdRegisterTool ''t''"]
    by (simp add: sh_new_def locked_Inr_iff live_new_def live_from_state_def)
  have refuse: "call_step demo_hash ?busy (Returned 1 (Inl InstanceBusy)) ?busy"
    by (rule refused) (simp_all add: locked_def mutex_try_lock_def hold_def)
  have same: "release (hold ?live) = ?live"
    by (simp add: release_def hold_def live_new_def live_from_state_def mutex_new_def)
  have finish: "call_step demo_hash ?busy (Returned 0 (Inr demo_envelope)) ?done"
    using finished [of ?busy 0 "CmdRegisterTool ''t''" demo_hash "Inr demo_envelope" "live_put ?live demo_next"]
      demo_live_apply by (simp add: same)
  have "run (call_step demo_hash) ?sh
      [Entered 0 (CmdRegisterTool ''t''), Returned 1 (Inl InstanceBusy), Returned 0 (Inr demo_envelope)] ?done"
    using enter refuse finish by (blast intro: run.intros)
  from concurrent_calls_serialised [OF this] show ?thesis
    by (simp add: live_put_def live_new_def live_from_state_def)
qed

end
