(* ===== verification/Conformance_Schema.thy ===== *)
theory Conformance_Schema
  imports Kernel_Types "HOL-Library.Char_ord" "HOL-Library.List_Lexorder"
    "HOL-Library.Product_Lexorder"
begin

text \<open>
  The data of the shared conformance corpus (\<open>ex_argus/priv/conformance/v4_schema.rs\<close>): closed
  vocabularies, commands, actions, the sorted state of a checkpoint, and the boundary, recovery and
  golden cases. JSON parsing is the serde library's; the checks on parsed values are in
  \<open>Conformance_Checks\<close>. The structs of the schema carry the prefix \<open>schema_\<close> where the wire has a
  type of the same name; the constructors carry an \<open>S\<close>.
\<close>

subsection \<open>Vocabularies\<close>

datatype action_tag = TagRegisterTool | TagUnregisterTool | TagDelegate | TagGrantCapability
  | TagGrantCrossing | TagRevoke | TagCascadeRevoke | TagIngest | TagBeginInvocation
  | TagAuthorizeInspected | TagSettleInvocation | TagCrossOutput

datatype schema_capability = SCapFilesystemRead | SCapFilesystemWrite | SCapFilesystemDelete
  | SCapNetworkEgress | SCapNetworkIngress | SCapExecutionShell | SCapExecutionCode
  | SCapCredentials | SCapSystemInfo | SCapSystemModify | SCapClipboard | SCapBrowserNavigate
  | SCapDatabaseRead | SCapDatabaseWrite | SCapIpc

datatype schema_egress = SNetworkExternal | SNetworkInternal | SFilesystemWrite | SIpc
datatype schema_conf = SPublic | SInternal | SSensitive | SRestricted
datatype schema_integ = SUntrusted | SStandard | STrusted | SAttested
datatype schema_mode = SEnforce | SMonitor
datatype schema_verdict = SAllow | SInspectionRequired | SDeny
datatype schema_disposition = SPermitted | SBlocked | SMonitorBypassed
datatype schema_outcome = SSuccess | SFailure | SAmbiguous
datatype schema_fallback = SFallbackFail | SReleaseUnendorsed
datatype schema_branch = SEndorsed | SUnendorsed | SBranchFail
datatype admission_tag = TagPlain | TagInspected | TagBypassed
datatype telemetry_outcome = TelAccepted | TelKernelRefused | TelBoundaryRefused | TelInternalError

definition ACTIONS :: "action_tag list" where
  "ACTIONS = [TagRegisterTool, TagUnregisterTool, TagDelegate, TagGrantCapability,
     TagGrantCrossing, TagRevoke, TagCascadeRevoke, TagIngest, TagBeginInvocation,
     TagAuthorizeInspected, TagSettleInvocation, TagCrossOutput]"

definition CAPABILITIES :: "schema_capability list" where
  "CAPABILITIES = [SCapFilesystemRead, SCapFilesystemWrite, SCapFilesystemDelete,
     SCapNetworkEgress, SCapNetworkIngress, SCapExecutionShell, SCapExecutionCode,
     SCapCredentials, SCapSystemInfo, SCapSystemModify, SCapClipboard, SCapBrowserNavigate,
     SCapDatabaseRead, SCapDatabaseWrite, SCapIpc]"

definition EGRESS :: "schema_egress list" where
  "EGRESS = [SNetworkExternal, SNetworkInternal, SFilesystemWrite, SIpc]"

definition CONFIDENTIALITY :: "schema_conf list" where
  "CONFIDENTIALITY = [SPublic, SInternal, SSensitive, SRestricted]"

definition INTEGRITY :: "schema_integ list" where
  "INTEGRITY = [SUntrusted, SStandard, STrusted, SAttested]"

definition MODES :: "schema_mode list" where "MODES = [SEnforce, SMonitor]"

definition VERDICTS :: "schema_verdict list" where
  "VERDICTS = [SAllow, SInspectionRequired, SDeny]"

definition DISPOSITIONS :: "schema_disposition list" where
  "DISPOSITIONS = [SPermitted, SBlocked, SMonitorBypassed]"

definition OUTCOMES :: "schema_outcome list" where
  "OUTCOMES = [SSuccess, SFailure, SAmbiguous]"

definition FALLBACKS :: "schema_fallback list" where
  "FALLBACKS = [SFallbackFail, SReleaseUnendorsed]"

definition CROSS_BRANCHES :: "schema_branch list" where
  "CROSS_BRANCHES = [SEndorsed, SUnendorsed, SBranchFail]"

definition ADMISSIONS :: "admission_tag list" where
  "ADMISSIONS = [TagPlain, TagInspected, TagBypassed]"

definition TELEMETRY_OUTCOMES :: "telemetry_outcome list" where
  "TELEMETRY_OUTCOMES = [TelAccepted, TelKernelRefused, TelBoundaryRefused, TelInternalError]"

record vocabulary =
  vo_actions :: "action_tag list"
  vo_capabilities :: "schema_capability list"
  vo_egress :: "schema_egress list"
  vo_confidentiality :: "schema_conf list"
  vo_integrity :: "schema_integ list"
  vo_modes :: "schema_mode list"
  vo_verdicts :: "schema_verdict list"
  vo_dispositions :: "schema_disposition list"
  vo_outcomes :: "schema_outcome list"
  vo_fallbacks :: "schema_fallback list"
  vo_cross_branches :: "schema_branch list"
  vo_admissions :: "admission_tag list"
  vo_telemetry_outcomes :: "telemetry_outcome list"

subsection \<open>Commands and actions\<close>

record schema_ceiling =
  sc_network_external :: "schema_conf option"
  sc_network_internal :: "schema_conf option"
  sc_filesystem_write :: "schema_conf option"
  sc_ipc :: "schema_conf option"

record schema_background =
  sb_mode :: schema_mode
  sb_allow_ceiling :: schema_ceiling
  sb_inspect_ceiling :: schema_ceiling

record schema_policy =
  sp_tool :: string
  sp_required_caps :: "schema_capability list"
  sp_conf_clearance :: schema_conf
  sp_integ_floor :: schema_integ
  sp_integ_inspect :: schema_integ
  sp_output_conf :: schema_conf
  sp_output_integ :: schema_integ
  sp_declared_egress :: "schema_egress list"
  sp_policy_digest :: string

record schema_inspection =
  si_id :: string
  si_inv :: string
  si_challenge :: string
  si_args_hash :: string
  si_policy_digest :: string
  si_positive :: bool

record schema_resolution =
  sr_id :: string
  sr_inv :: string
  sr_outcome :: schema_outcome

record schema_conformance =
  sf_id :: string
  sf_output :: string
  sf_src :: string
  sf_rcv :: string
  sf_descriptor :: string
  sf_assignment :: string
  sf_positive :: bool

record schema_cross_input =
  sx_src :: string
  sx_rcv :: string
  sx_crossing :: string
  sx_output_hash :: string
  sx_descriptor :: string
  sx_fallback :: schema_fallback
  sx_t_integ :: schema_integ
  sx_t_conf :: "schema_conf option"
  sx_assignment :: string
  sx_evidence :: "schema_conformance option"
  sx_released_conf :: schema_conf
  sx_released_integ :: schema_integ

text \<open>The variants carry their fields in the order of declaration.\<close>

datatype schema_command =
    SCmdRegisterTool string
  | SCmdUnregisterTool string
  | SCmdDelegate string string
  | SCmdGrantCapability string string schema_capability
  | SCmdGrantCrossing string string string u32
  | SCmdRevoke string string
  | SCmdCascadeRevoke string string
  | SCmdIngest string "string option" schema_conf schema_integ
  | SCmdBeginInvocation string string string schema_policy "schema_egress list" string bool
  | SCmdAuthorizeInspected string schema_inspection
  | SCmdSettleInvocation string schema_outcome "schema_resolution option"
  | SCmdCrossOutput schema_cross_input

datatype schema_action =
    SActRegisterTool string
  | SActUnregisterTool string
  | SActDelegate string string
  | SActGrantCapability string string schema_capability
  | SActGrantCrossing string string string u32
  | SActRevoke string string
  | SActCascadeRevoke string string
  | SActIngest string "string option" schema_conf schema_integ schema_disposition
  | SActBeginInvocation string string string schema_verdict bool
  | SActAuthorizeInspected string string bool
  | SActSettleInvocation string string schema_disposition schema_outcome schema_conf schema_integ
      "string option"
  | SActCrossOutput string string string schema_branch schema_disposition

subsection \<open>Checkpoints\<close>

record schema_admission =
  sd_kind :: admission_tag
  sd_attestation :: "string option"

record schema_pending =
  sj_agent :: string
  sj_policy :: schema_policy
  sj_egress :: "schema_egress list"
  sj_admission :: schema_admission
  sj_disposition :: schema_disposition
  sj_authorized :: bool
  sj_quarantined :: bool

record schema_challenge =
  sh_challenge :: string
  sh_agent :: string
  sh_policy :: schema_policy
  sh_egress :: "schema_egress list"
  sh_args_hash :: string
  sh_authorized :: bool

record schema_grant =
  sg_remaining :: u32
  sg_provisioned :: u32

record schema_state =
  ss_agent_active :: "string list"
  ss_agent_parent :: "(string \<times> string) list"
  ss_agent_cap :: "(string \<times> schema_capability list) list"
  ss_taint_levels :: "(string \<times> schema_conf list) list"
  ss_integ_levels :: "(string \<times> schema_integ list) list"
  ss_pending :: "(string \<times> schema_pending) list"
  ss_challenges :: "(string \<times> schema_challenge) list"
  ss_consumed_ids :: "string list"
  ss_consumed_attestations :: "string list"
  ss_consumed_crossings :: "string list"
  ss_crossing_grants :: "((string \<times> string) \<times> schema_grant) list"
  ss_tool_registered :: "string list"

record schema_chain =
  sq_version :: u32
  sq_sequence :: u64
  sq_head :: string

datatype error_class = ClassBoundary | ClassKernel | ClassRecovery | ClassInternal

datatype result_expectation = ExpectAccepted schema_action | ExpectError error_class string

record telemetry_expectation =
  te_command :: action_tag
  te_outcome :: telemetry_outcome
  te_sequence :: "u64 option"
  te_reason :: "string option"
  te_verdict :: "schema_verdict option"
  te_disposition :: "schema_disposition option"
  te_branch :: "schema_branch option"

record checkpoint =
  cp_result :: result_expectation
  cp_state :: schema_state
  cp_chain :: schema_chain
  cp_telemetry :: telemetry_expectation
  cp_transcript_hex :: "string option"

record corpus_step =
  st_id :: string
  st_command :: schema_command
  st_expected :: checkpoint

record semantic_case =
  sm_id :: string
  sm_background :: schema_background
  sm_initial_chain :: schema_chain
  sm_covers :: "string list"
  sm_steps :: "corpus_step list"

subsection \<open>Boundary, recovery and golden cases\<close>

record error_expectation =
  ee_class :: error_class
  ee_reason :: string
  ee_path :: "string list"
  ee_index :: "u64 option"
  ee_cause :: "string option"

datatype boundary_mutation = MutInvalidShape | MutMissingKey | MutExtraKey | MutInvalidType
  | MutInvalidUtf8 | MutEmptyValue | MutOversizeValue | MutUnknownEnum | MutDuplicateSetMember
  | MutU32Overflow | MutInvalidDigest | MutInvalidVersion | MutRecoveryCount | MutRecoveryContent

record boundary_case =
  bc_id :: string
  bc_mutation :: boundary_mutation
  bc_expected :: error_expectation
  bc_telemetry :: "telemetry_expectation option"

datatype recovery_mutation = MutEdit | MutInsertion | MutDeletion | MutReorder | MutDuplicate
  | MutGap | MutWrongBackground | MutWrongAction | MutWrongDigest | MutReplayRefusal
  | MutStaleAnchor | MutTruncatedAnchor

record recovery_case =
  rc_id :: string
  rc_source_case :: string
  rc_mutation :: recovery_mutation
  rc_expected :: error_expectation
  rc_telemetry_events :: "8 word"

datatype golden_kind = GoldenGenesis | GoldenLink

record golden =
  go_id :: string
  go_kind :: golden_kind
  go_background :: "schema_background option"
  go_case_id :: "string option"
  go_step_id :: "string option"
  go_transcript_hex :: string
  go_digest :: string

record corpus =
  co_schema :: string
  co_version :: u32
  co_vocabulary :: vocabulary
  co_required_coverage :: "string list"
  co_semantic_cases :: "semantic_case list"
  co_boundary_cases :: "boundary_case list"
  co_recovery_cases :: "recovery_case list"
  co_goldens :: "golden list"

fun command_tag_of :: "schema_command \<Rightarrow> action_tag" where
  "command_tag_of (SCmdRegisterTool t) = TagRegisterTool"
| "command_tag_of (SCmdUnregisterTool t) = TagUnregisterTool"
| "command_tag_of (SCmdDelegate p c) = TagDelegate"
| "command_tag_of (SCmdGrantCapability p c k) = TagGrantCapability"
| "command_tag_of (SCmdGrantCrossing g a d n) = TagGrantCrossing"
| "command_tag_of (SCmdRevoke p a) = TagRevoke"
| "command_tag_of (SCmdCascadeRevoke c p) = TagCascadeRevoke"
| "command_tag_of (SCmdIngest a src l i) = TagIngest"
| "command_tag_of (SCmdBeginInvocation a i ch p egr ah auth) = TagBeginInvocation"
| "command_tag_of (SCmdAuthorizeInspected i t) = TagAuthorizeInspected"
| "command_tag_of (SCmdSettleInvocation i out r) = TagSettleInvocation"
| "command_tag_of (SCmdCrossOutput q) = TagCrossOutput"

end
