(* ===== verification/Conformance_Checks.thy ===== *)
theory Conformance_Checks
  imports Conformance_Schema
begin

text \<open>
  The checks of \<open>v4_schema.rs\<close> on a parsed corpus, in source order; each failure is the message the
  code gives. A \<open>HashSet\<close> is a set, and \<open>seen.insert(x)\<close> in a short-circuiting \<open>all\<close> is
  \<open>all_inserted\<close>; \<open>windows(2).all(p)\<close> is \<^const>\<open>successively\<close>. Byte-wise comparison of strings is
  the order of \<open>Char_ord\<close> lifted to lists, as in the observation of a state.
\<close>

type_synonym check = "string + unit"

definition require :: "bool \<Rightarrow> string \<Rightarrow> check" where
  "require condition message = (if condition then Inr () else Inl message)"

subsection \<open>Identifiers, lists and hexadecimal text\<close>

text \<open>The set of identifiers seen so far is threaded through the result.\<close>

definition unique_id :: "string set \<Rightarrow> string \<Rightarrow> string + string set" where
  "unique_id ids id_text =
     and_then (require (id_text \<noteq> []) ''empty id'') (\<lambda>_.
     and_then (require (id_text \<notin> ids) ''duplicate id'') (\<lambda>_. Inr (insert id_text ids)))"

fun all_inserted :: "'a set \<Rightarrow> 'a list \<Rightarrow> bool" where
  "all_inserted seen [] \<longleftrightarrow> True"
| "all_inserted seen (x # xs) \<longleftrightarrow> x \<notin> seen \<and> all_inserted (insert x seen) xs"

definition unique_strings :: "string list \<Rightarrow> string \<Rightarrow> check" where
  "unique_strings values label = require (all_inserted {} values) (''duplicate '' @ label)"

definition unique_copy :: "'a list \<Rightarrow> string \<Rightarrow> check" where
  "unique_copy values label = require (all_inserted {} values) (''duplicate '' @ label)"

text \<open>\<open>order.iter().position(|candidate| candidate == value)\<close>\<close>

fun position :: "'a list \<Rightarrow> 'a \<Rightarrow> nat option" where
  "position [] x = None"
| "position (y # ys) x = (if y = x then Some 0 else map_option Suc (position ys x))"

definition ordered_unique :: "'a list \<Rightarrow> 'a list \<Rightarrow> string \<Rightarrow> check" where
  "ordered_unique values order label =
     (case those (map (position order) values) of
        None \<Rightarrow> Inl (''unknown '' @ label)
      | Some positions \<Rightarrow>
          require (successively (<) positions) (''unordered or duplicate '' @ label))"

definition sorted_unique_strings :: "string list \<Rightarrow> string \<Rightarrow> check" where
  "sorted_unique_strings values label =
     require (successively (<) values) (''unordered or duplicate '' @ label)"

definition sorted_unique_pairs :: "(string \<times> 'v) list \<Rightarrow> string \<Rightarrow> check" where
  "sorted_unique_pairs values label =
     require (successively (\<lambda>a b. fst a < fst b) values) (''unordered or duplicate '' @ label)"

definition sorted_unique_crossing_pairs ::
  "((string \<times> string) \<times> schema_grant) list \<Rightarrow> check" where
  "sorted_unique_crossing_pairs values =
     and_then (require (successively (\<lambda>a b. fst a < fst b) values)
       ''unordered or duplicate crossing grants'') (\<lambda>_.
     require (\<forall>(_, grant) \<in> set values. sg_remaining grant \<le> sg_provisioned grant)
       ''invalid crossing grant'')"

definition canonical_hex_byte :: "char \<Rightarrow> bool" where
  "canonical_hex_byte c \<longleftrightarrow>
     (CHR ''0'' \<le> c \<and> c \<le> CHR ''9'') \<or> (CHR ''a'' \<le> c \<and> c \<le> CHR ''f'')"

definition validate_hex :: "string \<Rightarrow> nat option \<Rightarrow> check" where
  "validate_hex value exact_len =
     and_then (require (value \<noteq> []) ''empty hex'') (\<lambda>_.
     and_then (require (length value mod 2 = 0) ''odd hex length'') (\<lambda>_.
     and_then (case exact_len of
         Some len \<Rightarrow> require (length value = len) ''invalid hex length''
       | None \<Rightarrow> Inr ()) (\<lambda>_.
     require (\<forall>c \<in> set value. canonical_hex_byte c) ''invalid or noncanonical hex'')))"

subsection \<open>Commands and states\<close>

definition validate_policy_sets :: "schema_policy \<Rightarrow> check" where
  "validate_policy_sets p =
     and_then (unique_copy (sp_required_caps p) ''required capabilities'') (\<lambda>_.
     unique_copy (sp_declared_egress p) ''declared egress'')"

fun validate_command_sets :: "schema_command \<Rightarrow> check" where
  "validate_command_sets (SCmdBeginInvocation a i ch p egr ah auth) =
     and_then (validate_policy_sets p) (\<lambda>_. unique_copy egr ''attested egress'')"
| "validate_command_sets c = Inr ()"

definition validate_admission :: "schema_admission \<Rightarrow> check" where
  "validate_admission d =
     require (case (sd_kind d, sd_attestation d \<noteq> None) of
         (TagInspected, True) \<Rightarrow> True
       | (TagPlain, False) \<Rightarrow> True
       | (TagBypassed, False) \<Rightarrow> True
       | _ \<Rightarrow> False) ''invalid admission payload''"

definition validate_pending :: "schema_pending \<Rightarrow> check" where
  "validate_pending j =
     and_then (validate_policy_sets (sj_policy j)) (\<lambda>_.
     and_then (ordered_unique (sj_egress j) EGRESS ''pending egress'') (\<lambda>_.
     validate_admission (sj_admission j)))"

definition validate_challenge :: "schema_challenge \<Rightarrow> check" where
  "validate_challenge c =
     and_then (validate_policy_sets (sh_policy c)) (\<lambda>_.
     ordered_unique (sh_egress c) EGRESS ''challenge egress'')"

definition validate_state :: "schema_state \<Rightarrow> check" where
  "validate_state s =
     and_then (sorted_unique_strings (ss_agent_active s) ''active agents'') (\<lambda>_.
     and_then (sorted_unique_pairs (ss_agent_parent s) ''agent parent'') (\<lambda>_.
     and_then (sorted_unique_pairs (ss_agent_cap s) ''agent capabilities'') (\<lambda>_.
     and_then (sorted_unique_pairs (ss_taint_levels s) ''taint levels'') (\<lambda>_.
     and_then (sorted_unique_pairs (ss_integ_levels s) ''integrity levels'') (\<lambda>_.
     and_then (sorted_unique_pairs (ss_pending s) ''pending'') (\<lambda>_.
     and_then (sorted_unique_pairs (ss_challenges s) ''challenges'') (\<lambda>_.
     and_then (sorted_unique_strings (ss_consumed_ids s) ''consumed ids'') (\<lambda>_.
     and_then (sorted_unique_strings (ss_consumed_attestations s) ''consumed attestations'') (\<lambda>_.
     and_then (sorted_unique_strings (ss_consumed_crossings s) ''consumed crossings'') (\<lambda>_.
     and_then (sorted_unique_crossing_pairs (ss_crossing_grants s)) (\<lambda>_.
     and_then (sorted_unique_strings (ss_tool_registered s) ''registered tools'') (\<lambda>_.
     and_then (for_each (\<lambda>(_, vs) _. ordered_unique vs CAPABILITIES ''state capabilities'')
       (ss_agent_cap s) ()) (\<lambda>_.
     and_then (for_each (\<lambda>(_, vs) _. ordered_unique vs CONFIDENTIALITY ''state confidentiality'')
       (ss_taint_levels s) ()) (\<lambda>_.
     and_then (for_each (\<lambda>(_, vs) _. ordered_unique vs INTEGRITY ''state integrity'')
       (ss_integ_levels s) ()) (\<lambda>_.
     and_then (for_each (\<lambda>(_, j) _. validate_pending j) (ss_pending s) ()) (\<lambda>_.
     for_each (\<lambda>(_, c) _. validate_challenge c) (ss_challenges s) ()))))))))))))))))"

subsection \<open>Cases\<close>

definition validate_telemetry :: "telemetry_expectation \<Rightarrow> schema_command \<Rightarrow> check" where
  "validate_telemetry te c =
     and_then (require (te_command te = command_tag_of c) ''telemetry command mismatch'') (\<lambda>_.
     case te_outcome te of
       TelAccepted \<Rightarrow> require (te_reason te = None) ''accepted has reason''
     | TelKernelRefused \<Rightarrow> require (te_reason te \<noteq> None) ''refusal missing reason''
     | TelBoundaryRefused \<Rightarrow> require (te_reason te \<noteq> None) ''refusal missing reason''
     | TelInternalError \<Rightarrow> Inr ())"

text \<open>
  The \<open>match\<close> on the expected result, given the checkpoint before it. The addition wraps as in a
  release build; a debug build stops there instead.
\<close>

definition validate_result ::
  "checkpoint \<Rightarrow> schema_state option \<Rightarrow> schema_chain \<Rightarrow> check" where
  "validate_result cp previous chain =
     (case cp_result cp of
        ExpectAccepted action \<Rightarrow>
          and_then (require (sq_sequence (cp_chain cp) = sq_sequence chain + 1)
            ''accepted sequence is not contiguous'') (\<lambda>_.
          and_then (require (te_outcome (cp_telemetry cp) = TelAccepted)
            ''accepted telemetry mismatch'') (\<lambda>_.
          require (te_sequence (cp_telemetry cp) = Some (sq_sequence (cp_chain cp)))
            ''accepted telemetry sequence mismatch''))
      | ExpectError class reason \<Rightarrow>
          and_then (require (class = ClassKernel) ''semantic error must be kernel'') (\<lambda>_.
          and_then (require (reason \<noteq> []) ''empty kernel error'') (\<lambda>_.
          and_then (require (cp_chain cp = chain) ''refusal changed chain'') (\<lambda>_.
          and_then (case previous of
              Some state \<Rightarrow> require (cp_state cp = state) ''refusal changed state''
            | None \<Rightarrow> Inr ()) (\<lambda>_.
          and_then (require (te_outcome (cp_telemetry cp) = TelKernelRefused)
            ''refusal telemetry mismatch'') (\<lambda>_.
          require (te_sequence (cp_telemetry cp) = None) ''refusal has sequence''))))))"

text \<open>The body of the loop over the steps; it carries the identifiers, the state and the chain.\<close>

definition validate_step ::
  "corpus_step \<Rightarrow> string set \<times> schema_state option \<times> schema_chain \<Rightarrow>
   string + string set \<times> schema_state option \<times> schema_chain" where
  "validate_step step = (\<lambda>(ids, state, chain).
     let cp = st_expected step in
     and_then (unique_id ids (st_id step)) (\<lambda>ids.
     and_then (validate_command_sets (st_command step)) (\<lambda>_.
     and_then (validate_state (cp_state cp)) (\<lambda>_.
     and_then (require (sq_version (cp_chain cp) = 5) ''invalid checkpoint version'') (\<lambda>_.
     and_then (validate_hex (sq_head (cp_chain cp)) (Some 64)) (\<lambda>_.
     and_then (case cp_transcript_hex cp of
         Some transcript \<Rightarrow> validate_hex transcript None
       | None \<Rightarrow> Inr ()) (\<lambda>_.
     and_then (validate_result cp state chain) (\<lambda>_.
     and_then (validate_telemetry (cp_telemetry cp) (st_command step)) (\<lambda>_.
     Inr (ids, Some (cp_state cp), cp_chain cp))))))))))"

definition validate_case :: "semantic_case \<Rightarrow> check" where
  "validate_case c =
     and_then (require (sm_id c \<noteq> []) ''empty case id'') (\<lambda>_.
     and_then (require (sq_version (sm_initial_chain c) = 5) ''invalid initial chain version'') (\<lambda>_.
     and_then (require (sq_sequence (sm_initial_chain c) = 0) ''invalid initial sequence'') (\<lambda>_.
     and_then (validate_hex (sq_head (sm_initial_chain c)) (Some 64)) (\<lambda>_.
     and_then (require (sm_steps c \<noteq> []) ''empty semantic case'') (\<lambda>_.
     map_ok (\<lambda>_. ()) (for_each validate_step (sm_steps c) ({}, None, sm_initial_chain c)))))))"

subsection \<open>The corpus\<close>

definition validate_vocabulary :: "vocabulary \<Rightarrow> check" where
  "validate_vocabulary v =
     and_then (require (vo_actions v = ACTIONS) ''action vocabulary mismatch'') (\<lambda>_.
     and_then (require (vo_capabilities v = CAPABILITIES) ''capability vocabulary mismatch'') (\<lambda>_.
     and_then (require (vo_egress v = EGRESS) ''egress vocabulary mismatch'') (\<lambda>_.
     and_then (require (vo_confidentiality v = CONFIDENTIALITY)
       ''confidentiality vocabulary mismatch'') (\<lambda>_.
     and_then (require (vo_integrity v = INTEGRITY) ''integrity vocabulary mismatch'') (\<lambda>_.
     and_then (require (vo_modes v = MODES) ''mode vocabulary mismatch'') (\<lambda>_.
     and_then (require (vo_verdicts v = VERDICTS) ''verdict vocabulary mismatch'') (\<lambda>_.
     and_then (require (vo_dispositions v = DISPOSITIONS) ''disposition vocabulary mismatch'') (\<lambda>_.
     and_then (require (vo_outcomes v = OUTCOMES) ''outcome vocabulary mismatch'') (\<lambda>_.
     and_then (require (vo_fallbacks v = FALLBACKS) ''fallback vocabulary mismatch'') (\<lambda>_.
     and_then (require (vo_cross_branches v = CROSS_BRANCHES)
       ''cross branch vocabulary mismatch'') (\<lambda>_.
     and_then (require (vo_admissions v = ADMISSIONS) ''admission vocabulary mismatch'') (\<lambda>_.
     require (vo_telemetry_outcomes v = TELEMETRY_OUTCOMES)
       ''telemetry outcome vocabulary mismatch''))))))))))))"

definition validate_semantic ::
  "semantic_case \<Rightarrow> string set \<times> string set \<Rightarrow> string + string set \<times> string set" where
  "validate_semantic c = (\<lambda>(ids, coverage).
     and_then (unique_id ids (sm_id c)) (\<lambda>ids.
     and_then (unique_strings (sm_covers c) ''case coverage'') (\<lambda>_.
     let coverage = coverage \<union> set (sm_covers c) in
     and_then (validate_case c) (\<lambda>_. Inr (ids, coverage)))))"

definition validate_boundary :: "boundary_case \<Rightarrow> string set \<Rightarrow> string + string set" where
  "validate_boundary c ids =
     and_then (unique_id ids (bc_id c)) (\<lambda>ids.
     case bc_telemetry c of
       Some te \<Rightarrow>
         and_then (require
           (te_outcome te = TelBoundaryRefused \<and> te_sequence te = None \<and>
            te_reason te = Some (ee_reason (bc_expected c))) ''invalid boundary telemetry'') (\<lambda>_. Inr ids)
     | None \<Rightarrow> Inr ids)"

definition validate_recovery ::
  "semantic_case list \<Rightarrow> recovery_case \<Rightarrow> string set \<Rightarrow> string + string set" where
  "validate_recovery semantic_cases c ids =
     and_then (unique_id ids (rc_id c)) (\<lambda>ids.
     and_then (require (\<exists>semantic \<in> set semantic_cases. sm_id semantic = rc_source_case c)
       ''unknown recovery source case'') (\<lambda>_.
     and_then (require (rc_telemetry_events c = 0) ''recovery telemetry must be zero'') (\<lambda>_.
     Inr ids)))"

definition validate_golden :: "golden \<Rightarrow> string set \<Rightarrow> string + string set" where
  "validate_golden g ids =
     and_then (unique_id ids (go_id g)) (\<lambda>ids.
     and_then (validate_hex (go_transcript_hex g) None) (\<lambda>_.
     and_then (validate_hex (go_digest g) (Some 64)) (\<lambda>_. Inr ids)))"

definition validate_corpus :: "corpus \<Rightarrow> check" where
  "validate_corpus co =
     and_then (require (co_schema co = ''ex_argus.v4.conformance'') ''invalid schema'') (\<lambda>_.
     and_then (require (co_version co = 5) ''invalid version'') (\<lambda>_.
     and_then (validate_vocabulary (co_vocabulary co)) (\<lambda>_.
     and_then (unique_strings (co_required_coverage co) ''required coverage'') (\<lambda>_.
     and_then (require (co_semantic_cases co \<noteq> []) ''empty semantic cases'') (\<lambda>_.
     and_then (require (co_boundary_cases co \<noteq> []) ''empty boundary cases'') (\<lambda>_.
     and_then (require (co_recovery_cases co \<noteq> []) ''empty recovery cases'') (\<lambda>_.
     and_then (require (co_goldens co \<noteq> []) ''empty goldens'') (\<lambda>_.
     and_then (for_each validate_semantic (co_semantic_cases co) ({}, {})) (\<lambda>(ids, coverage).
     and_then (for_each validate_boundary (co_boundary_cases co) ids) (\<lambda>ids.
     and_then (for_each (validate_recovery (co_semantic_cases co)) (co_recovery_cases co) ids) (\<lambda>ids.
     and_then (for_each validate_golden (co_goldens co) ids) (\<lambda>_.
     require (\<forall>item \<in> set (co_required_coverage co). item \<in> coverage)
       ''required coverage not advertised by semantic cases''))))))))))))"

subsection \<open>What passing a check means\<close>

named_theorems passes \<open>a check read as the condition under which it passes\<close>

lemma require_Inr_iff [passes]: "require b m = Inr () \<longleftrightarrow> b"
  by (simp add: require_def)

lemma and_then_check_Inr_iff [passes]:
  "and_then (r :: check) f = Inr y \<longleftrightarrow> r = Inr () \<and> f () = Inr y"
  by (auto simp: and_then_Inr_iff)

lemma unique_id_Inr_iff [passes]:
  "unique_id ids i = Inr ids' \<longleftrightarrow> i \<noteq> [] \<and> i \<notin> ids \<and> ids' = insert i ids"
  by (auto simp: unique_id_def passes)

lemma and_then_unique_id [passes]:
  "and_then (unique_id ids i) f = Inr y \<longleftrightarrow> i \<noteq> [] \<and> i \<notin> ids \<and> f (insert i ids) = Inr y"
  by (auto simp: and_then_Inr_iff passes)

lemma option_check_Inr_iff [passes]:
  "(case x of Some t \<Rightarrow> f t | None \<Rightarrow> Inr ()) = (Inr () :: check) \<longleftrightarrow> (\<forall>t. x = Some t \<longrightarrow> f t = Inr ())"
  by (cases x) auto

lemma all_inserted_iff: "all_inserted seen xs \<longleftrightarrow> distinct xs \<and> set xs \<inter> seen = {}"
  by (induction xs arbitrary: seen) auto

lemma unique_Inr_iff [passes]:
  "unique_strings names label = Inr () \<longleftrightarrow> distinct names"
  "unique_copy values label = Inr () \<longleftrightarrow> distinct values"
  by (simp_all add: unique_strings_def unique_copy_def passes all_inserted_iff)

lemma position_Some_iff:
  "distinct xs \<Longrightarrow> position xs x = Some i \<longleftrightarrow> i < length xs \<and> xs ! i = x"
proof (induction xs arbitrary: i)
  case (Cons y ys)
  then show ?case by (cases i) (auto simp: nth_Cons in_set_conv_nth)
qed simp

lemma position_None_iff: "position xs x = None \<longleftrightarrow> x \<notin> set xs"
  by (induction xs) auto

lemma those_map_Some: "those (map Some xs) = Some xs"
  by (induction xs) auto

text \<open>With every value in the vocabulary, the order check compares the values' positions.\<close>

lemma ordered_unique_Inr_iff:
  assumes "distinct order" "set order = UNIV"
  shows "ordered_unique values order label = Inr () \<longleftrightarrow>
    sorted (map (\<lambda>v. the (position order v)) values) \<and> distinct values"
proof -
  let ?p = "\<lambda>v. the (position order v)"
  have some: "position order v = Some (?p v)" for v
    using assms(2) position_None_iff [of order v] by (cases "position order v") auto
  then have "map (position order) values = map Some (map ?p values)" by (simp add: comp_def)
  then have "ordered_unique values order label = Inr () \<longleftrightarrow> successively (<) (map ?p values)"
    by (simp only: ordered_unique_def those_map_Some option.case require_Inr_iff)
  moreover have nth: "order ! ?p v = v" for v
    using some position_Some_iff [OF assms(1)] by blast
  have "inj ?p" by (rule inj_on_inverseI [where g = "\<lambda>i. order ! i"]) (rule nth)
  then have "distinct (map ?p values) \<longleftrightarrow> distinct values"
    by (meson distinct_map inj_on_subset subset_UNIV)
  ultimately show ?thesis
    by (simp only: successively_conv_sorted_wrt [OF transp_on_less] strict_sorted_iff)
qed

lemma successively_fst_less_iff:
  "successively (\<lambda>a b. fst a < fst b) xs \<longleftrightarrow> sorted (map fst xs) \<and> distinct (map fst xs)"
  for xs :: "('k :: linorder \<times> 'v) list"
  using successively_map [of "(<)" fst xs]
  by (simp add: successively_conv_sorted_wrt strict_sorted_iff)

lemma sorted_unique_Inr_iff [passes]:
  "sorted_unique_strings names label = Inr () \<longleftrightarrow> sorted names \<and> distinct names"
  "sorted_unique_pairs pairs label = Inr () \<longleftrightarrow> sorted (map fst pairs) \<and> distinct (map fst pairs)"
  "sorted_unique_crossing_pairs gs = Inr () \<longleftrightarrow>
     sorted (map fst gs) \<and> distinct (map fst gs) \<and> (\<forall>(k, g) \<in> set gs. sg_remaining g \<le> sg_provisioned g)"
  by (simp_all add: sorted_unique_strings_def sorted_unique_pairs_def sorted_unique_crossing_pairs_def
      passes successively_fst_less_iff successively_conv_sorted_wrt strict_sorted_iff)

lemma validate_hex_Inr_iff [passes]:
  "validate_hex v n = Inr () \<longleftrightarrow>
     v \<noteq> [] \<and> even (length v) \<and> (\<forall>len. n = Some len \<longrightarrow> length v = len) \<and> (\<forall>c \<in> set v. canonical_hex_byte c)"
  by (cases n) (auto simp: validate_hex_def passes even_iff_mod_2_eq_zero)

subsection \<open>Steps\<close>

lemma validate_telemetry_Inr_iff [passes]:
  "validate_telemetry te c = Inr () \<longleftrightarrow> te_command te = command_tag_of c \<and>
     (te_outcome te = TelAccepted \<longrightarrow> te_reason te = None) \<and>
     (te_outcome te = TelKernelRefused \<or> te_outcome te = TelBoundaryRefused \<longrightarrow> te_reason te \<noteq> None)"
  by (cases "te_outcome te") (auto simp: validate_telemetry_def passes)

lemma validate_result_Inr_iff [passes]:
  "validate_result cp previous chain = Inr () \<longleftrightarrow>
     (case cp_result cp of
        ExpectAccepted action \<Rightarrow>
          sq_sequence (cp_chain cp) = sq_sequence chain + 1 \<and>
          te_outcome (cp_telemetry cp) = TelAccepted \<and>
          te_sequence (cp_telemetry cp) = Some (sq_sequence (cp_chain cp))
      | ExpectError kind reason \<Rightarrow>
          kind = ClassKernel \<and> reason \<noteq> [] \<and> cp_chain cp = chain \<and>
          (\<forall>state. previous = Some state \<longrightarrow> cp_state cp = state) \<and>
          te_outcome (cp_telemetry cp) = TelKernelRefused \<and> te_sequence (cp_telemetry cp) = None)"
  by (cases "cp_result cp") (simp_all add: validate_result_def passes)

lemma validate_step_Inr_iff:
  "validate_step step (ids, previous, chain) = Inr r \<longleftrightarrow>
     st_id step \<noteq> [] \<and> st_id step \<notin> ids \<and> validate_command_sets (st_command step) = Inr () \<and>
     validate_state (cp_state (st_expected step)) = Inr () \<and>
     sq_version (cp_chain (st_expected step)) = 5 \<and>
     validate_hex (sq_head (cp_chain (st_expected step))) (Some 64) = Inr () \<and>
     (\<forall>t. cp_transcript_hex (st_expected step) = Some t \<longrightarrow> validate_hex t None = Inr ()) \<and>
     validate_result (st_expected step) previous chain = Inr () \<and>
     validate_telemetry (cp_telemetry (st_expected step)) (st_command step) = Inr () \<and>
     r = (insert (st_id step) ids, Some (cp_state (st_expected step)), cp_chain (st_expected step))"
  by (simp only: validate_step_def Let_def prod.case and_then_unique_id and_then_check_Inr_iff
      require_Inr_iff option_check_Inr_iff sum.inject) blast

subsection \<open>The corpus\<close>

definition closed_vocabulary :: vocabulary where
  "closed_vocabulary =
     \<lparr>vo_actions = ACTIONS, vo_capabilities = CAPABILITIES, vo_egress = EGRESS,
      vo_confidentiality = CONFIDENTIALITY, vo_integrity = INTEGRITY, vo_modes = MODES,
      vo_verdicts = VERDICTS, vo_dispositions = DISPOSITIONS, vo_outcomes = OUTCOMES,
      vo_fallbacks = FALLBACKS, vo_cross_branches = CROSS_BRANCHES, vo_admissions = ADMISSIONS,
      vo_telemetry_outcomes = TELEMETRY_OUTCOMES\<rparr>"

lemma validate_vocabulary_Inr_iff [passes]: "validate_vocabulary v = Inr () \<longleftrightarrow> v = closed_vocabulary"
  by (cases v) (simp add: validate_vocabulary_def passes closed_vocabulary_def)

definition fresh_ids :: "string set \<Rightarrow> string list \<Rightarrow> bool" where
  "fresh_ids ids new \<longleftrightarrow> distinct new \<and> [] \<notin> set new \<and> set new \<inter> ids = {}"

lemma fresh_ids_append:
  "fresh_ids ids (new @ later) \<longleftrightarrow> fresh_ids ids new \<and> fresh_ids (ids \<union> set new) later"
  by (auto simp: fresh_ids_def)

text \<open>A loop that draws a fresh identifier from each value and collects what the values name.\<close>

lemma for_each_ids_Inr_iff:
  assumes "\<And>x ids found r. body x (ids, found) = Inr r \<longleftrightarrow>
    key x \<noteq> [] \<and> key x \<notin> ids \<and> P x \<and> r = (insert (key x) ids, found \<union> names x)"
  shows "for_each body xs (ids, found) = Inr r \<longleftrightarrow>
    ((\<forall>x \<in> set xs. P x) \<and> fresh_ids ids (map key xs)) \<and>
    r = (ids \<union> set (map key xs), found \<union> (\<Union>x \<in> set xs. names x))"
proof (induction xs arbitrary: ids found)
  case (Cons x xs)
  show ?case
    by (simp only: for_each.simps and_then_Inr_iff assms) (auto simp: Cons.IH fresh_ids_def)
qed (auto simp: fresh_ids_def)

lemma for_each_fresh_Inr_iff:
  assumes "\<And>x ids r. body x ids = Inr r \<longleftrightarrow> key x \<noteq> [] \<and> key x \<notin> ids \<and> P x \<and> r = insert (key x) ids"
  shows "for_each body xs ids = Inr r \<longleftrightarrow>
    ((\<forall>x \<in> set xs. P x) \<and> fresh_ids ids (map key xs)) \<and>
    r = ids \<union> set (map key xs)"
proof (induction xs arbitrary: ids)
  case (Cons x xs)
  show ?case
    by (simp only: for_each.simps and_then_Inr_iff assms) (auto simp: Cons.IH fresh_ids_def)
qed (auto simp: fresh_ids_def)

lemma validate_semantic_Inr_iff:
  "validate_semantic c (ids, coverage) = Inr r \<longleftrightarrow>
     sm_id c \<noteq> [] \<and> sm_id c \<notin> ids \<and> (distinct (sm_covers c) \<and> validate_case c = Inr ()) \<and>
     r = (insert (sm_id c) ids, coverage \<union> set (sm_covers c))"
  by (auto simp: validate_semantic_def Let_def passes)

lemma validate_boundary_Inr_iff:
  "validate_boundary c ids = Inr r \<longleftrightarrow>
     bc_id c \<noteq> [] \<and> bc_id c \<notin> ids \<and>
     (\<forall>te. bc_telemetry c = Some te \<longrightarrow> te_outcome te = TelBoundaryRefused \<and> te_sequence te = None \<and>
        te_reason te = Some (ee_reason (bc_expected c))) \<and>
     r = insert (bc_id c) ids"
  by (auto simp: validate_boundary_def passes split: option.splits)

lemma validate_recovery_Inr_iff:
  "validate_recovery cs c ids = Inr r \<longleftrightarrow>
     rc_id c \<noteq> [] \<and> rc_id c \<notin> ids \<and> (rc_source_case c \<in> set (map sm_id cs) \<and> rc_telemetry_events c = 0) \<and>
     r = insert (rc_id c) ids"
proof -
  have "(\<exists>semantic \<in> set cs. sm_id semantic = rc_source_case c) \<longleftrightarrow> rc_source_case c \<in> set (map sm_id cs)"
    by force
  then show ?thesis by (auto simp: validate_recovery_def passes)
qed

lemma validate_golden_Inr_iff:
  "validate_golden g ids = Inr r \<longleftrightarrow>
     go_id g \<noteq> [] \<and> go_id g \<notin> ids \<and>
     (validate_hex (go_transcript_hex g) None = Inr () \<and> validate_hex (go_digest g) (Some 64) = Inr ()) \<and>
     r = insert (go_id g) ids"
  by (simp only: validate_golden_def and_then_unique_id and_then_check_Inr_iff sum.inject) blast

definition corpus_ids :: "corpus \<Rightarrow> string list" where
  "corpus_ids co = map sm_id (co_semantic_cases co) @ map bc_id (co_boundary_cases co) @
     map rc_id (co_recovery_cases co) @ map go_id (co_goldens co)"

lemmas corpus_loops =
  for_each_ids_Inr_iff [of validate_semantic sm_id _ "\<lambda>c. set (sm_covers c)", OF validate_semantic_Inr_iff]
  for_each_fresh_Inr_iff [of validate_boundary bc_id, OF validate_boundary_Inr_iff]
  for_each_fresh_Inr_iff [of "validate_recovery cs" rc_id _ _ for cs, OF validate_recovery_Inr_iff]
  for_each_fresh_Inr_iff [of validate_golden go_id, OF validate_golden_Inr_iff]

lemma and_then_point:
  assumes "\<And>r. loop = Inr r \<longleftrightarrow> P \<and> r = c"
  shows "and_then loop f = Inr y \<longleftrightarrow> P \<and> f c = Inr y"
  unfolding and_then_Inr_iff assms by blast

lemmas and_then_loops = corpus_loops [THEN and_then_point]

end
