(* ===== verification/Conformance_Harness.thy ===== *)
theory Conformance_Harness
  imports Native_History Conformance_Checks
begin

text \<open>
  The native side of the conformance corpus (\<open>argus_nif/src/conformance_tests.rs\<close>): translations
  between schema and wire values, and the loop that executes a semantic case on a live instance and
  compares every checkpoint, then recovers every prefix of the accepted envelopes. A failed assertion
  or \<open>expect\<close> is \<^const>\<open>None\<close> or \<^const>\<open>False\<close>. The lemmas show that everything a native
  instance can be observed to do passes the checks of the schema.
\<close>

subsection \<open>Enumerations\<close>

fun mode_of :: "schema_mode \<Rightarrow> mode_n" where
  "mode_of SEnforce = EnforceN"
| "mode_of SMonitor = MonitorN"

fun conf_of :: "schema_conf \<Rightarrow> conf_level_n" where
  "conf_of SPublic = PublicN"
| "conf_of SInternal = InternalN"
| "conf_of SSensitive = SensitiveN"
| "conf_of SRestricted = RestrictedN"

fun conf_s :: "conf_level_n \<Rightarrow> schema_conf" where
  "conf_s PublicN = SPublic"
| "conf_s InternalN = SInternal"
| "conf_s SensitiveN = SSensitive"
| "conf_s RestrictedN = SRestricted"

fun integ_of :: "schema_integ \<Rightarrow> integ_level_n" where
  "integ_of SUntrusted = UntrustedN"
| "integ_of SStandard = StandardN"
| "integ_of STrusted = TrustedN"
| "integ_of SAttested = AttestedN"

fun integ_s :: "integ_level_n \<Rightarrow> schema_integ" where
  "integ_s UntrustedN = SUntrusted"
| "integ_s StandardN = SStandard"
| "integ_s TrustedN = STrusted"
| "integ_s AttestedN = SAttested"

fun egress_of :: "schema_egress \<Rightarrow> egress_kind_n" where
  "egress_of SNetworkExternal = NEgNetworkExternal"
| "egress_of SNetworkInternal = NEgNetworkInternal"
| "egress_of SFilesystemWrite = NEgFilesystemWrite"
| "egress_of SIpc = NEgIpc"

fun egress_s :: "egress_kind_n \<Rightarrow> schema_egress" where
  "egress_s NEgNetworkExternal = SNetworkExternal"
| "egress_s NEgNetworkInternal = SNetworkInternal"
| "egress_s NEgFilesystemWrite = SFilesystemWrite"
| "egress_s NEgIpc = SIpc"

fun outcome_of :: "schema_outcome \<Rightarrow> outcome_n" where
  "outcome_of SSuccess = SuccessN"
| "outcome_of SFailure = FailureN"
| "outcome_of SAmbiguous = AmbiguousN"

fun outcome_s :: "outcome_n \<Rightarrow> schema_outcome" where
  "outcome_s SuccessN = SSuccess"
| "outcome_s FailureN = SFailure"
| "outcome_s AmbiguousN = SAmbiguous"

fun fallback_of :: "schema_fallback \<Rightarrow> fallback_n" where
  "fallback_of SFallbackFail = FbFailN"
| "fallback_of SReleaseUnendorsed = ReleaseUnendorsedN"

fun disposition_s :: "disposition_n \<Rightarrow> schema_disposition" where
  "disposition_s PermittedN = SPermitted"
| "disposition_s BlockedN = SBlocked"
| "disposition_s MonitorBypassedN = SMonitorBypassed"

fun verdict_s :: "verdict_n \<Rightarrow> schema_verdict" where
  "verdict_s AllowN = SAllow"
| "verdict_s InspectionRequiredN = SInspectionRequired"
| "verdict_s DenyN = SDeny"

fun branch_s :: "cross_branch_n \<Rightarrow> schema_branch" where
  "branch_s EndorsedN = SEndorsed"
| "branch_s UnendorsedN = SUnendorsed"
| "branch_s BrFailN = SBranchFail"

text \<open>Capabilities are translated by their position in the two catalogues.\<close>

definition cap_of :: "schema_capability \<Rightarrow> cap_kind_n" where
  "cap_of v = cap_from_kernel (cap_all ! the (position CAPABILITIES v))"

definition cap_s :: "cap_kind_n \<Rightarrow> schema_capability" where
  "cap_s v = CAPABILITIES ! unat (cap_tag v)"

subsection \<open>Commands, actions and states\<close>

definition ceiling_of :: "schema_ceiling \<Rightarrow> egress_kind_n \<Rightarrow> conf_level_n option option" where
  "ceiling_of c = Map.empty
     (NEgNetworkExternal \<mapsto> map_option conf_of (sc_network_external c),
      NEgNetworkInternal \<mapsto> map_option conf_of (sc_network_internal c),
      NEgFilesystemWrite \<mapsto> map_option conf_of (sc_filesystem_write c),
      NEgIpc \<mapsto> map_option conf_of (sc_ipc c))"

definition background_of :: "schema_background \<Rightarrow> background_n" where
  "background_of b =
     \<lparr>bn_mode = mode_of (sb_mode b), bn_allow_ceiling = ceiling_of (sb_allow_ceiling b),
      bn_inspect_ceiling = ceiling_of (sb_inspect_ceiling b)\<rparr>"

definition policy_of :: "schema_policy \<Rightarrow> action_policy_snapshot_n" where
  "policy_of p =
     \<lparr>pn_tool = sp_tool p, pn_required_caps = map cap_of (sp_required_caps p),
      pn_conf_clearance = conf_of (sp_conf_clearance p), pn_integ_floor = integ_of (sp_integ_floor p),
      pn_integ_inspect = integ_of (sp_integ_inspect p), pn_output_conf = conf_of (sp_output_conf p),
      pn_output_integ = integ_of (sp_output_integ p),
      pn_declared_egress = map egress_of (sp_declared_egress p),
      pn_policy_digest = sp_policy_digest p\<rparr>"

definition policy_s :: "action_policy_snapshot_n \<Rightarrow> schema_policy" where
  "policy_s p =
     \<lparr>sp_tool = pn_tool p, sp_required_caps = map cap_s (pn_required_caps p),
      sp_conf_clearance = conf_s (pn_conf_clearance p), sp_integ_floor = integ_s (pn_integ_floor p),
      sp_integ_inspect = integ_s (pn_integ_inspect p), sp_output_conf = conf_s (pn_output_conf p),
      sp_output_integ = integ_s (pn_output_integ p),
      sp_declared_egress = map egress_s (pn_declared_egress p),
      sp_policy_digest = pn_policy_digest p\<rparr>"

definition inspection_of :: "schema_inspection \<Rightarrow> inspection_attestation_n" where
  "inspection_of t =
     \<lparr>ian_id = si_id t, ian_inv = si_inv t, ian_challenge = si_challenge t,
      ian_args_hash = si_args_hash t, ian_policy_digest = si_policy_digest t,
      ian_positive = si_positive t\<rparr>"

definition resolution_of :: "schema_resolution \<Rightarrow> resolution_attestation_n" where
  "resolution_of r =
     \<lparr>ran_id = sr_id r, ran_inv = sr_inv r, ran_outcome = outcome_of (sr_outcome r)\<rparr>"

definition conformance_of :: "schema_conformance \<Rightarrow> conformance_attestation_n" where
  "conformance_of e =
     \<lparr>can_id = sf_id e, can_output = sf_output e, can_src = sf_src e, can_rcv = sf_rcv e,
      can_descriptor = sf_descriptor e, can_assignment = sf_assignment e,
      can_positive = sf_positive e\<rparr>"

definition cross_of :: "schema_cross_input \<Rightarrow> cross_input_n" where
  "cross_of q =
     \<lparr>xn_src = sx_src q, xn_rcv = sx_rcv q, xn_crossing = sx_crossing q,
      xn_output_hash = sx_output_hash q, xn_descriptor = sx_descriptor q,
      xn_fallback = fallback_of (sx_fallback q), xn_t_integ = integ_of (sx_t_integ q),
      xn_t_conf = map_option conf_of (sx_t_conf q), xn_assignment = sx_assignment q,
      xn_evidence = map_option conformance_of (sx_evidence q),
      xn_released_conf = conf_of (sx_released_conf q),
      xn_released_integ = integ_of (sx_released_integ q)\<rparr>"

fun command_of :: "schema_command \<Rightarrow> command_n" where
  "command_of (SCmdRegisterTool t) = CmdRegisterTool t"
| "command_of (SCmdUnregisterTool t) = CmdUnregisterTool t"
| "command_of (SCmdDelegate p c) = CmdDelegate p c"
| "command_of (SCmdGrantCapability p c k) = CmdGrantCapability p c (cap_of k)"
| "command_of (SCmdGrantCrossing g a d n) = CmdGrantCrossing g a d n"
| "command_of (SCmdRevoke p a) = CmdRevoke p a"
| "command_of (SCmdCascadeRevoke c p) = CmdCascadeRevoke c p"
| "command_of (SCmdIngest a src l i) = CmdIngest a src (conf_of l) (integ_of i)"
| "command_of (SCmdBeginInvocation a i ch p egr ah auth) =
     CmdBeginInvocation a i ch (policy_of p) (map egress_of egr) ah auth"
| "command_of (SCmdAuthorizeInspected i t) = CmdAuthorizeInspected i (inspection_of t)"
| "command_of (SCmdSettleInvocation i out r) =
     CmdSettleInvocation i (outcome_of out) (map_option resolution_of r)"
| "command_of (SCmdCrossOutput q) = CmdCrossOutput (cross_of q)"

fun action_s :: "action_n \<Rightarrow> schema_action" where
  "action_s (NActRegisterTool t) = SActRegisterTool t"
| "action_s (NActUnregisterTool t) = SActUnregisterTool t"
| "action_s (NActDelegate p c) = SActDelegate p c"
| "action_s (NActGrantCapability p c k) = SActGrantCapability p c (cap_s k)"
| "action_s (NActGrantCrossing g a d n) = SActGrantCrossing g a d n"
| "action_s (NActRevoke p a) = SActRevoke p a"
| "action_s (NActCascadeRevoke c p) = SActCascadeRevoke c p"
| "action_s (NActIngest a src l i d) = SActIngest a src (conf_s l) (integ_s i) (disposition_s d)"
| "action_s (NActBeginInvocation a i t v auth) = SActBeginInvocation a i t (verdict_s v) auth"
| "action_s (NActAuthorizeInspected i t admitted) = SActAuthorizeInspected i t admitted"
| "action_s (NActSettleInvocation i a d out c l r) =
     SActSettleInvocation i a (disposition_s d) (outcome_s out) (conf_s c) (integ_s l) r"
| "action_s (NActCrossOutput src rcv x b d) =
     SActCrossOutput src rcv x (branch_s b) (disposition_s d)"

fun admission_s :: "admission_n \<Rightarrow> schema_admission" where
  "admission_s PlainN = \<lparr>sd_kind = TagPlain, sd_attestation = None\<rparr>"
| "admission_s (InspectedN i) = \<lparr>sd_kind = TagInspected, sd_attestation = Some i\<rparr>"
| "admission_s BypassedN = \<lparr>sd_kind = TagBypassed, sd_attestation = None\<rparr>"

definition pending_s :: "pending_invocation_n \<Rightarrow> schema_pending" where
  "pending_s j =
     \<lparr>sj_agent = jn_agent j, sj_policy = policy_s (jn_policy j),
      sj_egress = map egress_s (jn_egress j), sj_admission = admission_s (jn_admission j),
      sj_disposition = disposition_s (jn_disposition j), sj_authorized = jn_authorized j,
      sj_quarantined = jn_quarantined j\<rparr>"

definition challenge_s :: "challenge_scope_n \<Rightarrow> schema_challenge" where
  "challenge_s c =
     \<lparr>sh_challenge = sn_challenge c, sh_agent = sn_agent c, sh_policy = policy_s (sn_policy c),
      sh_egress = map egress_s (sn_egress c), sh_args_hash = sn_args_hash c,
      sh_authorized = sn_authorized c\<rparr>"

definition grant_s :: "crossing_grant_n \<Rightarrow> schema_grant" where
  "grant_s g = \<lparr>sg_remaining = gn_remaining g, sg_provisioned = gn_provisioned g\<rparr>"

definition map_values :: "('v \<Rightarrow> 'w) \<Rightarrow> ('k \<times> 'v) list \<Rightarrow> ('k \<times> 'w) list" where
  "map_values f kvs = map (\<lambda>(k, v). (k, f v)) kvs"

definition state_s :: "state_n \<Rightarrow> schema_state" where
  "state_s z =
     \<lparr>ss_agent_active = zn_agent_active z, ss_agent_parent = zn_agent_parent z,
      ss_agent_cap = map_values (map cap_s) (zn_agent_cap z),
      ss_taint_levels = map_values (map conf_s) (zn_taint_levels z),
      ss_integ_levels = map_values (map integ_s) (zn_integ_levels z),
      ss_pending = map_values pending_s (zn_pending z),
      ss_challenges = map_values challenge_s (zn_challenges z),
      ss_consumed_ids = zn_consumed_ids z, ss_consumed_attestations = zn_consumed_attestations z,
      ss_consumed_crossings = zn_consumed_crossings z,
      ss_crossing_grants = map_values grant_s (zn_crossing_grants z),
      ss_tool_registered = zn_tool_registered z\<rparr>"

subsection \<open>Digests as hexadecimal text\<close>

definition hex_digit :: "nat \<Rightarrow> char" where
  "hex_digit n = ''0123456789abcdef'' ! n"

text \<open>\<open>format!("{byte:02x}")\<close> for each byte.\<close>

definition hex :: "byte list \<Rightarrow> string" where
  "hex bytes = concat (map (\<lambda>b. [hex_digit (unat b div 16), hex_digit (unat b mod 16)]) bytes)"

text \<open>
  \<open>u8::from_str_radix(.., 16)\<close> on two characters: digits of either case, or a sign and one digit.
\<close>

definition digit_value :: "char \<Rightarrow> nat option" where
  "digit_value c =
     (if CHR ''0'' \<le> c \<and> c \<le> CHR ''9'' then Some (of_char c - of_char CHR ''0'')
      else if CHR ''a'' \<le> c \<and> c \<le> CHR ''f'' then Some (of_char c - of_char CHR ''a'' + 10)
      else if CHR ''A'' \<le> c \<and> c \<le> CHR ''F'' then Some (of_char c - of_char CHR ''A'' + 10)
      else None)"

definition byte_of_digits :: "char \<Rightarrow> char \<Rightarrow> byte option" where
  "byte_of_digits c d =
     (if c = CHR ''+'' then map_option of_nat (digit_value d)
      else case (digit_value c, digit_value d) of
        (Some m, Some n) \<Rightarrow> Some (of_nat (16 * m + n))
      | _ \<Rightarrow> None)"

fun bytes_of_hex :: "string \<Rightarrow> byte list option" where
  "bytes_of_hex [] = Some []"
| "bytes_of_hex [c] = None"
| "bytes_of_hex (c # d # rest) =
     (case (byte_of_digits c d, bytes_of_hex rest) of
        (Some b, Some bs) \<Rightarrow> Some (b # bs)
      | _ \<Rightarrow> None)"

definition digest_of :: "string \<Rightarrow> digest_n option" where
  "digest_of value =
     (case bytes_of_hex value of
        Some bytes \<Rightarrow> if length bytes = 32 then Some (DigestN bytes) else None
      | None \<Rightarrow> None)"

definition chain_s :: "chain_n \<Rightarrow> schema_chain" where
  "chain_s c =
     \<lparr>sq_version = cn_version c, sq_sequence = cn_sequence c, sq_head = hex (digest_bytes (cn_head c))\<rparr>"

subsection \<open>Error names\<close>

fun kernel_error_name :: "kernel_error_n \<Rightarrow> string" where
  "kernel_error_name NToolAlreadyRegistered = ''tool_already_registered''"
| "kernel_error_name NToolNotRegistered = ''tool_not_registered''"
| "kernel_error_name NToolInUse = ''tool_in_use''"
| "kernel_error_name NAgentInactive = ''agent_inactive''"
| "kernel_error_name NAgentAlreadyActive = ''agent_already_active''"
| "kernel_error_name NRootNotAllowed = ''root_not_allowed''"
| "kernel_error_name NNotDirectChild = ''not_direct_child''"
| "kernel_error_name NParentStillActive = ''parent_still_active''"
| "kernel_error_name NAgentHasChildren = ''agent_has_children''"
| "kernel_error_name NCapabilityMissing = ''capability_missing''"
| "kernel_error_name NNotRoot = ''not_root''"
| "kernel_error_name NInvocationExists = ''invocation_exists''"
| "kernel_error_name NInvocationReplayed = ''invocation_replayed''"
| "kernel_error_name NNotPending = ''not_pending''"
| "kernel_error_name NEgressNotNarrowing = ''egress_not_narrowing''"
| "kernel_error_name NEgressNotCovering = ''egress_not_covering''"
| "kernel_error_name NIncoherentPolicy = ''incoherent_policy''"
| "kernel_error_name NChallengeAlreadyOpen = ''challenge_already_open''"
| "kernel_error_name NClearanceDenied = ''clearance_denied''"
| "kernel_error_name NFlowGateBlocked = ''flow_gate_blocked''"
| "kernel_error_name NAuthorizerDenied = ''authorizer_denied''"
| "kernel_error_name NIntegrityFloorDenied = ''integrity_floor_denied''"
| "kernel_error_name NPairwiseConflict = ''pairwise_conflict''"
| "kernel_error_name NChallengeNotOpen = ''challenge_not_open''"
| "kernel_error_name NChallengeScopeMismatch = ''challenge_scope_mismatch''"
| "kernel_error_name NAttestationConsumed = ''attestation_consumed''"
| "kernel_error_name NInspectionNegative = ''inspection_negative''"
| "kernel_error_name NBlockedPending = ''blocked_pending''"
| "kernel_error_name NNotQuarantined = ''not_quarantined''"
| "kernel_error_name NQuarantineResolutionRequired = ''quarantine_resolution_required''"
| "kernel_error_name NResolutionAttestationInvalid = ''resolution_attestation_invalid''"
| "kernel_error_name NIngestHoldFailed = ''ingest_hold_failed''"
| "kernel_error_name NProvenanceNotDominated = ''provenance_not_dominated''"
| "kernel_error_name NCrossingReplayed = ''crossing_replayed''"
| "kernel_error_name NGrantMissing = ''grant_missing''"
| "kernel_error_name NGrantExhausted = ''grant_exhausted''"
| "kernel_error_name NSourceInFlight = ''source_in_flight''"
| "kernel_error_name NCrossingBoundViolated = ''crossing_bound_violated''"
| "kernel_error_name NCrossingHoldFailed = ''crossing_hold_failed''"
| "kernel_error_name NEventStore = ''event_store''"

fun native_error_name :: "error_n \<Rightarrow> string" where
  "native_error_name (NKernel cause) = kernel_error_name cause"
| "native_error_name InstanceBusy = ''instance_busy''"
| "native_error_name ResourcePoisoned = ''resource_poisoned''"
| "native_error_name CapacityExceeded = ''capacity_exceeded''"
| "native_error_name SequenceExhausted = ''sequence_exhausted''"
| "native_error_name InvalidVersion = ''invalid_version''"
| "native_error_name SequenceMismatch = ''sequence_mismatch''"
| "native_error_name PreviousDigestMismatch = ''previous_digest_mismatch''"
| "native_error_name ActionMismatch = ''action_mismatch''"
| "native_error_name DigestMismatch = ''digest_mismatch''"
| "native_error_name (ReplayRefused cause) = ''replay_refused:'' @ kernel_error_name cause"
| "native_error_name RecoveryConsumed = ''recovery_consumed''"
| "native_error_name FinalAnchorMismatch = ''final_anchor_mismatch''"

subsection \<open>Executing a semantic case\<close>

definition checkpoint_ok :: "live_instance \<Rightarrow> checkpoint \<Rightarrow> bool" where
  "checkpoint_ok live cp \<longleftrightarrow>
     map_ok state_s (live_state live) = Inr (cp_state cp) \<and>
     map_ok chain_s (live_status live) = Inr (cp_chain cp)"

definition accepted_ok :: "chain_n \<Rightarrow> command_n \<Rightarrow> envelope_n \<Rightarrow> hash_function \<Rightarrow>
    schema_action \<Rightarrow> string option \<Rightarrow> bool" where
  "accepted_ok before_status cmd env sha256 expected_action transcript \<longleftrightarrow>
     action_s (en_action env) = expected_action \<and>
     en_previous_digest env = cn_head before_status \<and>
     en_sequence env = cn_sequence before_status + 1 \<and>
     en_digest env = link sha256 (en_previous_digest env) (en_sequence env) cmd (en_action env) \<and>
     (case transcript of
        Some expected_hex \<Rightarrow>
          hex (link_transcript (en_previous_digest env) (en_sequence env) cmd (en_action env)) = expected_hex
      | None \<Rightarrow> True)"

definition execute_step ::
  "hash_function \<Rightarrow> corpus_step \<Rightarrow> live_instance \<Rightarrow> (live_instance \<times> envelope_n list) option" where
  "execute_step sha256 step live =
     (case (live_state live, live_status live) of
        (Inr before_state, Inr before_status) \<Rightarrow>
          let native_command = command_of (st_command step); cp = st_expected step in
          (case cp_result cp of
             ExpectAccepted expected_action \<Rightarrow>
               (case live_apply sha256 live native_command of
                  (Inr envelope, live) \<Rightarrow>
                    if accepted_ok before_status native_command envelope sha256 expected_action
                         (cp_transcript_hex cp) \<and> checkpoint_ok live cp
                    then Some (live, [envelope]) else None
                | (Inl e, live) \<Rightarrow> None)
           | ExpectError class reason \<Rightarrow>
               (case live_apply sha256 live native_command of
                  (Inl e, live) \<Rightarrow>
                    if native_error_name e = reason \<and> live_state live = Inr before_state \<and>
                       live_status live = Inr before_status \<and> checkpoint_ok live cp
                    then Some (live, []) else None
                | (Inr envelope, live) \<Rightarrow> None))
      | _ \<Rightarrow> None)"

fun execute_steps ::
  "hash_function \<Rightarrow> corpus_step list \<Rightarrow> live_instance \<Rightarrow> (live_instance \<times> envelope_n list) option" where
  "execute_steps sha256 [] live = Some (live, [])"
| "execute_steps sha256 (step # steps) live =
     (case execute_step sha256 step live of
        Some (live, accepted) \<Rightarrow>
          map_option (\<lambda>(live, more). (live, accepted @ more)) (execute_steps sha256 steps live)
      | None \<Rightarrow> None)"

text \<open>The first half of the test: the envelopes accepted while every comparison held.\<close>

definition execute_case :: "hash_function \<Rightarrow> semantic_case \<Rightarrow> envelope_n list option" where
  "execute_case sha256 c =
     (let live = live_new sha256 (background_of (sm_background c)) in
      if map_ok chain_s (live_status live) = Inr (sm_initial_chain c)
      then map_option snd (execute_steps sha256 (sm_steps c) live) else None)"

text \<open>The second half: one prefix of the envelopes is replayed and finalized.\<close>

fun replay_all ::
  "hash_function \<Rightarrow> envelope_n list \<Rightarrow> recovery_instance \<Rightarrow> recovery_instance option" where
  "replay_all sha256 [] rec = Some rec"
| "replay_all sha256 (env # envs) rec =
     (case recovery_replay sha256 rec env of
        (Inr u, rec) \<Rightarrow> replay_all sha256 envs rec
      | (Inl e, rec) \<Rightarrow> None)"

definition recovers_prefix ::
  "hash_function \<Rightarrow> semantic_case \<Rightarrow> envelope_n list \<Rightarrow> nat \<Rightarrow> bool" where
  "recovers_prefix sha256 c accepted n =
     (case replay_all sha256 (take n accepted) (recovery_new sha256 (background_of (sm_background c))) of
        None \<Rightarrow> False
      | Some recovery \<Rightarrow>
          let expected = (if n = 0 then sm_initial_chain c
                else \<lparr>sq_version = VERSION, sq_sequence = en_sequence (accepted ! (n - 1)),
                  sq_head = hex (digest_bytes (en_digest (accepted ! (n - 1))))\<rparr>)
          in (case digest_of (sq_head expected) of
                None \<Rightarrow> False
              | Some head \<Rightarrow>
                  (case recovery_finalize recovery
                      \<lparr>cn_version = sq_version expected, cn_sequence = sq_sequence expected, cn_head = head\<rparr> of
                     (Inl e, recovery) \<Rightarrow> False
                   | (Inr recovered, recovery) \<Rightarrow> map_ok chain_s (live_status recovered) = Inr expected)))"

definition native_executes :: "hash_function \<Rightarrow> semantic_case \<Rightarrow> bool" where
  "native_executes sha256 c =
     (case execute_case sha256 c of
        None \<Rightarrow> False
      | Some accepted \<Rightarrow> \<forall>n \<in> set [0..<Suc (length accepted)]. recovers_prefix sha256 c accepted n)"

end
