(* ===== verification/Conformance_Soundness.thy ===== *)
theory Conformance_Soundness
  imports Conformance_Harness
begin

text \<open>
  What a native instance can be observed to do passes the schema. The observation of a reachable
  state is a valid checkpoint state, digests are canonical hexadecimal text that decodes back, a case
  that executes on a live instance fails validation only for what execution does not look at (its
  names, telemetry, the repetitions in command sets, the class and the transcript of a refusal), and
  its accepted envelopes always recover.
\<close>

subsection \<open>Vocabulary positions are canonical tags\<close>

lemma position_tags:
  "position CAPABILITIES (cap_s c) = Some (unat (cap_tag c))"
  "position CONFIDENTIALITY (conf_s l) = Some (unat (conf_tag l))"
  "position INTEGRITY (integ_s i) = Some (unat (integ_tag i))"
  "position EGRESS (egress_s e) = Some (unat (egress_tag e))"
proof -
  show "position CAPABILITIES (cap_s c) = Some (unat (cap_tag c))" by (induct c; code_simp)
  show "position CONFIDENTIALITY (conf_s l) = Some (unat (conf_tag l))" by (induct l; code_simp)
  show "position INTEGRITY (integ_s i) = Some (unat (integ_tag i))" by (induct i; code_simp)
  show "position EGRESS (egress_s e) = Some (unat (egress_tag e))" by (induct e; code_simp)
qed

lemma catalogues:
  "distinct CAPABILITIES" "distinct CONFIDENTIALITY" "distinct INTEGRITY" "distinct EGRESS"
  "set CAPABILITIES = UNIV" "set CONFIDENTIALITY = UNIV" "set INTEGRITY = UNIV" "set EGRESS = UNIV"
         apply (simp_all add: CAPABILITIES_def CONFIDENTIALITY_def INTEGRITY_def EGRESS_def)
     apply (auto intro: schema_capability.exhaust schema_conf.exhaust schema_integ.exhaust schema_egress.exhaust)
  done

lemma ordered_tags:
  fixes tag :: "'n \<Rightarrow> byte"
  assumes catalogue: "distinct order" "set order = UNIV"
    and pos: "\<And>v. position order (f v) = Some (unat (tag v))"
    and xs: "sorted (map tag xs)" "distinct xs" and inj: "inj tag"
  shows "ordered_unique (map f xs) order label = Inr ()"
proof -
  have unat_mono: "sorted (map unat ts)" if "sorted ts" for ts :: "byte list"
    using that by (induction ts) (auto simp: word_le_nat_alt)
  have "map (\<lambda>v. the (position order v)) (map f xs) = map unat (map tag xs)"
    by (simp add: pos)
  then have "sorted (map (\<lambda>v. the (position order v)) (map f xs))"
    by (rule ssubst) (rule unat_mono [OF xs(1)])
  moreover have "inj f"
  proof (rule injI)
    fix x y assume "f x = f y"
    with pos [of x] pos [of y] have "unat (tag x) = unat (tag y)" by simp
    then have "tag x = tag y" by (rule word_unat_eq_iff [THEN iffD2])
    then show "x = y" by (rule injD [OF inj])
  qed
  then have "distinct (map f xs)"
    using xs(2) by (meson distinct_map inj_on_subset subset_UNIV)
  ultimately show ?thesis
    by (simp only: ordered_unique_Inr_iff [OF catalogue])
qed

subsection \<open>Observed collections are sorted and free of repetitions\<close>

lemma distinct_map_fst_sort: "distinct (map fst (sort_key k xs)) \<longleftrightarrow> distinct (map fst xs)"
  by (rule mset_eq_imp_distinct_iff) simp

lemma map_fst_map_values [simp]: "map fst (map_values f kvs) = map fst kvs"
  by (induction kvs) (auto simp: map_values_def)

lemma set_map_values: "set (map_values f kvs) = (\<lambda>(k, v). (k, f v)) ` set kvs"
  by (simp add: map_values_def)

lemma observed_strings:
  "vs_wf a \<Longrightarrow> inj h \<Longrightarrow> sorted (sort_strings (map h (items a))) \<and> distinct (sort_strings (map h (items a)))"
  by (simp add: sort_strings_def vs_wf_def distinct_map inj_on_subset [OF _ subset_UNIV])

lemma observed_keys:
  fixes h :: "'k \<Rightarrow> 'h :: linorder"
  assumes "vm_wf m" "inj h"
  shows "sorted (map fst (sort_key fst (map (\<lambda>(k, v). (h k, g v)) (entries m))))"
    "distinct (map fst (sort_key fst (map (\<lambda>(k, v). (h k, g v)) (entries m))))"
proof -
  have keys: "map fst (map (\<lambda>(k, v). (h k, g v)) (entries m)) = map h (map fst (entries m))" by auto
  show "distinct (map fst (sort_key fst (map (\<lambda>(k, v). (h k, g v)) (entries m))))"
    unfolding distinct_map_fst_sort keys
    using assms by (subst distinct_map) (auto simp: vm_wf_def intro: inj_on_subset)
qed simp

lemma observed_tags:
  assumes "vs_wf a" "inj h"
  shows "sorted (map tag (sort_by_tag tag (map h (items a))))" "distinct (sort_by_tag tag (map h (items a)))"
  using assms by (simp_all add: sort_by_tag_def vs_wf_def distinct_map inj_on_subset [OF _ subset_UNIV])

lemma observed_sets_ordered:
  "vs_wf a \<Longrightarrow> ordered_unique (map cap_s (sort_by_tag cap_tag (map cap_from_kernel (items a)))) CAPABILITIES label = Inr ()"
  "vs_wf b \<Longrightarrow> ordered_unique (map conf_s (sort_by_tag conf_tag (map conf_from_kernel (items b)))) CONFIDENTIALITY label = Inr ()"
  "vs_wf c \<Longrightarrow> ordered_unique (map integ_s (sort_by_tag integ_tag (map integ_from_kernel (items c)))) INTEGRITY label = Inr ()"
  "vs_wf d \<Longrightarrow> ordered_unique (map egress_s (sort_by_tag egress_tag (map egress_from_kernel (items d)))) EGRESS label = Inr ()"
proof -
  have "inj cap_from_kernel" "inj conf_from_kernel" "inj integ_from_kernel" "inj egress_from_kernel"
    by (metis injI cap_wire_inverse(2), metis injI conf_wire_inverse(2),
        metis injI integ_wire_inverse(2), metis injI egress_wire_inverse(2))
  note tagged = observed_tags [OF _ this(1)] observed_tags [OF _ this(2)]
    observed_tags [OF _ this(3)] observed_tags [OF _ this(4)]
  show "vs_wf a \<Longrightarrow> ordered_unique (map cap_s (sort_by_tag cap_tag (map cap_from_kernel (items a)))) CAPABILITIES label = Inr ()"
    by (rule ordered_tags [OF catalogues(1,5) position_tags(1)]) (simp_all add: tagged)
  show "vs_wf b \<Longrightarrow> ordered_unique (map conf_s (sort_by_tag conf_tag (map conf_from_kernel (items b)))) CONFIDENTIALITY label = Inr ()"
    by (rule ordered_tags [OF catalogues(2,6) position_tags(2)]) (simp_all add: tagged)
  show "vs_wf c \<Longrightarrow> ordered_unique (map integ_s (sort_by_tag integ_tag (map integ_from_kernel (items c)))) INTEGRITY label = Inr ()"
    by (rule ordered_tags [OF catalogues(3,7) position_tags(3)]) (simp_all add: tagged)
  show "vs_wf d \<Longrightarrow> ordered_unique (map egress_s (sort_by_tag egress_tag (map egress_from_kernel (items d)))) EGRESS label = Inr ()"
    by (rule ordered_tags [OF catalogues(4,8) position_tags(4)]) (simp_all add: tagged)
qed

lemma observed_sets_distinct:
  "vs_wf a \<Longrightarrow> distinct (map cap_s (sort_by_tag cap_tag (map cap_from_kernel (items a))))"
  "vs_wf d \<Longrightarrow> distinct (map egress_s (sort_by_tag egress_tag (map egress_from_kernel (items d))))"
  using observed_sets_ordered(1) [of a "[]"] observed_sets_ordered(4) [of d "[]"]
  by (simp_all only: ordered_unique_Inr_iff [OF catalogues(1,5)] ordered_unique_Inr_iff [OF catalogues(4,8)])

subsection \<open>The observation of a reachable state is a valid checkpoint\<close>

lemma observed_policy_valid: "policy_wf p \<Longrightarrow> validate_policy_sets (policy_s (policy_observed p)) = Inr ()"
  by (simp add: validate_policy_sets_def policy_s_def policy_observed_def policy_wf_def passes
      observed_sets_distinct del: distinct_map)

lemma observed_admission_valid: "validate_admission (admission_s (admission_from_kernel d)) = Inr ()"
  by (cases d) (simp_all add: validate_admission_def passes)

lemma observed_pending_valid: "pending_wf j \<Longrightarrow> validate_pending (pending_s (pending_from_kernel j)) = Inr ()"
  by (simp add: validate_pending_def pending_s_def pending_from_kernel_def pending_wf_def passes
      observed_policy_valid observed_sets_ordered observed_admission_valid)

lemma observed_challenge_valid:
  "challenge_wf c \<Longrightarrow> validate_challenge (challenge_s (challenge_from_kernel c)) = Inr ()"
  by (simp add: validate_challenge_def challenge_s_def challenge_from_kernel_def challenge_wf_def passes
      observed_policy_valid observed_sets_ordered)

lemma observed_values_valid:
  assumes "vm_all_values P m" "\<And>v. P v \<Longrightarrow> f (schema (wire v)) = Inr ()"
  shows "for_each (\<lambda>(_, v) _. f v)
    (map_values schema (sort_string_map (map (\<lambda>(k, v). (h k, wire v)) (entries m)))) () = Inr ()"
  using assms
  by (auto simp: case_prod_unfold for_each_unit_Inr_iff set_map_values sort_string_map_def vm_all_values_def)

lemma observed_state_valid:
  assumes wf: "state_wf s"
    and grants: "\<And>k g. vm_get (crossing_grants s) k = Some g \<Longrightarrow> remaining g \<le> provisioned g"
  shows "validate_state (state_s (state_from_kernel s)) = Inr ()"
proof -
  note fields = wf_fields [OF wf]
  note sets = fields(3-5) [unfolded vm_sets_wf_def]
  let ?z = "state_s (state_from_kernel s)"
  have levels: "for_each (\<lambda>(_, vs) _. ordered_unique vs CAPABILITIES label) (ss_agent_cap ?z) () = Inr ()"
    "for_each (\<lambda>(_, vs) _. ordered_unique vs CONFIDENTIALITY label) (ss_taint_levels ?z) () = Inr ()"
    "for_each (\<lambda>(_, vs) _. ordered_unique vs INTEGRITY label) (ss_integ_levels ?z) () = Inr ()" for label
    by (simp_all only: state_s_def state_from_kernel_def schema_state.simps state_n.simps)
      (rule observed_values_valid [OF conjunct2 [OF sets(1)]] observed_values_valid [OF conjunct2 [OF sets(2)]]
        observed_values_valid [OF conjunct2 [OF sets(3)]], erule observed_sets_ordered)+
  have records: "for_each (\<lambda>(_, j) _. validate_pending j) (ss_pending ?z) () = Inr ()"
    "for_each (\<lambda>(_, c) _. validate_challenge c) (ss_challenges ?z) () = Inr ()"
    by (simp_all only: state_s_def state_from_kernel_def schema_state.simps state_n.simps)
      (rule observed_values_valid [OF fields(7)] observed_values_valid [OF fields(9)],
        erule observed_pending_valid observed_challenge_valid)+
  have grants_valid: "\<forall>(k, g) \<in> set (ss_crossing_grants ?z). sg_remaining g \<le> sg_provisioned g"
    using grants fields(13)
    by (auto simp: state_s_def state_from_kernel_def set_map_values sort_grants_def grant_s_def vm_get_wf_iff)
  show ?thesis
    unfolding validate_state_def and_then_check_Inr_iff sorted_unique_Inr_iff
    by (intro conjI levels records grants_valid)
      (simp_all add: state_s_def state_from_kernel_def fields sets observed_strings inj_identities
        sort_string_map_def sort_grants_def observed_keys)
qed

subsection \<open>Digests as text\<close>

lemma hex_digits:
  assumes "n < 16"
  shows "canonical_hex_byte (hex_digit n)" "digit_value (hex_digit n) = Some n" "hex_digit n \<noteq> CHR ''+''"
proof -
  have "\<forall>n \<in> set [0..<16]. canonical_hex_byte (hex_digit n) \<and> digit_value (hex_digit n) = Some n \<and>
      hex_digit n \<noteq> CHR ''+''"
    by code_simp
  with assms show "canonical_hex_byte (hex_digit n)" "digit_value (hex_digit n) = Some n"
    "hex_digit n \<noteq> CHR ''+''" by simp_all
qed

lemma canonical_hex_digit:
  assumes "canonical_hex_byte c"
  obtains n where "n < 16" "c = hex_digit n"
proof -
  have "\<forall>k \<in> set ([48..<58] @ [97..<103]). \<exists>n \<in> set [0..<16]. char_of k = hex_digit n"
    by code_simp
  moreover have "(of_char c :: nat) \<in> set ([48..<58] @ [97..<103])"
    using assms unfolding set_append set_upt by (auto simp: canonical_hex_byte_def less_eq_char_def)
  ultimately have "\<exists>n \<in> set [0..<16]. char_of (of_char c :: nat) = hex_digit n" by blast
  then show ?thesis using that by auto
qed

lemma hex_simps [simp]:
  "hex [] = []"
  "hex (b # bs) = hex_digit (unat b div 16) # hex_digit (unat b mod 16) # hex bs"
  by (simp_all add: hex_def)

lemma byte_nibbles: "unat (b :: byte) div 16 < 16" "unat (b :: byte) mod 16 < 16"
proof -
  have "unat b < 2 ^ LENGTH(8)" by (rule unsigned_less)
  then show "unat (b :: byte) div 16 < 16" "unat (b :: byte) mod 16 < 16"
    by (simp_all add: less_mult_imp_div_less)
qed

lemma length_hex [simp]: "length (hex bs) = 2 * length bs"
  by (induction bs) auto

lemma hex_valid: "validate_hex (hex bs) len = Inr () \<longleftrightarrow>
    bs \<noteq> [] \<and> (\<forall>n. len = Some n \<longrightarrow> n = 2 * length bs)"
proof -
  have "\<forall>c \<in> set (hex bs). canonical_hex_byte c"
    by (induction bs) (auto simp: hex_digits(1) byte_nibbles)
  moreover have "hex bs = [] \<longleftrightarrow> bs = []" by (cases bs) auto
  ultimately show ?thesis by (auto simp: passes)
qed

lemma byte_of_hex_digits: "byte_of_digits (hex_digit (unat b div 16)) (hex_digit (unat b mod 16)) = Some b"
proof -
  have "16 * (unat b div 16) + unat b mod 16 = unat b" by simp
  then show ?thesis
    by (simp only: byte_of_digits_def hex_digits [OF byte_nibbles(1)] hex_digits [OF byte_nibbles(2)]
        if_False option.case prod.case) simp
qed

lemma bytes_of_hex_hex [simp]: "bytes_of_hex (hex bs) = Some bs"
  by (induction bs) (auto simp: byte_of_hex_digits)

lemma digest_of_hex: "digest_wf d \<Longrightarrow> digest_of (hex (digest_bytes d)) = Some d"
  by (simp add: digest_of_def digest_wf_def)

text \<open>The text of a digest that passes the check is the text the native side writes for it.\<close>

lemma valid_digest_text:
  assumes "validate_hex v (Some 64) = Inr ()"
  obtains d where "digest_wf d" "v = hex (digest_bytes d)" "digest_of v = Some d"
proof -
  have "\<exists>bs. v = hex bs" if "even (length v)" "\<forall>c \<in> set v. canonical_hex_byte c"
    using that
  proof (induction v rule: bytes_of_hex.induct)
    case 1
    show ?case by (rule exI [of _ "[]"]) simp
  next
    case (3 c d rest)
    then obtain bs where bs: "rest = hex bs" by auto
    obtain m n where mn: "m < 16" "n < 16" "c = hex_digit m" "d = hex_digit n"
      using "3.prems" by (auto elim!: canonical_hex_digit)
    have "unat (of_nat (16 * m + n) :: byte) = 16 * m + n"
      using mn by (simp only: unat_of_nat) (simp add: take_bit_nat_eq_self)
    with mn bs have "c # d # rest = hex (of_nat (16 * m + n) # bs)" by simp
    then show ?case ..
  qed auto
  with assms obtain bs where bs: "v = hex bs" "length v = 64" by (auto simp: passes)
  then have "digest_wf (DigestN bs)" by (simp add: digest_wf_def)
  with bs(1) digest_of_hex [OF this] that [of "DigestN bs"] show ?thesis by simp
qed

subsection \<open>Executing a case\<close>

text \<open>A SHA-256 value has 32 bytes.\<close>

definition hash_wf :: "hash_function \<Rightarrow> bool" where
  "hash_wf sha256 \<longleftrightarrow> (\<forall>x. length (sha256 x) = 32)"

text \<open>What holds of the state behind a live instance between two steps of the test.\<close>

definition executed :: "hash_function \<Rightarrow> background_theory \<Rightarrow> instance_state \<Rightarrow> bool" where
  "executed sha256 bg st \<longleftrightarrow>
     instance_inv st \<and> reachable bg (is_kernel st) \<and> digest_wf (is_head st)"

lemma digest_wf_link: "hash_wf sha256 \<Longrightarrow> digest_wf (link sha256 p n c a)"
  and digest_wf_genesis: "hash_wf sha256 \<Longrightarrow> digest_wf (genesis sha256 w)"
  by (simp_all add: hash_wf_def digest_wf_def link_def genesis_def)

lemma executed_initial:
  "hash_wf sha256 \<Longrightarrow> executed sha256 (background_into_kernel w) (instance_initial sha256 w)"
  using instances.inv_init [OF refl, of sha256 w]
  by (simp add: executed_def digest_wf_genesis instance_initial_def reachable_initial background_into_kernel_fields)

lemma executed_extends:
  assumes "hash_wf sha256" "executed sha256 bg st" "extends sha256 bg st env st'"
  shows "executed sha256 bg st'"
proof -
  have "explained_step bg (is_kernel st) env (is_kernel st')"
    by (rule history_kernel.sim_step [OF assms(3)])
  then have "reachable bg (is_kernel st')"
    using assms(2) by (auto simp: executed_def explained_step_def intro: reachable_step)
  moreover have "instance_inv st'" using assms(2,3) by (auto simp: executed_def intro: extends_inv)
  moreover have "digest_wf (is_head st')"
    using assms(3) by (auto simp: extends_iff digest_wf_link [OF assms(1)])
  ultimately show ?thesis by (simp add: executed_def)
qed

interpretation executions: invariant_system "\<lambda>st. st = instance_initial sha256 w"
  "extends sha256 (background_into_kernel w)"
  "\<lambda>st. hash_wf sha256 \<longrightarrow> executed sha256 (background_into_kernel w) st" for sha256 w
  by unfold_locales (auto intro: executed_initial executed_extends)

definition observation :: "instance_state \<Rightarrow> schema_state" where
  "observation st = state_s (state_from_kernel (is_kernel st))"

definition anchor :: "instance_state \<Rightarrow> schema_chain" where
  "anchor st = \<lparr>sq_version = VERSION, sq_sequence = is_sequence st, sq_head = hex (digest_bytes (is_head st))\<rparr>"

lemma observation_valid: "executed sha256 bg st \<Longrightarrow> validate_state (observation st) = Inr ()"
  using reach_grants [of bg "is_kernel st"]
  by (auto simp: observation_def executed_def instance_inv_def grants_ok_def vec_simps abs_state_fields
      intro!: observed_state_valid)

lemma anchor_valid:
  "executed sha256 bg st \<Longrightarrow> sq_version (anchor st) = 5 \<and> validate_hex (sq_head (anchor st)) (Some 64) = Inr ()"
  by (auto simp: executed_def anchor_def hex_valid VERSION_def digest_wf_def)

lemma live_observed:
  assumes "idle (li_inner live)" "executed sha256 bg (mx_data (li_inner live))"
  shows "live_state live = Inr (state_from_kernel (is_kernel (mx_data (li_inner live))))"
    "map_ok state_s (live_state live) = Inr (observation (mx_data (li_inner live)))"
    "live_status live = Inr \<lparr>cn_version = VERSION, cn_sequence = is_sequence (mx_data (li_inner live)),
       cn_head = is_head (mx_data (li_inner live))\<rparr>"
    "map_ok chain_s (live_status live) = Inr (anchor (mx_data (li_inner live)))"
proof -
  have "locked (li_inner live) = Inr (mx_data (li_inner live))" using assms(1) by (simp add: locked_Inr_iff)
  moreover have "check_state (is_kernel (mx_data (li_inner live))) = Inr ()"
    using assms(2) by (simp add: executed_def instance_inv_def)
  ultimately show "live_state live = Inr (state_from_kernel (is_kernel (mx_data (li_inner live))))"
    "live_status live = Inr \<lparr>cn_version = VERSION, cn_sequence = is_sequence (mx_data (li_inner live)),
       cn_head = is_head (mx_data (li_inner live))\<rparr>"
    by (simp_all add: live_state_def live_status_def)
  then show "map_ok state_s (live_state live) = Inr (observation (mx_data (li_inner live)))"
    "map_ok chain_s (live_status live) = Inr (anchor (mx_data (li_inner live)))"
    by (simp_all add: observation_def anchor_def chain_s_def)
qed

lemma live_apply_put:
  assumes "live_apply sha256 live c = (Inr env, live')"
  shows "extends sha256 (li_background live) (mx_data (li_inner live)) env (mx_data (li_inner live'))"
    "en_command env = c" "idle (li_inner live')" "li_background live' = li_background live"
  using assms by (auto simp: live_apply_Inr_iff live_put_def idle_def)

text \<open>What a passed step says: the state it leads to, and the checkpoint it was compared with.\<close>

definition step_explained ::
  "hash_function \<Rightarrow> background_theory \<Rightarrow> corpus_step \<Rightarrow> instance_state \<Rightarrow> envelope_n list \<Rightarrow>
   instance_state \<Rightarrow> bool" where
  "step_explained sha256 bg step st accepted st' \<longleftrightarrow>
     cp_state (st_expected step) = observation st' \<and> cp_chain (st_expected step) = anchor st' \<and>
     (case cp_result (st_expected step) of
        ExpectAccepted action \<Rightarrow>
          (\<exists>env. accepted = [env] \<and> extends sha256 bg st env st' \<and>
             en_command env = command_of (st_command step) \<and> action_s (en_action env) = action \<and>
             (\<forall>t. cp_transcript_hex (st_expected step) = Some t \<longrightarrow>
                t = hex (link_transcript (is_head st) (is_sequence st + 1) (en_command env) (en_action env))))
      | ExpectError class reason \<Rightarrow> accepted = [] \<and> st' = st \<and> (\<exists>e. reason = native_error_name e))"

lemma execute_step_Some:
  assumes "hash_wf sha256" "idle (li_inner live)" "li_background live = bg"
    and "executed sha256 bg (mx_data (li_inner live))"
    and "execute_step sha256 step live = Some (live', accepted)"
  shows "idle (li_inner live')" "li_background live' = bg" "executed sha256 bg (mx_data (li_inner live'))"
    "step_explained sha256 bg step (mx_data (li_inner live)) accepted (mx_data (li_inner live'))"
proof -
  note prior = live_observed [OF assms(2,4)]
  let ?c = "command_of (st_command step)" and ?cp = "st_expected step"
  have "idle (li_inner live') \<and> li_background live' = bg \<and> executed sha256 bg (mx_data (li_inner live')) \<and>
    step_explained sha256 bg step (mx_data (li_inner live)) accepted (mx_data (li_inner live'))"
  proof (cases "cp_result ?cp")
    case (ExpectAccepted action)
    with assms(5) prior obtain env where
      apply_ok: "live_apply sha256 live ?c = (Inr env, live')" "accepted = [env]" and
      checks: "accepted_ok \<lparr>cn_version = VERSION, cn_sequence = is_sequence (mx_data (li_inner live)),
        cn_head = is_head (mx_data (li_inner live))\<rparr> ?c env sha256 action (cp_transcript_hex ?cp)"
        "checkpoint_ok live' ?cp"
      by (auto simp: execute_step_def Let_def split: prod.splits sum.splits if_splits)
    note put = live_apply_put [OF apply_ok(1), unfolded assms(3)]
    have ex: "executed sha256 bg (mx_data (li_inner live'))"
      by (rule executed_extends [OF assms(1,4) put(1)])
    note later = live_observed [OF put(3) ex]
    show ?thesis
      using ExpectAccepted apply_ok checks put ex later
      by (auto simp: step_explained_def checkpoint_ok_def accepted_ok_def split: option.splits)
  next
    case (ExpectError kind reason)
    with assms(5) prior obtain e where
      apply_error: "live_apply sha256 live ?c = (Inl e, live')" "accepted = []" and
      checks: "native_error_name e = reason" "checkpoint_ok live' ?cp"
      by (auto simp: execute_step_def Let_def split: prod.splits sum.splits if_splits)
    have "live' = live" by (rule live_apply_Inl [OF apply_error(1)])
    with ExpectError apply_error checks prior assms show ?thesis
      by (auto simp: step_explained_def checkpoint_ok_def)
  qed
  then show "idle (li_inner live')" "li_background live' = bg" "executed sha256 bg (mx_data (li_inner live'))"
    "step_explained sha256 bg step (mx_data (li_inner live)) accepted (mx_data (li_inner live'))"
    by simp_all
qed

text \<open>What validation asks of a step beyond the comparisons of the test.\<close>

fun sets_distinct :: "schema_command \<Rightarrow> bool" where
  "sets_distinct (SCmdBeginInvocation a i ch p egr ah auth) \<longleftrightarrow>
     distinct (sp_required_caps p) \<and> distinct (sp_declared_egress p) \<and> distinct egr"
| "sets_distinct c \<longleftrightarrow> True"

definition telemetry_fits :: "corpus_step \<Rightarrow> bool" where
  "telemetry_fits step \<longleftrightarrow>
     (let cp = st_expected step; te = cp_telemetry cp in
      te_command te = command_tag_of (st_command step) \<and>
      (case cp_result cp of
         ExpectAccepted action \<Rightarrow>
           te_outcome te = TelAccepted \<and> te_sequence te = Some (sq_sequence (cp_chain cp)) \<and> te_reason te = None
       | ExpectError kind reason \<Rightarrow>
           te_outcome te = TelKernelRefused \<and> te_sequence te = None \<and> te_reason te \<noteq> None))"

text \<open>The class of an expected refusal, and the transcript it may carry though no link is made.\<close>

definition refusal_labels_ok :: "corpus_step \<Rightarrow> bool" where
  "refusal_labels_ok step \<longleftrightarrow>
     (case cp_result (st_expected step) of
        ExpectAccepted action \<Rightarrow> True
      | ExpectError kind reason \<Rightarrow>
          kind = ClassKernel \<and>
          (case cp_transcript_hex (st_expected step) of
             Some t \<Rightarrow> validate_hex t None = Inr () | None \<Rightarrow> True))"

definition labelled :: "corpus_step \<Rightarrow> bool" where
  "labelled step \<longleftrightarrow>
     sets_distinct (st_command step) \<and> telemetry_fits step \<and> refusal_labels_ok step"

lemmas label_defs = labelled_def telemetry_fits_def refusal_labels_ok_def Let_def

lemma sets_distinct_iff: "validate_command_sets c = Inr () \<longleftrightarrow> sets_distinct c"
  by (cases c) (simp_all add: validate_policy_sets_def passes)

lemma error_names_nonempty: "kernel_error_name k \<noteq> []" "native_error_name e \<noteq> []"
proof -
  show "kernel_error_name k \<noteq> []" for k by (cases k) simp_all
  then show "native_error_name e \<noteq> []" by (cases e) simp_all
qed

lemma transcript_valid: "validate_hex (hex (link_transcript p n c a)) None = Inr ()"
  by (simp add: hex_valid link_transcript_def write_link_def ENVELOPE_DOMAIN_def)

lemma validate_step_iff:
  assumes "executed sha256 bg st'" "step_explained sha256 bg step st accepted st'"
    and "previous = None \<or> previous = Some (observation st)"
  shows "validate_step step (ids, previous, anchor st) = Inr r \<longleftrightarrow>
    st_id step \<noteq> [] \<and> st_id step \<notin> ids \<and> labelled step \<and>
    r = (insert (st_id step) ids, Some (observation st'), anchor st')"
proof (cases "cp_result (st_expected step)")
  case (ExpectAccepted action)
  with assms(2) obtain env where env: "extends sha256 bg st env st'"
    "\<forall>t. cp_transcript_hex (st_expected step) = Some t \<longrightarrow>
      t = hex (link_transcript (is_head st) (is_sequence st + 1) (en_command env) (en_action env))"
    and cp: "cp_state (st_expected step) = observation st'" "cp_chain (st_expected step) = anchor st'"
    by (auto simp: step_explained_def)
  have "\<forall>t. cp_transcript_hex (st_expected step) = Some t \<longrightarrow> validate_hex t None = Inr ()"
    using env(2) transcript_valid by blast
  moreover have "sq_sequence (anchor st') = sq_sequence (anchor st) + 1"
    using env(1) by (simp add: anchor_def extends_iff)
  ultimately show ?thesis
    using ExpectAccepted observation_valid [OF assms(1)] anchor_valid [OF assms(1)]
    unfolding validate_step_Inr_iff validate_result_Inr_iff validate_telemetry_Inr_iff sets_distinct_iff cp
    by (auto simp: label_defs cp)
next
  case (ExpectError kind reason)
  with assms(2) obtain e where st': "st' = st" "reason = native_error_name e"
    and cp: "cp_state (st_expected step) = observation st'" "cp_chain (st_expected step) = anchor st'"
    by (auto simp: step_explained_def)
  show ?thesis
    using ExpectError observation_valid [OF assms(1)] anchor_valid [OF assms(1)] assms(3)
    unfolding validate_step_Inr_iff validate_result_Inr_iff validate_telemetry_Inr_iff sets_distinct_iff cp
    by (auto simp: label_defs cp st' error_names_nonempty split: option.split)
qed

definition fresh_labels :: "string set \<Rightarrow> corpus_step list \<Rightarrow> bool" where
  "fresh_labels ids steps \<longleftrightarrow>
     (\<forall>step \<in> set steps. labelled step \<and> st_id step \<noteq> [] \<and> st_id step \<notin> ids) \<and> distinct (map st_id steps)"

lemma execute_steps_Some:
  assumes "hash_wf sha256" "idle (li_inner live)" "li_background live = bg"
    and "executed sha256 bg (mx_data (li_inner live))"
    and "previous = None \<or> previous = Some (observation (mx_data (li_inner live)))"
    and "execute_steps sha256 steps live = Some (live', accepted)"
  shows "run (extends sha256 bg) (mx_data (li_inner live)) accepted (mx_data (li_inner live')) \<and>
    ((\<exists>r. for_each validate_step steps (ids, previous, anchor (mx_data (li_inner live))) = Inr r) \<longleftrightarrow>
       fresh_labels ids steps)"
  using assms(2-6)
proof (induction steps arbitrary: live accepted ids previous)
  case Nil
  then show ?case by (simp add: fresh_labels_def)
next
  case (Cons step steps)
  let ?st = "mx_data (li_inner live)"
  from Cons.prems(5) obtain live1 acc1 acc2 where
    first: "execute_step sha256 step live = Some (live1, acc1)"
    and rest: "execute_steps sha256 steps live1 = Some (live', acc2)" and acc: "accepted = acc1 @ acc2"
    by (auto split: option.splits prod.splits)
  let ?st1 = "mx_data (li_inner live1)"
  note one = execute_step_Some [OF assms(1) Cons.prems(1-3) first]
  have "run (extends sha256 bg) ?st acc1 ?st1"
    using one(4) by (auto simp: step_explained_def run_Cons_iff split: result_expectation.splits)
  moreover have IH: "run (extends sha256 bg) ?st1 acc2 (mx_data (li_inner live')) \<and>
      ((\<exists>r. for_each validate_step steps (ids', Some (observation ?st1), anchor ?st1) = Inr r) \<longleftrightarrow>
        fresh_labels ids' steps)" for ids'
    by (rule Cons.IH [OF one(1-3) _ rest]) simp
  ultimately have "run (extends sha256 bg) ?st accepted (mx_data (li_inner live'))"
    unfolding acc by (blast intro: run_append)
  moreover have "(\<exists>r. for_each validate_step (step # steps) (ids, previous, anchor ?st) = Inr r) \<longleftrightarrow>
      st_id step \<noteq> [] \<and> st_id step \<notin> ids \<and> labelled step \<and> fresh_labels (insert (st_id step) ids) steps"
    using IH [of "insert (st_id step) ids"]
    by (auto simp: and_then_Inr_iff validate_step_iff [OF one(3,4) Cons.prems(4)])
  moreover have "fresh_labels ids (step # steps) \<longleftrightarrow>
      st_id step \<noteq> [] \<and> st_id step \<notin> ids \<and> labelled step \<and> fresh_labels (insert (st_id step) ids) steps"
    by (auto simp: fresh_labels_def image_iff)
  ultimately show ?case by simp
qed

text \<open>The names, telemetry and command sets of a case are as validation wants them.\<close>

definition well_labelled :: "semantic_case \<Rightarrow> bool" where
  "well_labelled c \<longleftrightarrow> sm_id c \<noteq> [] \<and> sm_steps c \<noteq> [] \<and> fresh_labels {} (sm_steps c)"

lemma execute_case_Some:
  assumes "hash_wf sha256" "execute_case sha256 c = Some accepted"
  shows "validate_case c = Inr () \<longleftrightarrow> well_labelled c"
    and "\<exists>st. run (extends sha256 (background_into_kernel (background_of (sm_background c))))
      (instance_initial sha256 (background_of (sm_background c))) accepted st"
    and "sm_initial_chain c = anchor (instance_initial sha256 (background_of (sm_background c)))"
proof -
  let ?w = "background_of (sm_background c)"
  let ?bg = "background_into_kernel ?w" and ?live = "live_new sha256 ?w"
  let ?st = "instance_initial sha256 ?w"
  have live: "idle (li_inner ?live)" "li_background ?live = ?bg" "mx_data (li_inner ?live) = ?st"
    by (simp_all add: live_new_def live_from_state_def)
  have ex: "executed sha256 ?bg ?st" by (rule executed_initial [OF assms(1)])
  note status = live_observed(4) [of ?live, unfolded live(3), OF live(1) ex]
  from assms(2) obtain live' where chain: "sm_initial_chain c = anchor ?st"
    and steps: "execute_steps sha256 (sm_steps c) ?live = Some (live', accepted)"
    by (auto simp: execute_case_def Let_def status split: if_splits)
  note all = execute_steps_Some [OF assms(1) live(1,2), unfolded live(3), OF ex _ steps, of None "{}"]
  have "(\<exists>r. for_each validate_step (sm_steps c) ({}, None, anchor ?st) = Inr r) \<longleftrightarrow> fresh_labels {} (sm_steps c)"
    using all by simp
  moreover have "sq_sequence (anchor ?st) = 0" by (simp add: anchor_def instance_initial_def)
  ultimately show "validate_case c = Inr () \<longleftrightarrow> well_labelled c"
    using anchor_valid [OF ex]
    by (simp add: validate_case_def passes map_ok_Inr_iff well_labelled_def chain)
  show "\<exists>st. run (extends sha256 ?bg) ?st accepted st" using all by blast
  show "sm_initial_chain c = anchor ?st" by (rule chain)
qed

subsection \<open>Recovering the prefixes\<close>

lemma replay_all_iff: "replay_all sha256 envs rec = Some rec' \<longleftrightarrow> run (recovery_step sha256) rec envs rec'"
  by (induction envs arbitrary: rec)
    (auto simp: run_Cons_iff recovery_step_def split: prod.splits sum.splits)

lemma run_last_anchor:
  assumes "run (extends sha256 bg) st es st'" "es \<noteq> []"
  shows "anchor st' = \<lparr>sq_version = VERSION, sq_sequence = en_sequence (last es),
    sq_head = hex (digest_bytes (en_digest (last es)))\<rparr>"
  using assms
  by (cases es rule: rev_cases) (auto simp: run_append_iff run_Cons_iff extends_iff anchor_def)

lemma prefix_recovers:
  assumes hash: "hash_wf sha256" and case_ok: "execute_case sha256 c = Some accepted"
    and n: "n \<le> length accepted"
  shows "recovers_prefix sha256 c accepted n"
proof -
  let ?w = "background_of (sm_background c)"
  let ?bg = "background_into_kernel ?w" and ?st = "instance_initial sha256 ?w"
  let ?rec = "recovery_new sha256 ?w"
  obtain st where "run (extends sha256 ?bg) ?st accepted st"
    using execute_case_Some(2) [OF hash case_ok] by blast
  then obtain st' where st': "run (extends sha256 ?bg) ?st (take n accepted) st'"
    using run_append_iff [of "extends sha256 ?bg" ?st "take n accepted" "drop n accepted"] by auto
  have rec: "idle (ri_inner ?rec)" "mx_data (ri_inner ?rec) = Some ?st" "ri_background ?rec = ?bg"
    by (simp_all add: recovery_new_def)
  have replay: "replay_all sha256 (take n accepted) ?rec = Some (recovery_put ?rec (Some st'))"
    unfolding replay_all_iff using recovery_run_iff [OF rec(1,2)] st' rec(3) by auto
  have expected: "(if n = 0 then sm_initial_chain c
      else \<lparr>sq_version = VERSION, sq_sequence = en_sequence (accepted ! (n - 1)),
        sq_head = hex (digest_bytes (en_digest (accepted ! (n - 1))))\<rparr>) = anchor st'"
  proof (cases n)
    case 0
    then show ?thesis using st' execute_case_Some(3) [OF hash case_ok] by simp
  next
    case (Suc m)
    then have "take n accepted \<noteq> []" "last (take n accepted) = accepted ! m"
      using n by (auto simp: take_Suc_conv_app_nth)
    then show ?thesis using run_last_anchor [OF st'] Suc by simp
  qed
  have ex: "executed sha256 ?bg st'"
    using executions.inv_reachable [OF refl st'] hash by simp
  then have head: "digest_of (sq_head (anchor st')) = Some (is_head st')"
    by (simp add: anchor_def executed_def digest_of_hex)
  have idle: "idle (ri_inner (recovery_put ?rec (Some st')))"
    "mx_data (ri_inner (recovery_put ?rec (Some st'))) = Some st'"
    using rec(1) by (simp_all add: recovery_put_def idle_def)
  have fin: "recovery_finalize (recovery_put ?rec (Some st'))
      \<lparr>cn_version = sq_version (anchor st'), cn_sequence = sq_sequence (anchor st'), cn_head = is_head st'\<rparr> =
    (Inr (live_from_state ?bg st'), recovery_put ?rec None)"
    unfolding recovery_finalize_Inr_iff using idle rec(3) by (simp add: anchor_def recovery_put_def)
  have "map_ok chain_s (live_status (live_from_state ?bg st')) = Inr (anchor st')"
    using live_observed(4) [of "live_from_state ?bg st'"] ex by (simp add: live_from_state_def)
  then show ?thesis
    unfolding recovers_prefix_def replay option.case expected Let_def head
    by (simp add: fin)
qed

lemma native_executes_iff:
  "hash_wf sha256 \<Longrightarrow> native_executes sha256 c \<longleftrightarrow> execute_case sha256 c \<noteq> None"
  by (auto simp: native_executes_def prefix_recovers less_Suc_eq_le split: option.splits)

end
