(* ===== verification/Conformance_Properties.thy ===== *)
theory Conformance_Properties
  imports Service_Properties Conformance_Soundness
begin

text \<open>
  The properties of the shared conformance corpus against the native service: its checks accept
  whatever a native instance shows, they ask of an executable case only what execution does not
  compare, and an accepted corpus is one whose parts refer to each other consistently.
\<close>

text \<open>A case of one accepted command, with the checkpoint it leads to.\<close>

definition demo_schema_background :: schema_background where
  "demo_schema_background =
     \<lparr>sb_mode = SEnforce,
      sb_allow_ceiling = \<lparr>sc_network_external = Some SInternal, sc_network_internal = None,
        sc_filesystem_write = None, sc_ipc = None\<rparr>,
      sb_inspect_ceiling = \<lparr>sc_network_external = Some SSensitive, sc_network_internal = None,
        sc_filesystem_write = None, sc_ipc = None\<rparr>\<rparr>"

abbreviation demo_case_start :: instance_state where
  "demo_case_start \<equiv> instance_initial demo_hash (background_of demo_schema_background)"

definition demo_case_envelope :: envelope_n where
  "demo_case_envelope =
     \<lparr>en_version = VERSION, en_sequence = 1, en_previous_digest = is_head demo_case_start,
      en_digest = link demo_hash (is_head demo_case_start) 1 (CmdRegisterTool ''t'') (NActRegisterTool ''t''),
      en_command = CmdRegisterTool ''t'', en_action = NActRegisterTool ''t''\<rparr>"

definition demo_case_next :: instance_state where
  "demo_case_next = \<lparr>is_kernel = demo_registered, is_sequence = 1, is_head = en_digest demo_case_envelope\<rparr>"

definition demo_case :: semantic_case where
  "demo_case =
     \<lparr>sm_id = ''first_tool'', sm_background = demo_schema_background,
      sm_initial_chain = anchor demo_case_start, sm_covers = [''register_tool''],
      sm_steps = [\<lparr>st_id = ''register'', st_command = SCmdRegisterTool ''t'',
        st_expected = \<lparr>cp_result = ExpectAccepted (SActRegisterTool ''t''),
          cp_state = observation demo_case_next, cp_chain = anchor demo_case_next,
          cp_telemetry = \<lparr>te_command = TagRegisterTool, te_outcome = TelAccepted, te_sequence = Some 1,
            te_reason = None, te_verdict = None, te_disposition = None, te_branch = None\<rparr>,
          cp_transcript_hex = None\<rparr>\<rparr>]\<rparr>"

lemma demo_hash_wf: "hash_wf demo_hash"
  by (simp add: hash_wf_def demo_hash_def)

lemma demo_case_extends:
  "extends demo_hash (background_into_kernel (background_of demo_schema_background))
     demo_case_start demo_case_envelope demo_case_next"
  using demo_preflight
  by (simp add: extends_iff instance_initial_def demo_case_envelope_def demo_case_next_def demo_register)

lemma demo_case_executes: "execute_case demo_hash demo_case = Some [demo_case_envelope]"
proof -
  let ?w = "background_of demo_schema_background"
  let ?live = "live_new demo_hash ?w"
  have live: "idle (li_inner ?live)" "li_background ?live = background_into_kernel ?w"
    "mx_data (li_inner ?live) = demo_case_start"
    by (simp_all add: live_new_def live_from_state_def)
  let ?live' = "live_put ?live demo_case_next"
  have apply_ok: "live_apply demo_hash ?live (CmdRegisterTool ''t'') = (Inr demo_case_envelope, ?live')"
    unfolding live_apply_Inr_iff live using demo_case_extends by (auto simp: demo_case_envelope_def live)
  have ex: "executed demo_hash (background_into_kernel ?w) demo_case_start"
    by (rule executed_initial [OF demo_hash_wf])
  note start = live_observed [of ?live, unfolded live, OF live(1) ex]
  have ex': "executed demo_hash (background_into_kernel ?w) (mx_data (li_inner ?live'))"
    and idle': "idle (li_inner ?live')" and data': "mx_data (li_inner ?live') = demo_case_next"
    using executed_extends [OF demo_hash_wf ex demo_case_extends] live(1)
    by (simp_all add: live_put_def idle_def)
  have "checkpoint_ok ?live' (st_expected (hd (sm_steps demo_case)))"
    using live_observed(2,4) [OF idle' ex'] by (simp add: checkpoint_ok_def demo_case_def data')
  then have "execute_step demo_hash (hd (sm_steps demo_case)) ?live = Some (?live', [demo_case_envelope])"
    using start(1,3) apply_ok
    by (simp add: execute_step_def Let_def demo_case_def accepted_ok_def)
      (simp add: demo_case_envelope_def instance_initial_def)
  then show ?thesis
    using start(4) by (simp add: execute_case_def Let_def demo_case_def)
qed



text \<open>
  A corpus is accepted exactly when it declares the closed vocabularies, its identifiers are
  present and pairwise different over all four groups, every recovery case names a semantic case,
  required coverage is advertised, and each semantic case, boundary telemetry and golden passes its
  own check.
\<close>

lemma corpus_accepted_iff:
  "validate_corpus co = Inr () \<longleftrightarrow>
     co_schema co = ''ex_argus.v4.conformance'' \<and> co_version co = 5 \<and>
     co_vocabulary co = closed_vocabulary \<and> distinct (co_required_coverage co) \<and>
     co_semantic_cases co \<noteq> [] \<and> co_boundary_cases co \<noteq> [] \<and> co_recovery_cases co \<noteq> [] \<and> co_goldens co \<noteq> [] \<and>
     distinct (corpus_ids co) \<and> [] \<notin> set (corpus_ids co) \<and>
     (\<forall>c \<in> set (co_semantic_cases co). distinct (sm_covers c) \<and> validate_case c = Inr ()) \<and>
     (\<forall>c \<in> set (co_boundary_cases co). \<forall>te. bc_telemetry c = Some te \<longrightarrow>
        te_outcome te = TelBoundaryRefused \<and> te_sequence te = None \<and>
        te_reason te = Some (ee_reason (bc_expected c))) \<and>
     (\<forall>c \<in> set (co_recovery_cases co). rc_source_case c \<in> set (map sm_id (co_semantic_cases co)) \<and>
        rc_telemetry_events c = 0) \<and>
     (\<forall>g \<in> set (co_goldens co). validate_hex (go_transcript_hex g) None = Inr () \<and>
        validate_hex (go_digest g) (Some 64) = Inr ()) \<and>
     set (co_required_coverage co) \<subseteq> (\<Union>c \<in> set (co_semantic_cases co). set (sm_covers c))"
proof -
  have ids: "distinct (corpus_ids co) \<and> [] \<notin> set (corpus_ids co) \<longleftrightarrow> fresh_ids {} (corpus_ids co)"
    by (simp add: fresh_ids_def)
  show ?thesis
    unfolding conj_assoc [symmetric, of "distinct (corpus_ids co)"] ids
    unfolding corpus_ids_def fresh_ids_append
    by (simp only: validate_corpus_def passes prod.case and_then_loops Un_empty_left) blast
qed

definition demo_corpus :: corpus where
  "demo_corpus =
     \<lparr>co_schema = ''ex_argus.v4.conformance'', co_version = 5, co_vocabulary = closed_vocabulary,
      co_required_coverage = [''register_tool''], co_semantic_cases = [demo_case],
      co_boundary_cases = [\<lparr>bc_id = ''bad_digest'', bc_mutation = MutInvalidDigest,
        bc_expected = \<lparr>ee_class = ClassBoundary, ee_reason = ''invalid_digest'', ee_path = [], ee_index = None,
          ee_cause = None\<rparr>, bc_telemetry = None\<rparr>],
      co_recovery_cases = [\<lparr>rc_id = ''edited'', rc_source_case = ''first_tool'', rc_mutation = MutEdit,
        rc_expected = \<lparr>ee_class = ClassRecovery, ee_reason = ''digest_mismatch'', ee_path = [],
          ee_index = Some 0, ee_cause = None\<rparr>, rc_telemetry_events = 0\<rparr>],
      co_goldens = [\<lparr>go_id = ''genesis'', go_kind = GoldenGenesis,
        go_background = Some demo_schema_background, go_case_id = None, go_step_id = None,
        go_transcript_hex = ''00ff'', go_digest = concat (replicate 32 ''0a'')\<rparr>]\<rparr>"

lemma demo_corpus_accepted: "validate_corpus demo_corpus = Inr ()"
proof -
  have "validate_case demo_case = Inr ()"
    unfolding execute_case_Some(1) [OF demo_hash_wf demo_case_executes]
    by (simp add: demo_case_def well_labelled_def fresh_labels_def label_defs anchor_def
        demo_case_next_def)
  moreover have "validate_hex ''00ff'' None = Inr ()"
    "validate_hex (concat (replicate 32 ''0a'')) (Some 64) = Inr ()"
    by code_simp+
  moreover have "sm_id demo_case = ''first_tool''" "sm_covers demo_case = [''register_tool'']"
    by (simp_all add: demo_case_def)
  ultimately show ?thesis
    unfolding corpus_accepted_iff by (simp add: demo_corpus_def corpus_ids_def)
qed

text \<open>
  C26. Whatever a live instance shows passes the corpus checks: after any accepted commands its state
  can be read and is a valid checkpoint state (sorted, without repetitions, labels in catalogue order,
  no grant above its provision), its head is a valid digest text, and that text decodes to the head.
\<close>

theorem observations_validate:
  assumes "\<And>x. length (sha256 x) = 32" "run (live_step sha256) (live_new sha256 w) es live"
  shows "\<exists>z c. live_state live = Inr z \<and> live_status live = Inr c \<and>
    validate_state (state_s z) = Inr () \<and> validate_hex (sq_head (chain_s c)) (Some 64) = Inr () \<and>
    digest_of (sq_head (chain_s c)) = Some (cn_head c)"
proof -
  have hash: "hash_wf sha256" using assms(1) by (simp add: hash_wf_def)
  have new: "idle (li_inner (live_new sha256 w))" "li_background (live_new sha256 w) = background_into_kernel w"
    "mx_data (li_inner (live_new sha256 w)) = instance_initial sha256 w"
    by (simp_all add: live_new_def live_from_state_def)
  obtain st where st: "run (extends sha256 (background_into_kernel w)) (instance_initial sha256 w) es st"
    and live: "live = live_put (live_new sha256 w) st"
    using live_run_iff [OF new(1)] assms(2) new by auto
  have ex: "executed sha256 (background_into_kernel w) st"
    using executions.inv_reachable [OF refl st] hash by simp
  have idle: "idle (li_inner live)" "mx_data (li_inner live) = st"
    using new(1) by (simp_all add: live live_put_def idle_def)
  note seen = live_observed [OF idle(1), unfolded idle(2), OF ex]
  have "digest_of (hex (digest_bytes (is_head st))) = Some (is_head st)"
    using ex by (simp add: executed_def digest_of_hex)
  with seen observation_valid [OF ex] anchor_valid [OF ex] show ?thesis
    by (auto simp: observation_def anchor_def chain_s_def)
qed

theorem observations_validate_witness:
  "\<exists>z. live_state (live_put (live_new demo_hash demo_wire) demo_next) = Inr z \<and>
     validate_state (state_s z) = Inr ()"
proof -
  have "\<And>x. length (demo_hash x) = 32" by (simp add: demo_hash_def)
  from observations_validate [OF this demo_live_run] show ?thesis by blast
qed

end
