(* ===== verification/Conformance_Recovery.thy ===== *)
theory Conformance_Recovery
  imports Conformance_Soundness Native_Lifetime
begin

text \<open>
  The rest of \<open>conformance_tests.rs\<close>: the golden transcripts, and the recovery vectors, which alter
  one recorded history in the ways the corpus names and expect each alteration to be refused without
  a commit. \<open>recovery_vectors_hold\<close> shows that they hold for every history the service accepts, not
  only for the one the corpus runs.
\<close>

subsection \<open>Goldens\<close>

text \<open>The envelope of the golden's step; a command before it may be refused.\<close>

fun golden_envelope ::
  "hash_function \<Rightarrow> string option \<Rightarrow> corpus_step list \<Rightarrow> live_instance \<Rightarrow> envelope_n option" where
  "golden_envelope sha256 wanted [] live = None"
| "golden_envelope sha256 wanted (step # steps) live =
     (case live_apply sha256 live (command_of (st_command step)) of
        (result, live) \<Rightarrow>
          if Some (st_id step) = wanted then (case result of Inr envelope \<Rightarrow> Some envelope | Inl e \<Rightarrow> None)
          else golden_envelope sha256 wanted steps live)"

definition golden_ok :: "hash_function \<Rightarrow> corpus \<Rightarrow> golden \<Rightarrow> bool" where
  "golden_ok sha256 c g \<longleftrightarrow>
     (case go_kind g of
        GoldenGenesis \<Rightarrow>
          (case go_background g of
             None \<Rightarrow> False
           | Some background \<Rightarrow>
               let value = background_of background
               in hex (genesis_transcript value) = go_transcript_hex g \<and>
                  hex (digest_bytes (genesis sha256 value)) = go_digest g)
      | GoldenLink \<Rightarrow>
          (case find (\<lambda>item. Some (sm_id item) = go_case_id g) (co_semantic_cases c) of
             None \<Rightarrow> False
           | Some source \<Rightarrow>
               let steps = sm_steps source; live = live_new sha256 (background_of (sm_background source))
               in if list_all (\<lambda>step. Some (st_id step) \<noteq> go_step_id g) steps then True
                  else (case golden_envelope sha256 (go_step_id g) steps live of
                    None \<Rightarrow> False
                  | Some envelope \<Rightarrow>
                      hex (link_transcript (en_previous_digest envelope) (en_sequence envelope)
                        (en_command envelope) (en_action envelope)) = go_transcript_hex g \<and>
                      hex (digest_bytes (en_digest envelope)) = go_digest g)))"

definition native_goldens_ok :: "hash_function \<Rightarrow> corpus \<Rightarrow> bool" where
  "native_goldens_ok sha256 c \<longleftrightarrow> list_all (golden_ok sha256 c) (co_goldens c)"

subsection \<open>Boundaries\<close>

text \<open>
  The part of \<open>native_parser_and_capacity_boundaries_are_strict\<close> behind the parser: the number of
  boundary cases and the refusal of an oversized command. That altered corpus text does not parse is
  serde's.
\<close>

definition native_boundaries_ok :: "hash_function \<Rightarrow> corpus \<Rightarrow> bool" where
  "native_boundaries_ok sha256 c \<longleftrightarrow>
     (case co_semantic_cases c of
        [] \<Rightarrow> False
      | first # rest \<Rightarrow>
          length (co_boundary_cases c) = 14 \<and>
          fst (live_apply sha256 (live_new sha256 (background_of (sm_background first)))
            (CmdRegisterTool (replicate (MAX_OPAQUE_UTF8_BYTES + 1) (CHR ''x'')))) = Inl CapacityExceeded)"

lemma oversized_refused:
  assumes "MAX_OPAQUE_UTF8_BYTES < length name"
  shows "fst (live_apply sha256 (live_new sha256 w) (CmdRegisterTool name)) = Inl CapacityExceeded"
proof -
  have "preflight initial_state 0 (CmdRegisterTool name) = Inl CapacityExceeded"
    using assms by (simp add: evaluate_limits)
  then show ?thesis
    by (simp add: live_apply_def live_new_def live_from_state_def instance_initial_def locked_def
        mutex_try_lock_def mutex_new_def apply_without_commit_def)
qed

lemma native_boundaries_iff:
  "native_boundaries_ok sha256 c \<longleftrightarrow> co_semantic_cases c \<noteq> [] \<and> length (co_boundary_cases c) = 14"
  by (simp add: native_boundaries_ok_def oversized_refused del: replicate_Suc split: list.split)

subsection \<open>Recovery vectors\<close>

text \<open>The prefix to replay, the link to offer after it, and the expected refusal.\<close>

fun malformed_recovery_link ::
  "recovery_mutation \<Rightarrow> envelope_n list \<Rightarrow> (nat \<times> envelope_n \<times> error_n) option" where
  "malformed_recovery_link MutEdit history =
     Some (2, (history ! 2)\<lparr>en_command := CmdRegisterTool ''tool''\<rparr>, ReplayRefused NToolAlreadyRegistered)"
| "malformed_recovery_link MutInsertion history = Some (2, history ! 1, SequenceMismatch)"
| "malformed_recovery_link MutDeletion history = Some (1, history ! 2, SequenceMismatch)"
| "malformed_recovery_link MutReorder history = Some (0, history ! 1, SequenceMismatch)"
| "malformed_recovery_link MutDuplicate history = Some (1, history ! 0, SequenceMismatch)"
| "malformed_recovery_link MutGap history = Some (1, (history ! 1)\<lparr>en_sequence := 3\<rparr>, SequenceMismatch)"
| "malformed_recovery_link MutWrongAction history =
     Some (0, (history ! 0)\<lparr>en_action := NActRegisterTool ''edited''\<rparr>, ActionMismatch)"
| "malformed_recovery_link MutWrongDigest history =
     Some (2, (history ! 2)\<lparr>en_digest := DigestN (replicate 32 0)\<rparr>, DigestMismatch)"
| "malformed_recovery_link MutReplayRefusal history =
     Some (1, (history ! 1)\<lparr>en_command := CmdRegisterTool ''tool''\<rparr>, ReplayRefused NToolAlreadyRegistered)"
| "malformed_recovery_link MutWrongBackground history = None"
| "malformed_recovery_link MutStaleAnchor history = None"
| "malformed_recovery_link MutTruncatedAnchor history = None"

definition finalizes :: "recovery_instance \<Rightarrow> chain_n \<Rightarrow> bool" where
  "finalizes rec final_chain \<longleftrightarrow> (case fst (recovery_finalize rec final_chain) of Inr live \<Rightarrow> True | Inl e \<Rightarrow> False)"

definition recovery_vector_ok ::
  "hash_function \<Rightarrow> background_n \<Rightarrow> background_n \<Rightarrow> envelope_n list \<Rightarrow> chain_n \<Rightarrow> recovery_mutation \<Rightarrow> bool" where
  "recovery_vector_ok sha256 background wrong history final_chain mutation \<longleftrightarrow>
     (case mutation of
        MutStaleAnchor \<Rightarrow>
          (case replay_all sha256 history (recovery_new sha256 background) of
             None \<Rightarrow> False
           | Some rec \<Rightarrow>
               (case recovery_finalize rec (final_chain\<lparr>cn_sequence := cn_sequence final_chain - 1\<rparr>) of
                  (Inl e, rec) \<Rightarrow> e = FinalAnchorMismatch \<and> finalizes rec final_chain
                | (Inr live, rec) \<Rightarrow> False))
      | MutTruncatedAnchor \<Rightarrow>
          (case recovery_replay sha256 (recovery_new sha256 background) (history ! 0) of
             (Inl e, rec) \<Rightarrow> False
           | (Inr u, rec) \<Rightarrow>
               (case recovery_finalize rec final_chain of
                  (Inl e, rec) \<Rightarrow> e = FinalAnchorMismatch
                | (Inr live, rec) \<Rightarrow> False))
      | MutWrongBackground \<Rightarrow>
          (case recovery_replay sha256 (recovery_new sha256 wrong) (history ! 0) of
             (result, rec) \<Rightarrow> result = Inl PreviousDigestMismatch \<and>
               finalizes rec \<lparr>cn_version = VERSION, cn_sequence = 0, cn_head = genesis sha256 wrong\<rparr>)
      | _ \<Rightarrow>
          (case malformed_recovery_link mutation history of
             None \<Rightarrow> False
           | Some (n, malformed, expected) \<Rightarrow>
               (case replay_all sha256 (take n history) (recovery_new sha256 background) of
                  None \<Rightarrow> False
                | Some rec \<Rightarrow>
                    (case recovery_replay sha256 rec malformed of
                       (result, rec) \<Rightarrow> result = Inl expected \<and>
                         (case recovery_replay sha256 rec (history ! n) of
                            (Inr u, rec) \<Rightarrow> True
                          | (Inl e, rec) \<Rightarrow> False)))))"

fun accept_all ::
  "hash_function \<Rightarrow> command_n list \<Rightarrow> live_instance \<Rightarrow> (envelope_n list \<times> live_instance) option" where
  "accept_all sha256 [] live = Some ([], live)"
| "accept_all sha256 (c # cs) live =
     (case live_apply sha256 live c of
        (Inr envelope, live) \<Rightarrow>
          map_option (\<lambda>(envelopes, live). (envelope # envelopes, live)) (accept_all sha256 cs live)
      | (Inl e, live) \<Rightarrow> None)"

definition native_recovery_vectors_ok :: "hash_function \<Rightarrow> corpus \<Rightarrow> bool" where
  "native_recovery_vectors_ok sha256 c \<longleftrightarrow>
     (case find (\<lambda>item. sm_id item = ''structural_lifecycle'') (co_semantic_cases c) of
        None \<Rightarrow> False
      | Some source \<Rightarrow>
          let background = background_of (sm_background source);
              wrong = background_of ((sm_background source)\<lparr>sb_mode := SMonitor\<rparr>)
          in (case accept_all sha256 (map (\<lambda>step. command_of (st_command step)) (sm_steps source))
                (live_new sha256 background) of
                None \<Rightarrow> False
              | Some (history, live) \<Rightarrow>
                  (case live_status live of
                     Inl e \<Rightarrow> False
                   | Inr final_chain \<Rightarrow>
                       list_all (\<lambda>vector. recovery_vector_ok sha256 background wrong history final_chain (rc_mutation vector))
                         (co_recovery_cases c) \<and>
                       (case digest_of (sq_head (sm_initial_chain source)) of
                          None \<Rightarrow> False
                        | Some head \<Rightarrow>
                            let genesis_anchor = \<lparr>cn_version = VERSION, cn_sequence = 0, cn_head = head\<rparr>
                            in (case recovery_finalize (recovery_new sha256 background) genesis_anchor of
                                  (Inl e, rec) \<Rightarrow> False
                                | (Inr live, rec) \<Rightarrow>
                                    (case recovery_finalize rec genesis_anchor of
                                       (Inl e, rec) \<Rightarrow> e = RecoveryConsumed
                                     | (Inr live, rec) \<Rightarrow> False))))))"

subsection \<open>The vectors hold for every history\<close>

lemma replay_check_refusals:
  assumes "extends sha256 bg st env st'"
  shows "en_version r = VERSION \<Longrightarrow> en_sequence r \<noteq> en_sequence env \<Longrightarrow>
      replay_check sha256 st bg r = Inl SequenceMismatch"
    and "a \<noteq> en_action env \<Longrightarrow> replay_check sha256 st bg (env\<lparr>en_action := a\<rparr>) = Inl ActionMismatch"
    and "d \<noteq> en_digest env \<Longrightarrow> replay_check sha256 st bg (env\<lparr>en_digest := d\<rparr>) = Inl DigestMismatch"
    and "preflight (is_kernel st) (is_sequence st) c = Inr () \<Longrightarrow> command_apply c (is_kernel st) bg = Inl k \<Longrightarrow>
      replay_check sha256 st bg (env\<lparr>en_command := c\<rparr>) = Inl (ReplayRefused k)"
proof -
  have r: "apply_without_commit sha256 st bg (en_command env) = Inr (st', env)"
    using assms by (simp add: extends_def)
  have link: "check_recovery_link (is_kernel st) (is_sequence st) = Inr ()"
    using assms by (auto simp: extends_iff intro: preflight_recovery_link)
  have expected: "checked_next (is_sequence st) = Inr (en_sequence env)" "en_version env = VERSION"
    "en_previous_digest env = is_head st"
    using assms by (simp_all add: extends_iff checked_next_def)
  note facts = replay_check_def link expected r
  show "replay_check sha256 st bg r = Inl SequenceMismatch"
    if "en_version r = VERSION" "en_sequence r \<noteq> en_sequence env" for r
    using that by (simp add: facts)
  show "replay_check sha256 st bg (env\<lparr>en_action := a\<rparr>) = Inl ActionMismatch" if "a \<noteq> en_action env"
    using that by (auto simp: facts)
  show "replay_check sha256 st bg (env\<lparr>en_digest := d\<rparr>) = Inl DigestMismatch" if "d \<noteq> en_digest env"
    using that by (auto simp: facts)
  show "replay_check sha256 st bg (env\<lparr>en_command := c\<rparr>) = Inl (ReplayRefused k)"
    if "preflight (is_kernel st) (is_sequence st) c = Inr ()" "command_apply c (is_kernel st) bg = Inl k"
    using that by (simp add: facts apply_without_commit_def)
qed

text \<open>A recovery instance after a prefix, and what it answers.\<close>

definition recovered_at :: "hash_function \<Rightarrow> background_n \<Rightarrow> instance_state \<Rightarrow> recovery_instance" where
  "recovered_at sha256 w st = recovery_put (recovery_new sha256 w) (Some st)"

lemma recovery_new_at: "recovery_new sha256 w = recovered_at sha256 w (instance_initial sha256 w)"
  by (simp add: recovered_at_def recovery_new_def recovery_put_def mutex_new_def)

lemma replay_at:
  "recovery_replay sha256 (recovered_at sha256 w st) env =
     (case replay_check sha256 st (background_into_kernel w) env of
        Inl e \<Rightarrow> (Inl e, recovered_at sha256 w st)
      | Inr st' \<Rightarrow> (Inr (), recovered_at sha256 w st'))"
  by (simp add: recovered_at_def recovery_replay_def recovery_slot_def recovery_put_def recovery_new_def locked_def
      mutex_try_lock_def mutex_new_def split: sum.split)

lemma finalize_at:
  "recovery_finalize (recovered_at sha256 w st) final_chain =
     (if cn_version final_chain \<noteq> VERSION then (Inl InvalidVersion, recovered_at sha256 w st)
      else if cn_sequence final_chain \<noteq> is_sequence st \<or> cn_head final_chain \<noteq> is_head st
      then (Inl FinalAnchorMismatch, recovered_at sha256 w st)
      else (Inr (live_from_state (background_into_kernel w) st), recovery_put (recovery_new sha256 w) None))"
  by (simp add: recovered_at_def recovery_finalize_def recovery_slot_def recovery_put_def recovery_new_def locked_def
      mutex_try_lock_def mutex_new_def)

lemma replay_all_at:
  assumes "run (extends sha256 (background_into_kernel w)) (instance_initial sha256 w) es st"
  shows "replay_all sha256 es (recovered_at sha256 w (instance_initial sha256 w)) = Some (recovered_at sha256 w st)"
  unfolding replay_all_iff recovery_new_at [symmetric] unfolding recovered_at_def
  by (subst recovery_run_iff [where st = "instance_initial sha256 w"]) (use assms in \<open>auto simp: recovery_new_def\<close>)

lemma initial_at:
  "is_sequence (instance_initial sha256 w) = 0" "is_head (instance_initial sha256 w) = genesis sha256 w"
  by (simp_all add: instance_initial_def)

text \<open>The three envelopes the vectors alter, with the states between them.\<close>

lemma first_three:
  assumes "run (extends sha256 bg) (instance_initial sha256 w) es st" "3 \<le> length es"
  obtains s1 s2 s3 where
    "extends sha256 bg (instance_initial sha256 w) (es ! 0) s1" "extends sha256 bg s1 (es ! 1) s2"
    "extends sha256 bg s2 (es ! 2) s3"
    "en_sequence (es ! 0) = 1" "en_sequence (es ! 1) = 2" "en_sequence (es ! 2) = 3"
    "is_sequence s1 = 1"
    "run (extends sha256 bg) (instance_initial sha256 w) (take 1 es) s1"
    "run (extends sha256 bg) (instance_initial sha256 w) (take 2 es) s2"
proof -
  obtain e0 e1 e2 rest where es: "es = e0 # e1 # e2 # rest"
    using assms(2) by (metis One_nat_def Suc_le_length_iff numeral_3_eq_3)
  obtain s1 s2 s3 where s: "extends sha256 bg (instance_initial sha256 w) e0 s1" "extends sha256 bg s1 e1 s2"
    "extends sha256 bg s2 e2 s3"
    using assms(1) by (auto simp: es run_Cons_iff)
  moreover from s have "en_sequence e0 = 1" "en_sequence e1 = 2" "en_sequence e2 = 3" "is_sequence s1 = 1"
    by (simp_all add: extends_iff instance_initial_def)
  ultimately show thesis
    by (intro that [of s1 s2 s3]) (auto simp: es run_Cons_iff numeral_2_eq_2)
qed

text \<open>
  Whatever history the service accepted, each vector is refused with the error the tests expect and
  commits nothing. Two vectors offer to register the tool \<open>tool\<close> again, so it must be registered after
  the first and after the second command.
\<close>

theorem recovery_vectors_hold:
  assumes hist: "run (extends sha256 (background_into_kernel w)) (instance_initial sha256 w) es st" "3 \<le> length es"
    and tool: "\<And>n s. n \<in> {1, 2} \<Longrightarrow>
      run (extends sha256 (background_into_kernel w)) (instance_initial sha256 w) (take n es) s \<Longrightarrow>
      preflight (is_kernel s) (is_sequence s) (CmdRegisterTool ''tool'') = Inr () \<and>
      command_apply (CmdRegisterTool ''tool'') (is_kernel s) (background_into_kernel w) = Inl NToolAlreadyRegistered"
    and differ: "en_action (es ! 0) \<noteq> NActRegisterTool ''edited''" "en_digest (es ! 2) \<noteq> DigestN (replicate 32 0)"
      "genesis sha256 wrong \<noteq> genesis sha256 w"
  shows "recovery_vector_ok sha256 w wrong es
    \<lparr>cn_version = VERSION, cn_sequence = is_sequence st, cn_head = is_head st\<rparr> mutation"
proof -
  let ?bg = "background_into_kernel w"
  obtain s1 s2 s3 where step: "extends sha256 ?bg (instance_initial sha256 w) (es ! 0) s1"
      "extends sha256 ?bg s1 (es ! Suc 0) s2" "extends sha256 ?bg s2 (es ! 2) s3"
    and seq: "en_sequence (es ! 0) = 1" "en_sequence (es ! Suc 0) = 2" "en_sequence (es ! 2) = 3" "is_sequence s1 = 1"
    and prefix: "run (extends sha256 ?bg) (instance_initial sha256 w) (take (Suc 0) es) s1"
      "run (extends sha256 ?bg) (instance_initial sha256 w) (take 2 es) s2"
    by (rule first_three [OF hist, unfolded One_nat_def])
  have version: "en_version (es ! 0) = VERSION" "en_version (es ! Suc 0) = VERSION" "en_version (es ! 2) = VERSION"
    using step by (simp_all add: extends_iff)
  note good = step [folded replay_check_Inr_iff]
  note replayed = replay_all_at [OF prefix(1)] replay_all_at [OF prefix(2)] replay_all_at [OF hist(1)]
  note again = tool [of "Suc 0", OF _ prefix(1), simplified] tool [of 2, OF _ prefix(2), simplified]
  note bad0 = replay_check_refusals [OF step(1)]
  note bad1 = replay_check_refusals [OF step(2)]
  note bad2 = replay_check_refusals [OF step(3)]
  have long: "is_sequence st \<noteq> 1"
  proof
    assume "is_sequence st = 1"
    then have "length es = 1"
      using extends_run_length [OF hist(1)] by (simp add: commands_left_def instance_initial_def MAX_ACCEPTED_SEQUENCE_def)
    with hist(2) show False by simp
  qed
  have wrong: "replay_check sha256 (instance_initial sha256 wrong) (background_into_kernel wrong) (es ! 0) =
      Inl PreviousDigestMismatch"
  proof -
    have "check_recovery_link initial_state 0 = Inr ()" "en_previous_digest (es ! 0) = genesis sha256 w"
      using step(1) by (auto simp: extends_iff instance_initial_def intro: preflight_recovery_link)
    with version(1) seq(1) differ(3) show ?thesis
      by (simp add: replay_check_def instance_initial_def checked_next_def)
  qed
  show ?thesis
  proof (cases mutation)
    case MutWrongBackground
    then show ?thesis
      by (simp add: recovery_vector_ok_def finalizes_def recovery_new_at replay_at wrong finalize_at initial_at)
  next
    case MutStaleAnchor
    then show ?thesis
      by (simp add: recovery_vector_ok_def finalizes_def recovery_new_at replayed finalize_at)
  next
    case MutTruncatedAnchor
    then show ?thesis
      using seq(4) long
      by (simp add: recovery_vector_ok_def recovery_new_at replay_at good finalize_at)
  qed (use seq(1-3) version differ(1,2) again in
      \<open>simp_all add: recovery_vector_ok_def replayed recovery_new_at replay_at good bad0 bad1 bad2\<close>)
qed

end
