(* ===== verification/Kernel_Conformance.thy ===== *)
theory Kernel_Conformance
  imports Conformance_Properties "HOL-Library.Option_ord"
begin

text \<open>
  The kernel's side of the conformance corpus (\<open>argus-kernel/tests/v4_conformance_vectors.rs\<close>): the
  same cases are run on the pure transitions, with their own translation between schema and kernel
  values and their own projection of a state. Names carry a \<open>k\<close> where \<open>Conformance_Harness\<close> has the
  native test's function of that name. The lemmas compare the two tests.
\<close>

subsection \<open>Enumerations\<close>

definition cap_k :: "schema_capability \<Rightarrow> cap_kind" where
  "cap_k v = cap_all ! the (position CAPABILITIES v)"

definition cap_sk :: "cap_kind \<Rightarrow> schema_capability" where
  "cap_sk v = CAPABILITIES ! the (position cap_all v)"

fun conf_k :: "schema_conf \<Rightarrow> conf_level" where
  "conf_k SPublic = Public"
| "conf_k SInternal = Internal"
| "conf_k SSensitive = Sensitive"
| "conf_k SRestricted = Restricted"

fun conf_sk :: "conf_level \<Rightarrow> schema_conf" where
  "conf_sk Public = SPublic"
| "conf_sk Internal = SInternal"
| "conf_sk Sensitive = SSensitive"
| "conf_sk Restricted = SRestricted"

fun integ_k :: "schema_integ \<Rightarrow> integ_level" where
  "integ_k SUntrusted = Untrusted"
| "integ_k SStandard = Standard"
| "integ_k STrusted = Trusted"
| "integ_k SAttested = Attested"

fun integ_sk :: "integ_level \<Rightarrow> schema_integ" where
  "integ_sk Untrusted = SUntrusted"
| "integ_sk Standard = SStandard"
| "integ_sk Trusted = STrusted"
| "integ_sk Attested = SAttested"

fun egress_k :: "schema_egress \<Rightarrow> egress_kind" where
  "egress_k SNetworkExternal = EgNetworkExternal"
| "egress_k SNetworkInternal = EgNetworkInternal"
| "egress_k SFilesystemWrite = EgFilesystemWrite"
| "egress_k SIpc = EgIpc"

fun egress_sk :: "egress_kind \<Rightarrow> schema_egress" where
  "egress_sk EgNetworkExternal = SNetworkExternal"
| "egress_sk EgNetworkInternal = SNetworkInternal"
| "egress_sk EgFilesystemWrite = SFilesystemWrite"
| "egress_sk EgIpc = SIpc"

fun mode_k :: "schema_mode \<Rightarrow> enforcement_mode" where
  "mode_k SEnforce = Enforce"
| "mode_k SMonitor = Monitor"

fun outcome_k :: "schema_outcome \<Rightarrow> outcome" where
  "outcome_k SSuccess = Success"
| "outcome_k SFailure = Failure"
| "outcome_k SAmbiguous = Ambiguous"

fun outcome_sk :: "outcome \<Rightarrow> schema_outcome" where
  "outcome_sk Success = SSuccess"
| "outcome_sk Failure = SFailure"
| "outcome_sk Ambiguous = SAmbiguous"

fun fallback_k :: "schema_fallback \<Rightarrow> fallback" where
  "fallback_k SFallbackFail = FbFail"
| "fallback_k SReleaseUnendorsed = ReleaseUnendorsed"

fun disposition_sk :: "disposition \<Rightarrow> schema_disposition" where
  "disposition_sk Permitted = SPermitted"
| "disposition_sk Blocked = SBlocked"
| "disposition_sk MonitorBypassed = SMonitorBypassed"

fun verdict_sk :: "verdict \<Rightarrow> schema_verdict" where
  "verdict_sk Allow = SAllow"
| "verdict_sk InspectionRequired = SInspectionRequired"
| "verdict_sk Deny = SDeny"

fun branch_sk :: "cross_branch \<Rightarrow> schema_branch" where
  "branch_sk Endorsed = SEndorsed"
| "branch_sk Unendorsed = SUnendorsed"
| "branch_sk BrFail = SBranchFail"

subsection \<open>Commands and actions\<close>

definition background_k :: "schema_background \<Rightarrow> background_theory" where
  "background_k v =
     (let builder = set_mode builder_new (mode_k (sb_mode v));
          a = sb_allow_ceiling v; i = sb_inspect_ceiling v;
          builder = fold (\<lambda>(kind, allow, inspect) builder.
              set_egress_ceilings builder kind (map_option conf_k allow) (map_option conf_k inspect))
            [(EgNetworkExternal, sc_network_external a, sc_network_external i),
             (EgNetworkInternal, sc_network_internal a, sc_network_internal i),
             (EgFilesystemWrite, sc_filesystem_write a, sc_filesystem_write i),
             (EgIpc, sc_ipc a, sc_ipc i)] builder
      in builder_build builder)"

definition policy_k :: "schema_policy \<Rightarrow> action_policy_snapshot" where
  "policy_k v =
     \<lparr>aps_tool = ToolId (sp_tool v), required_caps = vs_from_iter (map cap_k (sp_required_caps v)),
      conf_clearance = conf_k (sp_conf_clearance v), integ_floor = integ_k (sp_integ_floor v),
      integ_inspect = integ_k (sp_integ_inspect v), output_conf = conf_k (sp_output_conf v),
      output_integ = integ_k (sp_output_integ v),
      declared_egress = vs_from_iter (map egress_k (sp_declared_egress v)),
      policy_digest = PolicyDigest (sp_policy_digest v)\<rparr>"

text \<open>The test's \<open>apply\<close>: each command is handed to its public transition.\<close>

fun apply_k :: "schema_command \<Rightarrow> kernel_state \<Rightarrow> background_theory \<Rightarrow> kernel_result" where
  "apply_k (SCmdRegisterTool t) s bg = register_tool s (ToolId t)"
| "apply_k (SCmdUnregisterTool t) s bg = unregister_tool s (ToolId t)"
| "apply_k (SCmdDelegate p c) s bg = delegate s bg (AgentId p) (AgentId c)"
| "apply_k (SCmdGrantCapability p c k) s bg = grant_capability s (AgentId p) (AgentId c) (cap_k k)"
| "apply_k (SCmdGrantCrossing g a d n) s bg =
     grant_crossing s bg (AgentId g) (AgentId a) (AssignmentDigest d) n"
| "apply_k (SCmdRevoke p a) s bg = revoke s bg (AgentId p) (AgentId a)"
| "apply_k (SCmdCascadeRevoke c p) s bg = cascade_revoke s bg (AgentId c) (AgentId p)"
| "apply_k (SCmdIngest a src l i) s bg =
     ingest s bg (AgentId a) (map_option AgentId src) (conf_k l) (integ_k i)"
| "apply_k (SCmdBeginInvocation a i ch p egr ah auth) s bg =
     begin_invocation s bg (AgentId a) (InvocationId i) (ChallengeId ch) (policy_k p)
       (vs_from_iter (map egress_k egr)) (ContentHash ah) auth"
| "apply_k (SCmdAuthorizeInspected i t) s bg =
     authorize_inspected s bg (InvocationId i)
       \<lparr>ia_id = AttestationId (si_id t), ia_inv = InvocationId (si_inv t),
        ia_challenge = ChallengeId (si_challenge t), ia_args_hash = ContentHash (si_args_hash t),
        ia_policy_digest = PolicyDigest (si_policy_digest t), ia_positive = si_positive t\<rparr>"
| "apply_k (SCmdSettleInvocation i out r) s bg =
     settle_invocation s (InvocationId i) (outcome_k out)
       (map_option (\<lambda>r. \<lparr>ra_id = AttestationId (sr_id r), ra_inv = InvocationId (sr_inv r),
          ra_outcome = outcome_k (sr_outcome r)\<rparr>) r)"
| "apply_k (SCmdCrossOutput q) s bg =
     cross_output s bg
       \<lparr>x_src = AgentId (sx_src q), x_rcv = AgentId (sx_rcv q), x_crossing = CrossingId (sx_crossing q),
        x_output_hash = ContentHash (sx_output_hash q), x_descriptor = ContentHash (sx_descriptor q),
        x_fallback = fallback_k (sx_fallback q), t_integ = integ_k (sx_t_integ q),
        t_conf = map_option conf_k (sx_t_conf q), x_assignment = AssignmentDigest (sx_assignment q),
        x_evidence = map_option (\<lambda>e.
          \<lparr>ca_id = AttestationId (sf_id e), ca_output = ContentHash (sf_output e),
           ca_src = AgentId (sf_src e), ca_rcv = AgentId (sf_rcv e),
           ca_descriptor = ContentHash (sf_descriptor e),
           ca_assignment = AssignmentDigest (sf_assignment e), ca_positive = sf_positive e\<rparr>) (sx_evidence q),
        released_conf = conf_k (sx_released_conf q), released_integ = integ_k (sx_released_integ q)\<rparr>"

fun action_sk :: "kernel_action \<Rightarrow> schema_action" where
  "action_sk (ActRegisterTool t) = SActRegisterTool (tool_str t)"
| "action_sk (ActUnregisterTool t) = SActUnregisterTool (tool_str t)"
| "action_sk (ActDelegate p c) = SActDelegate (agent_str p) (agent_str c)"
| "action_sk (ActGrantCapability p c k) = SActGrantCapability (agent_str p) (agent_str c) (cap_sk k)"
| "action_sk (ActGrantCrossing g a d n) =
     SActGrantCrossing (agent_str g) (agent_str a) (assignment_str d) n"
| "action_sk (ActRevoke p a) = SActRevoke (agent_str p) (agent_str a)"
| "action_sk (ActCascadeRevoke c p) = SActCascadeRevoke (agent_str c) (agent_str p)"
| "action_sk (ActIngest a src l i d) =
     SActIngest (agent_str a) (map_option agent_str src) (conf_sk l) (integ_sk i) (disposition_sk d)"
| "action_sk (ActBeginInvocation a i t v auth) =
     SActBeginInvocation (agent_str a) (inv_str i) (tool_str t) (verdict_sk v) auth"
| "action_sk (ActAuthorizeInspected i t admitted) =
     SActAuthorizeInspected (inv_str i) (att_str t) admitted"
| "action_sk (ActSettleInvocation i a d out c l r) =
     SActSettleInvocation (inv_str i) (agent_str a) (disposition_sk d) (outcome_sk out) (conf_sk c)
       (integ_sk l) (map_option att_str r)"
| "action_sk (ActCrossOutput src rcv x b d) =
     SActCrossOutput (agent_str src) (agent_str rcv) (crossing_str x) (branch_sk b) (disposition_sk d)"

subsection \<open>The projection of a state\<close>

text \<open>
  \<open>sort_by_key(|item| catalogue.iter().position(..))\<close>: the key is an \<open>Option<usize>\<close>, in which
  \<^const>\<open>None\<close> is the least value.
\<close>

definition by_position :: "'a list \<Rightarrow> 'a list \<Rightarrow> 'a list" where
  "by_position catalogue values = sort_key (position catalogue) values"

definition sort_map :: "(string \<times> 'v) list \<Rightarrow> (string \<times> 'v) list" where
  "sort_map values = sort_key fst values"

definition sorted_egress :: "egress_kind vec_set \<Rightarrow> schema_egress list" where
  "sorted_egress values = by_position EGRESS (map egress_sk (items values))"

definition policy_sk :: "action_policy_snapshot \<Rightarrow> schema_policy" where
  "policy_sk p =
     \<lparr>sp_tool = tool_str (aps_tool p),
      sp_required_caps = by_position CAPABILITIES (map cap_sk (items (required_caps p))),
      sp_conf_clearance = conf_sk (conf_clearance p), sp_integ_floor = integ_sk (integ_floor p),
      sp_integ_inspect = integ_sk (integ_inspect p), sp_output_conf = conf_sk (output_conf p),
      sp_output_integ = integ_sk (output_integ p),
      sp_declared_egress = sorted_egress (declared_egress p),
      sp_policy_digest = policy_str (policy_digest p)\<rparr>"

fun admission_sk :: "admission_kind \<Rightarrow> schema_admission" where
  "admission_sk Plain = \<lparr>sd_kind = TagPlain, sd_attestation = None\<rparr>"
| "admission_sk (Inspected i) = \<lparr>sd_kind = TagInspected, sd_attestation = Some (att_str i)\<rparr>"
| "admission_sk Bypassed = \<lparr>sd_kind = TagBypassed, sd_attestation = None\<rparr>"

definition pending_sk :: "pending_invocation \<Rightarrow> schema_pending" where
  "pending_sk j =
     \<lparr>sj_agent = agent_str (pi_agent j), sj_policy = policy_sk (pi_policy j),
      sj_egress = sorted_egress (pi_egress j), sj_admission = admission_sk (admission j),
      sj_disposition = disposition_sk (disposition_of j), sj_authorized = pi_authorized j,
      sj_quarantined = quarantined j\<rparr>"

definition challenge_sk :: "challenge_scope \<Rightarrow> schema_challenge" where
  "challenge_sk c =
     \<lparr>sh_challenge = challenge_str (cs_challenge c), sh_agent = agent_str (cs_agent c),
      sh_policy = policy_sk (cs_policy c), sh_egress = sorted_egress (cs_egress c),
      sh_args_hash = hash_str (cs_args_hash c), sh_authorized = cs_authorized c\<rparr>"

definition project :: "kernel_state \<Rightarrow> schema_state" where
  "project s =
     \<lparr>ss_agent_active = sort_strings (map agent_str (items (agent_active s))),
      ss_agent_parent = sort_map
        (map (\<lambda>(key, value). (agent_str key, agent_str value)) (entries (agent_parent s))),
      ss_agent_cap = sort_map
        (map (\<lambda>(key, held). (agent_str key, by_position CAPABILITIES (map cap_sk (items held))))
          (entries (agent_cap s))),
      ss_taint_levels = sort_map
        (map (\<lambda>(key, held). (agent_str key, by_position CONFIDENTIALITY (map conf_sk (items held))))
          (entries (taint_levels s))),
      ss_integ_levels = sort_map
        (map (\<lambda>(key, held). (agent_str key, by_position INTEGRITY (map integ_sk (items held))))
          (entries (integ_levels s))),
      ss_pending = sort_map (map (\<lambda>(key, j). (inv_str key, pending_sk j)) (entries (pending s))),
      ss_challenges = sort_map (map (\<lambda>(key, c). (inv_str key, challenge_sk c)) (entries (challenges s))),
      ss_consumed_ids = sort_strings (map inv_str (items (consumed_ids s))),
      ss_consumed_attestations = sort_strings (map att_str (items (consumed_attestations s))),
      ss_consumed_crossings = sort_strings (map crossing_str (items (consumed_crossings s))),
      ss_crossing_grants = sort_key fst
        (map (\<lambda>(key, g). ((agent_str (ck_agent key), assignment_str (ck_assignment key)),
            \<lparr>sg_remaining = remaining g, sg_provisioned = provisioned g\<rparr>)) (entries (crossing_grants s))),
      ss_tool_registered = sort_strings (map tool_str (items (tool_registered s)))\<rparr>"

subsection \<open>Rejection reasons\<close>

text \<open>The arms of \<open>match reason\<close> in \<open>kernel_error\<close>; every other text panics.\<close>

definition kernel_errors :: "(string \<times> kernel_error) list" where
  "kernel_errors =
     [(''tool_already_registered'', ToolAlreadyRegistered), (''tool_not_registered'', ToolNotRegistered),
      (''tool_in_use'', ToolInUse), (''agent_inactive'', AgentInactive),
      (''agent_already_active'', AgentAlreadyActive), (''root_not_allowed'', RootNotAllowed),
      (''not_direct_child'', NotDirectChild), (''parent_still_active'', ParentStillActive),
      (''agent_has_children'', AgentHasChildren), (''capability_missing'', CapabilityMissing),
      (''not_root'', NotRoot), (''invocation_exists'', InvocationExists),
      (''invocation_replayed'', InvocationReplayed), (''not_pending'', NotPending),
      (''egress_not_narrowing'', EgressNotNarrowing), (''egress_not_covering'', EgressNotCovering),
      (''incoherent_policy'', IncoherentPolicy), (''challenge_already_open'', ChallengeAlreadyOpen),
      (''clearance_denied'', ClearanceDenied), (''flow_gate_blocked'', FlowGateBlocked),
      (''authorizer_denied'', AuthorizerDenied), (''integrity_floor_denied'', IntegrityFloorDenied),
      (''pairwise_conflict'', PairwiseConflict), (''challenge_not_open'', ChallengeNotOpen),
      (''challenge_scope_mismatch'', ChallengeScopeMismatch), (''attestation_consumed'', AttestationConsumed),
      (''inspection_negative'', InspectionNegative), (''blocked_pending'', BlockedPending),
      (''not_quarantined'', NotQuarantined),
      (''quarantine_resolution_required'', QuarantineResolutionRequired),
      (''resolution_attestation_invalid'', ResolutionAttestationInvalid),
      (''ingest_hold_failed'', IngestHoldFailed), (''provenance_not_dominated'', ProvenanceNotDominated),
      (''crossing_replayed'', CrossingReplayed), (''grant_missing'', GrantMissing),
      (''grant_exhausted'', GrantExhausted), (''source_in_flight'', SourceInFlight),
      (''crossing_bound_violated'', CrossingBoundViolated), (''crossing_hold_failed'', CrossingHoldFailed),
      (''event_store'', EventStoreError)]"

definition kernel_error_of :: "string \<Rightarrow> kernel_error option" where
  "kernel_error_of reason = map_of kernel_errors reason"

subsection \<open>The test of the pure transitions\<close>

text \<open>
  One turn of the loop over the steps; a failed assertion, a panic and an overflow of the counter
  \<open>accepted\<close> are \<^const>\<open>None\<close>. A refused transition returns no state, so the state stays as it was.
\<close>

definition pure_outcome ::
  "background_theory \<Rightarrow> corpus_step \<Rightarrow> kernel_state \<times> u64 \<Rightarrow> (kernel_state \<times> u64) option" where
  "pure_outcome bg step = (\<lambda>(state, accepted).
     (case (apply_k (st_command step) state bg, cp_result (st_expected step)) of
        (Inr (after, actual), ExpectAccepted expected) \<Rightarrow>
          if action_sk actual = expected \<and> accepted \<noteq> - 1 then Some (after, accepted + 1) else None
      | (Inl actual, ExpectError class reason) \<Rightarrow>
          if kernel_error_of reason = Some actual then Some (state, accepted) else None
      | _ \<Rightarrow> None))"

definition pure_step ::
  "background_theory \<Rightarrow> corpus_step \<Rightarrow> kernel_state \<times> u64 \<Rightarrow> (kernel_state \<times> u64) option" where
  "pure_step bg step current =
     (case pure_outcome bg step current of
        Some (state, accepted) \<Rightarrow>
          if project state = cp_state (st_expected step) \<and>
             accepted = sq_sequence (cp_chain (st_expected step))
          then Some (state, accepted) else None
      | None \<Rightarrow> None)"

fun pure_steps ::
  "background_theory \<Rightarrow> corpus_step list \<Rightarrow> kernel_state \<times> u64 \<Rightarrow> (kernel_state \<times> u64) option" where
  "pure_steps bg [] current = Some current"
| "pure_steps bg (step # steps) current =
     (case pure_step bg step current of
        Some after \<Rightarrow> pure_steps bg steps after
      | None \<Rightarrow> None)"

definition pure_case :: "semantic_case \<Rightarrow> bool" where
  "pure_case c \<longleftrightarrow> pure_steps (background_k (sm_background c)) (sm_steps c) (initial_state, 0) \<noteq> None"

definition pure_transitions_match :: "corpus \<Rightarrow> bool" where
  "pure_transitions_match co \<longleftrightarrow> (\<forall>c \<in> set (co_semantic_cases co). pure_case c)"

subsection \<open>The test that a blocked disposition is never reached\<close>

fun action_has_blocked :: "schema_action \<Rightarrow> bool" where
  "action_has_blocked (SActIngest a src l i d) = (d = SBlocked)"
| "action_has_blocked (SActSettleInvocation i a d out c l r) = (d = SBlocked)"
| "action_has_blocked (SActCrossOutput src rcv x b d) = (d = SBlocked)"
| "action_has_blocked _ = False"

definition step_unblocked :: "corpus_step \<Rightarrow> bool" where
  "step_unblocked step \<longleftrightarrow>
     (case cp_result (st_expected step) of
        ExpectAccepted action \<Rightarrow> \<not> action_has_blocked action
      | ExpectError class reason \<Rightarrow> True) \<and>
     (\<forall>(key, j) \<in> set (ss_pending (cp_state (st_expected step))). sj_disposition j \<noteq> SBlocked)"

definition blocked_unreachable :: "corpus \<Rightarrow> bool" where
  "blocked_unreachable co \<longleftrightarrow>
     SBlocked \<in> set (vo_dispositions (co_vocabulary co)) \<and>
     (\<forall>c \<in> set (co_semantic_cases co). \<forall>step \<in> set (sm_steps c). step_unblocked step)"

subsection \<open>Both tests translate alike\<close>

lemma enums_agree:
  "cap_k = (\<lambda>v. cap_into_kernel (cap_of v))" "cap_sk = (\<lambda>c. cap_s (cap_from_kernel c))"
  "conf_k = (\<lambda>l. conf_into_kernel (conf_of l))" "conf_sk = (\<lambda>l. conf_s (conf_from_kernel l))"
  "integ_k = (\<lambda>l. integ_into_kernel (integ_of l))" "integ_sk = (\<lambda>l. integ_s (integ_from_kernel l))"
  "egress_k = (\<lambda>e. egress_into_kernel (egress_of e))" "egress_sk = (\<lambda>e. egress_s (egress_from_kernel e))"
proof -
  show "cap_k = (\<lambda>v. cap_into_kernel (cap_of v))" by (simp add: cap_k_def cap_of_def fun_eq_iff)
  have "cap_sk c = cap_s (cap_from_kernel c)" for c by (induct c; code_simp)
  then show "cap_sk = (\<lambda>c. cap_s (cap_from_kernel c))" ..
qed (rule ext; rename_tac x; case_tac x; simp)+

lemma enums_agree_more:
  "mode_k m = mode_into_kernel (mode_of m)" "fallback_k f = fallback_into_kernel (fallback_of f)"
  "outcome_k out = outcome_into_kernel (outcome_of out)" "outcome_sk u = outcome_s (outcome_from_kernel u)"
  "disposition_sk d = disposition_s (disposition_from_kernel d)" "verdict_sk v = verdict_s (verdict_from_kernel v)"
  "branch_sk b = branch_s (branch_from_kernel b)" "admission_sk a = admission_s (admission_from_kernel a)"
proof -
  show "mode_k m = mode_into_kernel (mode_of m)" by (cases m) simp_all
  show "fallback_k f = fallback_into_kernel (fallback_of f)" by (cases f) simp_all
  show "outcome_k out = outcome_into_kernel (outcome_of out)" by (cases out) simp_all
  show "outcome_sk u = outcome_s (outcome_from_kernel u)" by (cases u) simp_all
  show "disposition_sk d = disposition_s (disposition_from_kernel d)" by (cases d) simp_all
  show "verdict_sk v = verdict_s (verdict_from_kernel v)" by (cases v) simp_all
  show "branch_sk b = branch_s (branch_from_kernel b)" by (cases b) simp_all
  show "admission_sk a = admission_s (admission_from_kernel a)" by (cases a) simp_all
qed

lemma background_agrees: "background_k b = background_into_kernel (background_of b)"
  by (simp add: background_k_def background_into_kernel_def background_of_def egress_all_def ceiling_of_def
      flatten_def enums_agree enums_agree_more option.map_comp comp_def Let_def)

lemma policy_agrees: "policy_k p = policy_into_kernel (policy_of p)"
  by (simp add: policy_k_def policy_into_kernel_def policy_of_def enums_agree comp_def)

lemma apply_agrees: "apply_k c s bg = command_transition (command_of c) s bg"
  by (cases c)
    (simp_all add: policy_agrees enums_agree enums_agree_more inspection_into_kernel_def inspection_of_def
      resolution_into_kernel_def resolution_of_def cross_into_kernel_def cross_of_def
      conformance_into_kernel_def conformance_of_def option.map_comp comp_def)

lemma action_agrees: "action_sk a = action_s (action_from_kernel a)"
  by (cases a) (simp_all add: enums_agree enums_agree_more)

subsection \<open>Both tests project alike\<close>

lemma insort_key_map: "insort_key k (f x) (map f xs) = map f (insort_key (\<lambda>x. k (f x)) x xs)"
  by (induction xs) auto

lemma sort_key_map: "sort_key k (map f xs) = map f (sort_key (\<lambda>x. k (f x)) xs)"
  by (induction xs) (auto simp: insort_key_map)

lemma sort_key_same_order:
  assumes "\<And>x y. k x \<le> k y \<longleftrightarrow> l x \<le> l y"
  shows "sort_key k xs = sort_key l xs"
proof -
  have "insort_key k x ys = insort_key l x ys" for x ys
    by (induction ys) (auto simp: assms)
  then show ?thesis by (induction xs) auto
qed

lemma by_position_tags:
  fixes tag :: "'n \<Rightarrow> byte"
  assumes "\<And>v. position catalogue (f v) = Some (unat (tag v))"
  shows "by_position catalogue (map f xs) = map f (sort_by_tag tag xs)"
  unfolding by_position_def sort_by_tag_def sort_key_map
  by (rule arg_cong [where f = "map f"], rule sort_key_same_order) (simp add: assms word_le_nat_alt)

lemma projected_sets:
  "by_position CAPABILITIES (map cap_sk cs) = map cap_s (sort_by_tag cap_tag (map cap_from_kernel cs))"
  "by_position CONFIDENTIALITY (map conf_sk ls) = map conf_s (sort_by_tag conf_tag (map conf_from_kernel ls))"
  "by_position INTEGRITY (map integ_sk is) = map integ_s (sort_by_tag integ_tag (map integ_from_kernel is))"
  "by_position EGRESS (map egress_sk es) = map egress_s (sort_by_tag egress_tag (map egress_from_kernel es))"
  unfolding enums_agree
  by (simp_all only: by_position_tags [OF position_tags(1), symmetric] by_position_tags [OF position_tags(2), symmetric]
      by_position_tags [OF position_tags(3), symmetric] by_position_tags [OF position_tags(4), symmetric]
      map_map comp_def)

lemma records_agree:
  "policy_sk p = policy_s (policy_observed p)"
  "pending_sk j = pending_s (pending_from_kernel j)"
  "challenge_sk c = challenge_s (challenge_from_kernel c)"
proof -
  show policy: "policy_sk p = policy_s (policy_observed p)" for p
    by (simp add: policy_sk_def policy_s_def policy_observed_def sorted_egress_def projected_sets
        enums_agree(4,6))
  show "pending_sk j = pending_s (pending_from_kernel j)"
    "challenge_sk c = challenge_s (challenge_from_kernel c)"
    by (simp_all add: pending_sk_def pending_s_def pending_from_kernel_def challenge_sk_def challenge_s_def
        challenge_from_kernel_def policy sorted_egress_def projected_sets enums_agree_more)
qed

lemma map_values_sort:
  "map_values f (sort_key fst (map (\<lambda>(k, v). (h k, g v)) kvs)) = sort_key fst (map (\<lambda>(k, v). (h k, f (g v))) kvs)"
proof -
  have "(\<lambda>x. fst (case x of (k, v) \<Rightarrow> (h k, u v))) = (\<lambda>x. h (fst x))" for u by auto
  then show ?thesis by (simp add: sort_key_map map_values_def comp_def case_prod_unfold)
qed

lemma projection_agrees: "project s = state_s (state_from_kernel s)"
  by (simp add: project_def state_s_def state_from_kernel_def sort_map_def sort_string_map_def
      sort_grants_def map_values_sort projected_sets records_agree grant_s_def)

subsection \<open>Both tests name errors alike\<close>

lemma kernel_error_of_name [simp]: "kernel_error_of (kernel_error_name (error_from_kernel e)) = Some e"
  by (cases e) (simp_all add: kernel_error_of_def kernel_errors_def)

lemma kernel_error_of_Some: "kernel_error_of r = Some e \<Longrightarrow> r = kernel_error_name (error_from_kernel e)"
  unfolding kernel_error_of_def by (drule map_of_SomeD) (auto simp: kernel_errors_def)

lemma error_from_kernel_onto: "\<exists>e. n = error_from_kernel e"
  by (cases n; hypsubst, rule exI, rule error_from_kernel.simps [symmetric])

lemma native_error_kernel:
  "kernel_error_of (native_error_name e) = Some k \<longleftrightarrow> e = NKernel (error_from_kernel k)"
proof (cases e)
  case (NKernel n)
  then obtain k' where "n = error_from_kernel k'" using error_from_kernel_onto by blast
  then show ?thesis using NKernel by (auto simp: error_from_kernel_inj)
qed (auto simp: kernel_error_of_def kernel_errors_def)

subsection \<open>A kernel refusal comes from the kernel\<close>

lemma refusal_of_kernel:
  assumes "apply_without_commit sha256 st bg c = Inl (NKernel (error_from_kernel k))"
  shows "command_transition c (is_kernel st) bg = Inl k"
proof (cases "preflight (is_kernel st) (is_sequence st) c")
  case (Inl e)
  then show ?thesis using assms preflight_errors [OF Inl] by (auto simp: apply_without_commit_def)
next
  case (Inr u)
  with assms show ?thesis
    by (cases "command_apply c (is_kernel st) bg")
      (auto simp: apply_without_commit_def checked_next_def command_apply_Inl_iff error_from_kernel_inj Let_def
        split: if_splits)
qed

subsection \<open>A case that executes natively passes on the kernel\<close>

text \<open>A step expects acceptance, or a refusal that the kernel itself can give.\<close>

definition kernel_refusal :: "corpus_step \<Rightarrow> bool" where
  "kernel_refusal step \<longleftrightarrow>
     (\<forall>class reason. cp_result (st_expected step) = ExpectError class reason \<longrightarrow> kernel_error_of reason \<noteq> None)"

abbreviation on_kernel :: "instance_state \<Rightarrow> kernel_state \<times> u64" where
  "on_kernel st \<equiv> (is_kernel st, is_sequence st)"

lemma pure_step_agrees:
  assumes "hash_wf sha256" "idle (li_inner live)" "li_background live = bg"
    and "executed sha256 bg (mx_data (li_inner live))"
    and run: "execute_step sha256 step live = Some (live', accepted)"
  shows "pure_step bg step (on_kernel (mx_data (li_inner live))) =
    (if kernel_refusal step then Some (on_kernel (mx_data (li_inner live'))) else None)"
proof -
  let ?st = "mx_data (li_inner live)" and ?st' = "mx_data (li_inner live')"
  let ?c = "command_of (st_command step)"
  note explained = execute_step_Some(4) [OF assms]
  have seen: "cp_state (st_expected step) = project (is_kernel ?st')"
    "sq_sequence (cp_chain (st_expected step)) = is_sequence ?st'"
    using explained by (simp_all add: step_explained_def observation_def anchor_def projection_agrees)
  have "pure_outcome bg step (on_kernel ?st) =
    (if kernel_refusal step then Some (on_kernel ?st') else None)"
  proof (cases "cp_result (st_expected step)")
    case (ExpectAccepted action)
    with explained obtain env where "extends sha256 bg ?st env ?st'" "en_command env = ?c"
      "action_s (en_action env) = action"
      by (auto simp: step_explained_def)
    then show ?thesis
      using ExpectAccepted
      by (auto simp: pure_outcome_def apply_agrees action_agrees extends_iff kernel_refusal_def)
  next
    case (ExpectError kind reason)
    with run live_observed [OF assms(2,4)] obtain e where
      refused: "live_apply sha256 live ?c = (Inl e, live')" "native_error_name e = reason"
      by (auto simp: execute_step_def Let_def split: prod.splits sum.splits if_splits)
    have same: "live' = live" by (rule live_apply_Inl [OF refused(1)])
    have inner: "apply_without_commit sha256 ?st bg ?c = Inl e"
      using refused(1) assms(2,3)
      by (auto simp: live_apply_def locked_def mutex_try_lock_def idle_def split: sum.splits prod.splits)
    show ?thesis
    proof (cases "kernel_error_of reason")
      case None
      with ExpectError show ?thesis
        by (auto simp: pure_outcome_def kernel_refusal_def split: sum.split)
    next
      case (Some k)
      then have "e = NKernel (error_from_kernel k)" using refused(2) by (simp add: native_error_kernel [symmetric])
      with inner have "command_transition ?c (is_kernel ?st) bg = Inl k" by (simp add: refusal_of_kernel)
      with ExpectError Some show ?thesis
        by (simp add: pure_outcome_def kernel_refusal_def apply_agrees same)
    qed
  qed
  then show ?thesis by (simp add: pure_step_def seen)
qed

lemma pure_steps_agree:
  assumes "hash_wf sha256" "idle (li_inner live)" "li_background live = bg"
    and "executed sha256 bg (mx_data (li_inner live))"
    and "execute_steps sha256 steps live = Some (live', accepted)"
  shows "pure_steps bg steps (on_kernel (mx_data (li_inner live))) =
    (if \<forall>step \<in> set steps. kernel_refusal step then Some (on_kernel (mx_data (li_inner live'))) else None)"
  using assms(2-5)
proof (induction steps arbitrary: live accepted)
  case (Cons step steps)
  from Cons.prems(4) obtain live1 acc1 acc2 where
    first: "execute_step sha256 step live = Some (live1, acc1)"
    and rest: "execute_steps sha256 steps live1 = Some (live', acc2)"
    by (auto split: option.splits prod.splits)
  note one = execute_step_Some [OF assms(1) Cons.prems(1-3) first]
  show ?case
    using Cons.IH [OF one(1-3) rest] pure_step_agrees [OF assms(1) Cons.prems(1-3) first] by simp
qed simp

subsection \<open>No passing case names a blocked disposition\<close>

lemma disposition_s_blocked [simp]: "disposition_s (disposition_from_kernel d) = SBlocked \<longleftrightarrow> d = Blocked"
  by (cases d) simp_all

lemma disposition_sk_blocked [simp]: "disposition_sk d = SBlocked \<longleftrightarrow> d = Blocked"
  by (cases d) simp_all

fun action_disposition :: "kernel_action \<Rightarrow> disposition option" where
  "action_disposition (ActIngest a src l i d) = Some d"
| "action_disposition (ActSettleInvocation i a d out c l r) = Some d"
| "action_disposition (ActCrossOutput src rcv x b d) = Some d"
| "action_disposition _ = None"

lemma action_has_blocked_iff: "action_has_blocked (action_sk a) \<longleftrightarrow> action_disposition a = Some Blocked"
  by (cases a) auto

lemma recorded_dispositions: "kstep bg s act s' \<Longrightarrow> action_disposition act \<noteq> Some Blocked"
  by (induction rule: kstep.induct)
    (auto simp: register_tool_def unregister_tool_def delegate_def grant_capability_def grant_crossing_def
      revoke_def cascade_revoke_def ingest_def settle_invocation_def begin_invocation_def
      authorize_inspected_def cross_output_def Let_def split: if_splits option.splits enforcement_mode.splits)

lemma projected_pending_unblocked:
  assumes "reachable bg s" "state_wf s" "(k, j) \<in> set (ss_pending (project s))"
  shows "sj_disposition j \<noteq> SBlocked"
proof -
  obtain i r where "(i, r) \<in> set (entries (pending s))" "j = pending_sk r"
    using assms(3) by (auto simp: project_def sort_map_def)
  moreover have "vm_wf (pending s)" using wf_fields [OF assms(2)] by simp
  ultimately have "vm_get (pending s) i = Some r" "sj_disposition j = disposition_sk (disposition_of r)"
    by (auto simp: vm_get_wf_iff pending_sk_def)
  then show ?thesis
    using reach_records [OF assms(1)] by (auto simp: records_ok_def record_ok_def vec_simps)
qed

lemma pure_step_unblocked:
  assumes "reachable bg s" "state_wf s" "pure_step bg step (s, n) = Some (s', n')"
  shows "reachable bg s'" "state_wf s'" "step_unblocked step"
proof -
  from assms(3) have outcome: "pure_outcome bg step (s, n) = Some (s', n')"
    and seen: "cp_state (st_expected step) = project s'"
    by (auto simp: pure_step_def split: option.splits if_splits)
  have "reachable bg s' \<and> state_wf s' \<and>
    (\<forall>a. cp_result (st_expected step) = ExpectAccepted a \<longrightarrow> \<not> action_has_blocked a)"
  proof (cases "apply_k (st_command step) s bg")
    case (Inl e)
    with outcome assms show ?thesis by (auto simp: pure_outcome_def split: result_expectation.splits if_splits)
  next
    case (Inr r)
    then obtain s1 act where accepted: "command_transition (command_of (st_command step)) s bg = Inr (s1, act)"
      "r = (s1, act)" by (cases r) (simp add: apply_agrees)
    with outcome Inr have "s1 = s'" "cp_result (st_expected step) = ExpectAccepted (action_sk act)"
      by (auto simp: pure_outcome_def split: result_expectation.splits if_splits)
    then show ?thesis
      using accepted assms(1,2) recorded_dispositions [OF command_transition_step [OF accepted(1)]]
      by (auto simp: action_has_blocked_iff intro: command_transition_wf reachable_step [OF _ command_transition_step])
  qed
  then show "reachable bg s'" "state_wf s'" "step_unblocked step"
    using projected_pending_unblocked [of bg s']
    by (auto simp: step_unblocked_def seen split: result_expectation.split)
qed

lemma pure_steps_unblocked:
  assumes "reachable bg s" "state_wf s" "pure_steps bg steps (s, n) \<noteq> None"
  shows "\<forall>step \<in> set steps. step_unblocked step"
  using assms
proof (induction steps arbitrary: s n)
  case (Cons step steps)
  then obtain s' n' where first: "pure_step bg step (s, n) = Some (s', n')"
    "pure_steps bg steps (s', n') \<noteq> None"
    by (auto split: option.splits)
  note one = pure_step_unblocked [OF Cons.prems(1,2) first(1)]
  show ?case using one(3) Cons.IH [OF one(1,2) first(2)] by simp
qed simp

lemma pure_case_unblocked: "pure_case c \<Longrightarrow> \<forall>step \<in> set (sm_steps c). step_unblocked step"
  unfolding pure_case_def
  by (erule pure_steps_unblocked [rotated 2])
    (simp_all add: reachable_initial background_agrees background_into_kernel_fields wf_initial)

lemma pure_case_iff:
  assumes "hash_wf sha256" "execute_case sha256 c = Some accepted"
  shows "pure_case c \<longleftrightarrow> (\<forall>step \<in> set (sm_steps c). kernel_refusal step)"
proof -
  let ?w = "background_of (sm_background c)"
  let ?live = "live_new sha256 ?w"
  have live: "idle (li_inner ?live)" "li_background ?live = background_into_kernel ?w"
    "mx_data (li_inner ?live) = instance_initial sha256 ?w"
    by (simp_all add: live_new_def live_from_state_def)
  obtain live' where "execute_steps sha256 (sm_steps c) ?live = Some (live', accepted)"
    using assms(2) by (auto simp: execute_case_def Let_def split: if_splits)
  from pure_steps_agree [OF assms(1) live(1,2), unfolded live(3), OF executed_initial [OF assms(1)] this]
  show ?thesis by (simp add: pure_case_def background_agrees instance_initial_def)
qed

text \<open>
  C24. Both crates read the corpus alike. When every case of a validated corpus executes on a native
  instance, the kernel's own test of the pure transitions (same commands, actions, errors, sorted
  states and accepted counts) passes exactly when each expected refusal is one the kernel can give; and
  then its second test holds too: no step expects or shows a blocked disposition.
\<close>

theorem kernel_tests_agree:
  assumes "\<And>x. length (sha256 x) = 32" "validate_corpus co = Inr ()"
    and "\<forall>c \<in> set (co_semantic_cases co). native_executes sha256 c"
  shows "(pure_transitions_match co \<longleftrightarrow>
      (\<forall>c \<in> set (co_semantic_cases co). \<forall>step \<in> set (sm_steps c). kernel_refusal step)) \<and>
    (pure_transitions_match co \<longrightarrow> blocked_unreachable co)"
proof -
  have hash: "hash_wf sha256" using assms(1) by (simp add: hash_wf_def)
  have "SBlocked \<in> set (vo_dispositions (co_vocabulary co))"
    using assms(2) by (simp add: corpus_accepted_iff closed_vocabulary_def DISPOSITIONS_def)
  moreover have "pure_case c \<longleftrightarrow> (\<forall>step \<in> set (sm_steps c). kernel_refusal step)"
    if "c \<in> set (co_semantic_cases co)" for c
    using assms(3) that pure_case_iff [OF hash] native_executes_iff [OF hash] by blast
  ultimately show ?thesis
    using pure_case_unblocked unfolding pure_transitions_match_def blocked_unreachable_def by blast
qed

theorem kernel_tests_agree_witness: "pure_transitions_match demo_corpus \<and> blocked_unreachable demo_corpus"
proof -
  have cases: "co_semantic_cases demo_corpus = [demo_case]" by (simp add: demo_corpus_def)
  have hash: "\<And>x. length (demo_hash x) = 32" by (simp add: demo_hash_def)
  have "native_executes demo_hash demo_case"
    using demo_case_executes native_executes_iff [OF demo_hash_wf] by simp
  moreover have "\<forall>step \<in> set (sm_steps demo_case). kernel_refusal step"
    by (simp add: demo_case_def kernel_refusal_def)
  ultimately show ?thesis
    using kernel_tests_agree [OF hash demo_corpus_accepted] by (simp add: cases)
qed

end
