(* ===== verification/Native_Resources.thy ===== *)
theory Native_Resources
  imports Native_History
begin

text \<open>
  The exported functions of \<open>argus_nif/src/instance.rs\<close> over the table of resources they share.
  \<open>ResourceArc::new\<close> belongs to Rustler: which handle it returns is the argument \<open>fresh\<close>, and
  \<open>fresh_handle\<close> says that a live handle is never returned again. The two resource types have
  separate tables, as a handle of one type does not decode as the other; a call whose handle does not
  decode never enters the function and has no result.
\<close>

type_synonym handle = nat

record resources =
  rs_live :: "handle \<rightharpoonup> live_instance"
  rs_recovery :: "handle \<rightharpoonup> recovery_instance"

definition no_resources :: resources where
  "no_resources = \<lparr>rs_live = Map.empty, rs_recovery = Map.empty\<rparr>"

definition fresh_handle :: "(handle set \<Rightarrow> handle) \<Rightarrow> bool" where
  "fresh_handle fresh \<longleftrightarrow> (\<forall>used. finite used \<longrightarrow> fresh used \<notin> used)"

definition resource_arc_new :: "(handle set \<Rightarrow> handle) \<Rightarrow> (handle \<rightharpoonup> 'a) \<Rightarrow> 'a \<Rightarrow> handle \<times> (handle \<rightharpoonup> 'a)" where
  "resource_arc_new fresh table resource =
     (let h = fresh (dom table) in (h, table(h \<mapsto> resource)))"

subsection \<open>The exported functions\<close>

definition nif_instance_new ::
  "(handle set \<Rightarrow> handle) \<Rightarrow> hash_function \<Rightarrow> background_n \<Rightarrow> resources \<Rightarrow> (error_n + handle) \<times> resources" where
  "nif_instance_new fresh sha256 background rs =
     (let (h, table) = resource_arc_new fresh (rs_live rs) (live_new sha256 background)
      in (Inr h, rs\<lparr>rs_live := table\<rparr>))"

definition nif_instance_apply ::
  "hash_function \<Rightarrow> handle \<Rightarrow> command_n \<Rightarrow> resources \<Rightarrow> ((error_n + envelope_n) \<times> resources) option" where
  "nif_instance_apply sha256 h command rs =
     (case rs_live rs h of
        None \<Rightarrow> None
      | Some live \<Rightarrow>
          let (result, live') = live_apply sha256 live command
          in Some (result, rs\<lparr>rs_live := (rs_live rs)(h \<mapsto> live')\<rparr>))"

definition nif_instance_status :: "handle \<Rightarrow> resources \<Rightarrow> (error_n + chain_n) option" where
  "nif_instance_status h rs = map_option live_status (rs_live rs h)"

definition nif_instance_state :: "handle \<Rightarrow> resources \<Rightarrow> (error_n + state_n) option" where
  "nif_instance_state h rs = map_option live_state (rs_live rs h)"

definition nif_recovery_new ::
  "(handle set \<Rightarrow> handle) \<Rightarrow> hash_function \<Rightarrow> background_n \<Rightarrow> resources \<Rightarrow> (error_n + handle) \<times> resources" where
  "nif_recovery_new fresh sha256 background rs =
     (let (h, table) = resource_arc_new fresh (rs_recovery rs) (recovery_new sha256 background)
      in (Inr h, rs\<lparr>rs_recovery := table\<rparr>))"

definition nif_recovery_replay ::
  "hash_function \<Rightarrow> handle \<Rightarrow> envelope_n \<Rightarrow> resources \<Rightarrow> ((error_n + unit) \<times> resources) option" where
  "nif_recovery_replay sha256 h envelope rs =
     (case rs_recovery rs h of
        None \<Rightarrow> None
      | Some rec \<Rightarrow>
          let (result, rec') = recovery_replay sha256 rec envelope
          in Some (result, rs\<lparr>rs_recovery := (rs_recovery rs)(h \<mapsto> rec')\<rparr>))"

text \<open>\<open>recovery.finalize(expected).map(ResourceArc::new)\<close>\<close>

definition nif_recovery_finalize ::
  "(handle set \<Rightarrow> handle) \<Rightarrow> handle \<Rightarrow> chain_n \<Rightarrow> resources \<Rightarrow> ((error_n + handle) \<times> resources) option" where
  "nif_recovery_finalize fresh h expected rs =
     (case rs_recovery rs h of
        None \<Rightarrow> None
      | Some rec \<Rightarrow>
          let (result, rec') = recovery_finalize rec expected;
              rs = rs\<lparr>rs_recovery := (rs_recovery rs)(h \<mapsto> rec')\<rparr>
          in case result of
               Inl e \<Rightarrow> Some (Inl e, rs)
             | Inr live \<Rightarrow>
                 let (h', table) = resource_arc_new fresh (rs_live rs) live
                 in Some (Inr h', rs\<lparr>rs_live := table\<rparr>))"

subsection \<open>Sequences of calls\<close>

datatype nif_call =
    CallInstanceNew background_n
  | CallInstanceApply handle command_n
  | CallInstanceStatus handle
  | CallInstanceState handle
  | CallRecoveryNew background_n
  | CallRecoveryReplay handle envelope_n
  | CallRecoveryFinalize handle chain_n

text \<open>The table a call leaves, whatever it returned.\<close>

fun nif_next :: "(handle set \<Rightarrow> handle) \<Rightarrow> hash_function \<Rightarrow> resources \<Rightarrow> nif_call \<Rightarrow> resources option" where
  "nif_next fresh sha256 rs (CallInstanceNew background) = Some (snd (nif_instance_new fresh sha256 background rs))"
| "nif_next fresh sha256 rs (CallInstanceApply h command) = map_option snd (nif_instance_apply sha256 h command rs)"
| "nif_next fresh sha256 rs (CallInstanceStatus h) = map_option (\<lambda>_. rs) (nif_instance_status h rs)"
| "nif_next fresh sha256 rs (CallInstanceState h) = map_option (\<lambda>_. rs) (nif_instance_state h rs)"
| "nif_next fresh sha256 rs (CallRecoveryNew background) = Some (snd (nif_recovery_new fresh sha256 background rs))"
| "nif_next fresh sha256 rs (CallRecoveryReplay h envelope) = map_option snd (nif_recovery_replay sha256 h envelope rs)"
| "nif_next fresh sha256 rs (CallRecoveryFinalize h expected) =
     map_option snd (nif_recovery_finalize fresh h expected rs)"

definition nif_step ::
  "(handle set \<Rightarrow> handle) \<Rightarrow> hash_function \<Rightarrow> resources \<Rightarrow> nif_call \<Rightarrow> resources \<Rightarrow> bool" where
  "nif_step fresh sha256 rs call rs' \<longleftrightarrow> nif_next fresh sha256 rs call = Some rs'"

text \<open>How one call may change a resource it finds: by an accepted operation on it, or not at all.\<close>

definition live_moves :: "hash_function \<Rightarrow> nif_call \<Rightarrow> handle \<Rightarrow> live_instance \<Rightarrow> live_instance \<Rightarrow> bool" where
  "live_moves sha256 call h live live' \<longleftrightarrow>
     live' = live \<or> (\<exists>c env. call = CallInstanceApply h c \<and> live_apply sha256 live c = (Inr env, live'))"

definition recovery_moves ::
  "hash_function \<Rightarrow> nif_call \<Rightarrow> handle \<Rightarrow> recovery_instance \<Rightarrow> recovery_instance \<Rightarrow> bool" where
  "recovery_moves sha256 call h rec rec' \<longleftrightarrow>
     rec' = rec \<or>
     (\<exists>env. call = CallRecoveryReplay h env \<and> recovery_replay sha256 rec env = (Inr (), rec')) \<or>
     (\<exists>chain live. call = CallRecoveryFinalize h chain \<and> recovery_finalize rec chain = (Inr live, rec'))"

text \<open>What a new live resource is: a new instance, or what a recovery was finalized into.\<close>

definition live_born :: "hash_function \<Rightarrow> nif_call \<Rightarrow> resources \<Rightarrow> live_instance \<Rightarrow> bool" where
  "live_born sha256 call rs live \<longleftrightarrow>
     (\<exists>wire. call = CallInstanceNew wire \<and> live = live_new sha256 wire) \<or>
     (\<exists>h chain rec rec'. call = CallRecoveryFinalize h chain \<and> rs_recovery rs h = Some rec \<and>
        recovery_finalize rec chain = (Inr live, rec'))"

lemma live_apply_moves:
  "live_apply sha256 live c = (result, live') \<Longrightarrow> live_moves sha256 (CallInstanceApply h c) h live live'"
  by (cases result) (auto simp: live_moves_def dest: live_apply_Inl)

lemma recovery_replay_moves:
  "recovery_replay sha256 rec env = (result, rec') \<Longrightarrow>
     recovery_moves sha256 (CallRecoveryReplay h env) h rec rec'"
  by (cases result) (auto simp: recovery_moves_def dest: recovery_replay_Inl)

lemma recovery_finalize_Inl: "recovery_finalize rec expected = (Inl e, rec') \<Longrightarrow> rec' = rec"
  by (auto simp: recovery_finalize_def split: sum.splits if_splits)

lemma recovery_finalize_moves:
  "recovery_finalize rec chain = (result, rec') \<Longrightarrow>
     recovery_moves sha256 (CallRecoveryFinalize h chain) h rec rec'"
  by (cases result) (auto simp: recovery_moves_def dest: recovery_finalize_Inl)

subsection \<open>Isolation\<close>

text \<open>
  A change of one entry of a table: what was there moves by \<open>moves\<close>, and an entry that was not there
  is as \<open>born\<close> says.
\<close>

definition table_change :: "('k \<Rightarrow> 'a \<Rightarrow> 'a \<Rightarrow> bool) \<Rightarrow> ('a \<Rightarrow> bool) \<Rightarrow> ('k \<rightharpoonup> 'a) \<Rightarrow> ('k \<rightharpoonup> 'a) \<Rightarrow> bool" where
  "table_change moves born table table' \<longleftrightarrow>
     (\<forall>h x. table h = Some x \<longrightarrow> (\<exists>x'. table' h = Some x' \<and> moves h x x')) \<and>
     (\<forall>h x'. table' h = Some x' \<longrightarrow> table h = None \<longrightarrow> born x') \<and>
     (finite (dom table) \<longrightarrow> finite (dom table'))"

lemma table_change_refl: "(\<And>h x. moves h x x) \<Longrightarrow> table_change moves born table table"
  by (simp add: table_change_def)

lemma table_change_update:
  "(\<And>h x. moves h x x) \<Longrightarrow> table h = Some x \<Longrightarrow> moves h x x' \<Longrightarrow>
     table_change moves born table (table(h \<mapsto> x'))"
  by (auto simp: table_change_def)

lemma table_change_new:
  assumes "\<And>h x. moves h x x" "fresh_handle fresh" "finite (dom table)" "born x"
  shows "table_change moves born table (snd (resource_arc_new fresh table x))"
proof -
  have "fresh (dom table) \<notin> dom table" using assms(2,3) by (simp add: fresh_handle_def)
  then have "table (fresh (dom table)) = None" by (simp add: domIff)
  with assms(1,4) show ?thesis by (auto simp: table_change_def resource_arc_new_def Let_def)
qed

lemma live_moves_refl: "live_moves sha256 call h live live"
  by (simp add: live_moves_def)

lemma recovery_moves_refl: "recovery_moves sha256 call h rec rec"
  by (simp add: recovery_moves_def)

definition recovery_born :: "hash_function \<Rightarrow> nif_call \<Rightarrow> recovery_instance \<Rightarrow> bool" where
  "recovery_born sha256 call rec \<longleftrightarrow> (\<exists>wire. call = CallRecoveryNew wire \<and> rec = recovery_new sha256 wire)"

lemma nif_step_tables:
  assumes "nif_step fresh sha256 rs call rs'" "fresh_handle fresh"
    and "finite (dom (rs_live rs))" "finite (dom (rs_recovery rs))"
  shows "table_change (live_moves sha256 call) (live_born sha256 call rs) (rs_live rs) (rs_live rs') \<and>
    table_change (recovery_moves sha256 call) (recovery_born sha256 call) (rs_recovery rs) (rs_recovery rs')"
    (is "?live rs' \<and> ?recovery rs'")
proof (cases call)
  case (CallInstanceNew wire)
  then have "rs_live rs' = snd (resource_arc_new fresh (rs_live rs) (live_new sha256 wire))"
    "rs_recovery rs' = rs_recovery rs"
    using assms(1) by (auto simp: nif_step_def nif_instance_new_def split: prod.splits)
  moreover have "live_born sha256 call rs (live_new sha256 wire)"
    using CallInstanceNew by (simp add: live_born_def)
  ultimately show ?thesis
    using assms(2,3) by (simp add: table_change_new table_change_refl live_moves_refl recovery_moves_refl)
next
  case (CallInstanceApply h c)
  then obtain live result live' where found: "rs_live rs h = Some live"
    and applied: "live_apply sha256 live c = (result, live')"
    and rs': "rs' = rs\<lparr>rs_live := (rs_live rs)(h \<mapsto> live')\<rparr>"
    using assms(1) by (auto simp: nif_step_def nif_instance_apply_def split: option.splits prod.splits)
  have "live_moves sha256 call h live live'"
    unfolding CallInstanceApply by (rule live_apply_moves [OF applied])
  with found rs' show ?thesis
    by (simp add: table_change_update table_change_refl live_moves_refl recovery_moves_refl)
next
  case (CallRecoveryNew wire)
  then have "rs_recovery rs' = snd (resource_arc_new fresh (rs_recovery rs) (recovery_new sha256 wire))"
    "rs_live rs' = rs_live rs"
    using assms(1) by (auto simp: nif_step_def nif_recovery_new_def split: prod.splits)
  moreover have "recovery_born sha256 call (recovery_new sha256 wire)"
    using CallRecoveryNew by (simp add: recovery_born_def)
  ultimately show ?thesis
    using assms(2,4) by (simp add: table_change_new table_change_refl live_moves_refl recovery_moves_refl)
next
  case (CallRecoveryReplay h env)
  then obtain rec result rec' where found: "rs_recovery rs h = Some rec"
    and replayed: "recovery_replay sha256 rec env = (result, rec')"
    and rs': "rs' = rs\<lparr>rs_recovery := (rs_recovery rs)(h \<mapsto> rec')\<rparr>"
    using assms(1) by (auto simp: nif_step_def nif_recovery_replay_def split: option.splits prod.splits)
  have "recovery_moves sha256 call h rec rec'"
    unfolding CallRecoveryReplay by (rule recovery_replay_moves [OF replayed])
  with found rs' show ?thesis
    by (simp add: table_change_update table_change_refl live_moves_refl recovery_moves_refl)
next
  case (CallRecoveryFinalize h chain)
  then obtain rec where found: "rs_recovery rs h = Some rec"
    using assms(1) by (auto simp: nif_step_def nif_recovery_finalize_def split: option.splits)
  obtain result rec' where finalized: "recovery_finalize rec chain = (result, rec')" by fastforce
  have recoveries: "rs_recovery rs' = (rs_recovery rs)(h \<mapsto> rec')"
    and lives: "\<And>e. result = Inl e \<Longrightarrow> rs_live rs' = rs_live rs"
      "\<And>live. result = Inr live \<Longrightarrow> rs_live rs' = snd (resource_arc_new fresh (rs_live rs) live)"
    using assms(1) CallRecoveryFinalize found finalized
    by (auto simp: nif_step_def nif_recovery_finalize_def Let_def split: prod.splits sum.splits)
  have "recovery_moves sha256 call h rec rec'"
    unfolding CallRecoveryFinalize by (rule recovery_finalize_moves [OF finalized])
  with found have "?recovery rs'"
    unfolding recoveries by (intro table_change_update recovery_moves_refl)
  moreover have "?live rs'"
  proof (cases result)
    case (Inr live)
    then have "live_born sha256 call rs live"
      using CallRecoveryFinalize found finalized by (auto simp: live_born_def)
    with Inr lives(2) assms(2,3) show ?thesis
      by (simp add: table_change_new live_moves_refl)
  qed (simp add: lives(1) table_change_refl live_moves_refl)
  ultimately show ?thesis by simp
qed (use assms(1) in \<open>auto simp: nif_step_def nif_instance_status_def nif_instance_state_def
    intro: table_change_refl live_moves_refl recovery_moves_refl\<close>)

subsection \<open>Every resource has a history\<close>

definition live_explained :: "hash_function \<Rightarrow> live_instance \<Rightarrow> bool" where
  "live_explained sha256 live \<longleftrightarrow>
     (\<exists>wire es. li_background live = background_into_kernel wire \<and>
        run (extends sha256 (background_into_kernel wire)) (instance_initial sha256 wire) es (mx_data (li_inner live)))"

definition recovery_explained :: "hash_function \<Rightarrow> recovery_instance \<Rightarrow> bool" where
  "recovery_explained sha256 rec \<longleftrightarrow>
     (\<exists>wire. ri_background rec = background_into_kernel wire \<and>
        (\<forall>st. mx_data (ri_inner rec) = Some st \<longrightarrow>
           (\<exists>es. run (extends sha256 (background_into_kernel wire)) (instance_initial sha256 wire) es st)))"

lemma live_moves_explained:
  assumes "live_explained sha256 live" "live_moves sha256 call h live live'"
  shows "live_explained sha256 live'"
proof (cases "live' = live")
  case False
  then obtain c env st' where "extends sha256 (li_background live) (mx_data (li_inner live)) env st'"
    "live' = live_put live st'"
    using assms(2) by (auto simp: live_moves_def live_apply_Inr_iff)
  moreover obtain wire es where "li_background live = background_into_kernel wire"
    "run (extends sha256 (background_into_kernel wire)) (instance_initial sha256 wire) es (mx_data (li_inner live))"
    using assms(1) by (auto simp: live_explained_def)
  ultimately show ?thesis
    by (auto simp: live_explained_def live_put_def intro!: exI [of _ wire] intro: run_snoc)
qed (simp add: assms(1))

lemma recovery_moves_explained:
  assumes "recovery_explained sha256 rec" "recovery_moves sha256 call h rec rec'"
  shows "recovery_explained sha256 rec'"
proof -
  obtain wire where wire: "ri_background rec = background_into_kernel wire"
    "\<And>st. mx_data (ri_inner rec) = Some st \<Longrightarrow>
       \<exists>es. run (extends sha256 (background_into_kernel wire)) (instance_initial sha256 wire) es st"
    using assms(1) by (auto simp: recovery_explained_def)
  from assms(2) consider "rec' = rec"
    | env st st' where "mx_data (ri_inner rec) = Some st" "extends sha256 (ri_background rec) st env st'"
        "rec' = recovery_put rec (Some st')"
    | "rec' = recovery_put rec None"
    by (auto simp: recovery_moves_def recovery_replay_Inr_iff recovery_finalize_Inr_iff)
  then show ?thesis
  proof cases
    case 2
    obtain es where "run (extends sha256 (background_into_kernel wire)) (instance_initial sha256 wire) es st"
      using wire(2) [OF 2(1)] by blast
    from run_snoc [OF this] 2(2,3) wire(1) show ?thesis
      by (auto simp: recovery_explained_def recovery_put_def)
  qed (use assms(1) wire(1) in \<open>auto simp: recovery_explained_def recovery_put_def\<close>)
qed

lemma born_explained:
  assumes "live_born sha256 call rs live" "\<And>h rec. rs_recovery rs h = Some rec \<Longrightarrow> recovery_explained sha256 rec"
  shows "live_explained sha256 live"
  using assms(1) unfolding live_born_def
proof (elim disjE exE conjE)
  fix wire assume "live = live_new sha256 wire"
  then show ?thesis
    by (auto simp: live_explained_def live_new_def live_from_state_def intro!: exI [of _ wire] exI [of _ "[]"])
next
  fix h chain rec rec'
  assume "rs_recovery rs h = Some rec" and fin: "recovery_finalize rec chain = (Inr live, rec')"
  then have "recovery_explained sha256 rec" by (intro assms(2))
  with fin show ?thesis
    by (auto simp: recovery_explained_def live_explained_def recovery_finalize_Inr_iff live_from_state_def)
qed

lemma new_recovery_explained: "recovery_explained sha256 (recovery_new sha256 wire)"
  by (auto simp: recovery_explained_def recovery_new_def intro!: exI [of _ wire] exI [of _ "[]"])

definition resources_inv :: "hash_function \<Rightarrow> resources \<Rightarrow> bool" where
  "resources_inv sha256 rs \<longleftrightarrow>
     finite (dom (rs_live rs)) \<and> finite (dom (rs_recovery rs)) \<and>
     (\<forall>h live. rs_live rs h = Some live \<longrightarrow> live_explained sha256 live) \<and>
     (\<forall>h rec. rs_recovery rs h = Some rec \<longrightarrow> recovery_explained sha256 rec)"

lemma nif_step_inv:
  assumes "nif_step fresh sha256 rs call rs'" "fresh_handle fresh" "resources_inv sha256 rs"
  shows "resources_inv sha256 rs'"
proof -
  have fin: "finite (dom (rs_live rs))" "finite (dom (rs_recovery rs))"
    and rec: "\<And>h rec. rs_recovery rs h = Some rec \<Longrightarrow> recovery_explained sha256 rec"
    and live: "\<And>h live. rs_live rs h = Some live \<Longrightarrow> live_explained sha256 live"
    using assms(3) by (auto simp: resources_inv_def)
  note change = nif_step_tables [OF assms(1,2) fin]
  have "live_explained sha256 live'" if "rs_live rs' h = Some live'" for h live'
  proof (cases "rs_live rs h")
    case None
    with that change have "live_born sha256 call rs live'" by (auto simp: table_change_def)
    from born_explained [OF this rec] show ?thesis .
  next
    case (Some x)
    with that change have "live_moves sha256 call h x live'" by (fastforce simp: table_change_def)
    with live [OF Some] show ?thesis by (rule live_moves_explained)
  qed
  moreover have "recovery_explained sha256 rec'" if "rs_recovery rs' h = Some rec'" for h rec'
  proof (cases "rs_recovery rs h")
    case None
    with that change have "recovery_born sha256 call rec'" by (auto simp: table_change_def)
    then show ?thesis by (auto simp: recovery_born_def new_recovery_explained)
  next
    case (Some x)
    with that change have "recovery_moves sha256 call h x rec'" by (fastforce simp: table_change_def)
    with rec [OF Some] show ?thesis by (rule recovery_moves_explained)
  qed
  ultimately show ?thesis
    using change fin by (simp add: resources_inv_def table_change_def)
qed

interpretation nifs: invariant_system "\<lambda>rs. rs = no_resources" "nif_step fresh sha256"
  "\<lambda>rs. fresh_handle fresh \<longrightarrow> resources_inv sha256 rs" for fresh sha256
proof
  show "fresh_handle fresh \<longrightarrow> resources_inv sha256 rs" if "rs = no_resources" for rs
    using that by (simp add: no_resources_def resources_inv_def)
qed (blast intro: nif_step_inv)

text \<open>
  C13. Resources are isolated, whatever sequence of exported functions led to the table and as long as
  Rustler hands out fresh handles: a call changes no resource but the one it names, and that one only by
  an operation that was accepted; a new live instance comes from its genesis or from a finalized recovery;
  and every live or recovery resource holds a state that a history from the genesis of its background explains.
\<close>

theorem resources_isolated:
  assumes "fresh_handle fresh" "run (nif_step fresh sha256) no_resources calls rs"
    "nif_step fresh sha256 rs call rs'"
  shows "(\<forall>h live. rs_live rs h = Some live \<longrightarrow> live_explained sha256 live \<and>
      (\<exists>live'. rs_live rs' h = Some live' \<and> live_moves sha256 call h live live')) \<and>
    (\<forall>h rec. rs_recovery rs h = Some rec \<longrightarrow> recovery_explained sha256 rec \<and>
      (\<exists>rec'. rs_recovery rs' h = Some rec' \<and> recovery_moves sha256 call h rec rec')) \<and>
    (\<forall>h live. rs_live rs h = None \<longrightarrow> rs_live rs' h = Some live \<longrightarrow> live_born sha256 call rs live)"
proof -
  have inv: "resources_inv sha256 rs"
    using nifs.inv_reachable [OF refl assms(2)] assms(1) by simp
  then have "finite (dom (rs_live rs))" "finite (dom (rs_recovery rs))"
    by (simp_all add: resources_inv_def)
  from nif_step_tables [OF assms(3,1) this] inv show ?thesis
    by (simp add: table_change_def resources_inv_def)
qed

definition demo_fresh :: "handle set \<Rightarrow> handle" where
  "demo_fresh used = Suc (Max (insert 0 used))"

lemma demo_fresh_handle: "fresh_handle demo_fresh"
proof -
  have "Suc (Max (insert 0 used)) \<notin> used" if "finite used" for used :: "nat set"
  proof
    assume "Suc (Max (insert 0 used)) \<in> used"
    then have "Suc (Max (insert 0 used)) \<le> Max (insert 0 used)" using that by (intro Max_ge) auto
    then show False by simp
  qed
  then show ?thesis by (simp add: fresh_handle_def demo_fresh_def)
qed

abbreviation demo_background :: background_n where
  "demo_background \<equiv> \<lparr>bn_mode = EnforceN, bn_allow_ceiling = (\<lambda>_. None), bn_inspect_ceiling = (\<lambda>_. None)\<rparr>"

theorem resources_isolated_witness:
  "\<exists>rs. rs_live rs 1 = Some (live_new (\<lambda>_. replicate 32 0) demo_background) \<and>
     (\<exists>rs' live'. nif_step demo_fresh (\<lambda>_. replicate 32 0) rs (CallInstanceNew demo_background) rs' \<and>
       rs_live rs' 1 = Some live' \<and>
       live_moves (\<lambda>_. replicate 32 0) (CallInstanceNew demo_background) 1
         (live_new (\<lambda>_. replicate 32 0) demo_background) live')"
proof -
  let ?hash = "\<lambda>_ :: byte list. replicate 32 (0 :: byte)" and ?new = "CallInstanceNew demo_background"
  define rs where "rs = snd (nif_instance_new demo_fresh ?hash demo_background no_resources)"
  have run: "run (nif_step demo_fresh ?hash) no_resources [?new] rs"
    by (simp add: run_Cons_iff nif_step_def rs_def)
  have found: "rs_live rs 1 = Some (live_new ?hash demo_background)"
    by (simp add: rs_def nif_instance_new_def resource_arc_new_def demo_fresh_def no_resources_def Let_def)
  obtain rs' where step: "nif_step demo_fresh ?hash rs ?new rs'" by (simp add: nif_step_def)
  from resources_isolated [OF demo_fresh_handle run step] found step show ?thesis by blast
qed

end
