(* ===== verification/Kernel_Unit_Tests.thy ===== *)
theory Kernel_Unit_Tests
  imports Kernel_Driver
begin

text \<open>
  The unit tests of \<open>argus-kernel/src/kernel.rs\<close>, statement by statement, on the model. A test is a
  list of steps on the driver it builds: a call that must succeed (\<open>unwrap\<close>), a call that must be
  refused for a reason (\<open>unwrap_err\<close>), an assertion, or a direct assignment to a private field. The
  tests' event stores are the two given here; \<open>AllowAll\<close> and \<open>DenyAll\<close> are constant verdicts.
\<close>

subsection \<open>Steps of a test\<close>

type_synonym 'e test_step = "'e kernel \<Rightarrow> 'e kernel option"

definition accepts :: "('e kernel \<Rightarrow> 'e driver_result) \<Rightarrow> 'e test_step" where
  "accepts call k = (case call k of (Inr ev, k') \<Rightarrow> Some k' | (Inl e, k') \<Rightarrow> None)"

definition accepts_as :: "u64 \<Rightarrow> ('e kernel \<Rightarrow> 'e driver_result) \<Rightarrow> 'e test_step" where
  "accepts_as n call k =
     (case call k of (Inr ev, k') \<Rightarrow> if ev_sequence ev = n then Some k' else None | (Inl e, k') \<Rightarrow> None)"

definition refuses :: "kernel_error \<Rightarrow> ('e kernel \<Rightarrow> 'e driver_result) \<Rightarrow> 'e test_step" where
  "refuses err call k = (case call k of (Inl e, k') \<Rightarrow> if e = err then Some k' else None | (Inr ev, k') \<Rightarrow> None)"

definition holds :: "(kernel_state \<Rightarrow> bool) \<Rightarrow> 'e test_step" where
  "holds P k = (if P (k_state k) then Some k else None)"

definition patch :: "(kernel_state \<Rightarrow> kernel_state) \<Rightarrow> 'e test_step" where
  "patch f k = Some (k\<lparr>k_state := f (k_state k)\<rparr>)"

definition reconfigure :: "background_theory \<Rightarrow> 'e test_step" where
  "reconfigure bg k = Some (k\<lparr>k_background := bg\<rparr>)"

fun passes_from :: "'e kernel \<Rightarrow> 'e test_step list \<Rightarrow> bool" where
  "passes_from k [] \<longleftrightarrow> True"
| "passes_from k (step # steps) \<longleftrightarrow> (case step k of Some k' \<Rightarrow> passes_from k' steps | None \<Rightarrow> False)"

subsection \<open>Fixtures\<close>

definition vec_store :: "kernel_event list event_append" where
  "vec_store events event = (Inr (), events @ [event])"

definition fail_store :: "kernel_event list event_append" where
  "fail_store events event = (Inl EventStoreError, events)"

definition allow_all :: authorizer where "allow_all a t i s bg = True"
definition deny_all :: authorizer where "deny_all a t i s bg = False"

definition fixture_background :: background_theory where
  "fixture_background = builder_build builder_new"

definition monitor_background :: background_theory where
  "monitor_background = builder_build (set_mode builder_new Monitor)"

definition banded_background :: background_theory where
  "banded_background =
     builder_build (set_egress_ceilings builder_new EgNetworkExternal (Some Internal) (Some Sensitive))"

type_synonym driver = "kernel_event list kernel"

definition fixture :: driver where
  "fixture = kernel_new fixture_background allow_all []"

definition fixture_snap ::
  "conf_level \<Rightarrow> integ_level \<Rightarrow> integ_level \<Rightarrow> conf_level \<Rightarrow> integ_level \<Rightarrow> egress_kind vec_set \<Rightarrow>
   action_policy_snapshot" where
  "fixture_snap clearance floor inspect oc oi egr =
     \<lparr>aps_tool = ToolId ''t'', required_caps = vs_new, conf_clearance = clearance,
      integ_floor = floor, integ_inspect = inspect, output_conf = oc, output_integ = oi,
      declared_egress = egr, policy_digest = PolicyDigest ''d''\<rparr>"

definition fixture_permitted :: "string \<Rightarrow> action_policy_snapshot \<Rightarrow> pending_invocation" where
  "fixture_permitted agent policy =
     \<lparr>pi_agent = AgentId agent, pi_policy = policy, pi_egress = declared_egress policy,
      admission = Plain, disposition_of = Permitted, pi_authorized = True, quarantined = False\<rparr>"

definition network_egress :: "egress_kind vec_set" where
  "network_egress = vs_from_iter [EgNetworkExternal]"

abbreviation "A1 \<equiv> AgentId ''a1''"
abbreviation "TOOL \<equiv> ToolId ''t''"
abbreviation "INV \<equiv> InvocationId ''inv''"
abbreviation "ATT1 \<equiv> AttestationId ''att1''"
abbreviation "SRC \<equiv> AgentId ''src''"
abbreviation "RCV \<equiv> AgentId ''rcv''"

abbreviation "grow_tool t \<equiv> accepts (\<lambda>k. kernel_register_tool vec_store k t)"
abbreviation "spawn p c \<equiv> accepts (\<lambda>k. kernel_delegate vec_store k p c)"
abbreviation "begin_a1 snap egr \<equiv>
  (\<lambda>k. kernel_begin_invocation vec_store k A1 INV (ChallengeId ''c'') snap egr (ContentHash ''ah''))"
abbreviation "settle_inv outcome att \<equiv> (\<lambda>k. kernel_settle_invocation vec_store k INV outcome att)"
abbreviation "inspect_inv att \<equiv> (\<lambda>k. kernel_authorize_inspected vec_store k INV att)"
abbreviation "add_pending i j \<equiv> patch (\<lambda>s. s\<lparr>pending := vm_insert (pending s) i j\<rparr>)"
abbreviation "add_taint a l \<equiv> patch (\<lambda>s. s\<lparr>taint_levels := vm_insert_into (taint_levels s) a l\<rparr>)"
abbreviation "add_integ a l \<equiv> patch (\<lambda>s. s\<lparr>integ_levels := vm_insert_into (integ_levels s) a l\<rparr>)"

subsection \<open>The structural tests\<close>

definition test_structural_lifecycle_sequences_and_mutates :: bool where
  "test_structural_lifecycle_sequences_and_mutates \<longleftrightarrow> passes_from fixture
     [accepts_as 1 (\<lambda>k. kernel_register_tool vec_store k TOOL),
      accepts_as 2 (\<lambda>k. kernel_delegate vec_store k root_id A1),
      accepts_as 3 (\<lambda>k. kernel_grant_capability vec_store k root_id A1 CapFilesystemRead),
      holds (\<lambda>s. vm_set_contains (agent_cap s) A1 CapFilesystemRead),
      accepts_as 4 (\<lambda>k. kernel_grant_crossing vec_store k root_id A1 (AssignmentDigest ''d'') 3),
      holds (\<lambda>s. case vm_get_cloned (crossing_grants s) \<lparr>ck_agent = A1, ck_assignment = AssignmentDigest ''d''\<rparr> of Some x \<Rightarrow> remaining x = 3 | None \<Rightarrow> False),
      accepts_as 5 (\<lambda>k. kernel_revoke vec_store k root_id A1),
      holds (\<lambda>s. \<not> vs_contains (agent_active s) A1),
      holds (\<lambda>s. vm_get_cloned (crossing_grants s) \<lparr>ck_agent = A1, ck_assignment = AssignmentDigest ''d''\<rparr> = None)]"

definition test_ingest_permitted_with_no_pending_absorbs_pair :: bool where
  "test_ingest_permitted_with_no_pending_absorbs_pair \<longleftrightarrow> passes_from fixture
     [spawn root_id A1,
      accepts (\<lambda>k. kernel_ingest vec_store k A1 None Sensitive Standard),
      holds (\<lambda>s. vm_set_contains (taint_levels s) A1 Sensitive),
      holds (\<lambda>s. vm_set_contains (integ_levels s) A1 Standard)]"

definition test_ingest_refused_in_enforce_when_clearance_hold_fails :: bool where
  "test_ingest_refused_in_enforce_when_clearance_hold_fails \<longleftrightarrow> passes_from fixture
     [spawn root_id A1,
      add_pending INV (fixture_permitted ''a1'' (fixture_snap Public Untrusted Untrusted Public Attested vs_new)),
      refuses IngestHoldFailed (\<lambda>k. kernel_ingest vec_store k A1 None Sensitive Attested)]"

definition test_ingest_monitor_bypass_demotes_and_absorbs :: bool where
  "test_ingest_monitor_bypass_demotes_and_absorbs \<longleftrightarrow> passes_from (kernel_new monitor_background allow_all [])
     [spawn root_id A1,
      add_pending INV (fixture_permitted ''a1'' (fixture_snap Public Untrusted Untrusted Public Attested vs_new)),
      accepts (\<lambda>k. kernel_ingest vec_store k A1 None Sensitive Attested),
      holds (\<lambda>s. case vm_get_cloned (pending s) INV of Some x \<Rightarrow> disposition_of x = MonitorBypassed | None \<Rightarrow> False),
      holds (\<lambda>s. vm_set_contains (taint_levels s) A1 Sensitive)]"

definition test_ingest_rejects_undominated_a2a_provenance :: bool where
  "test_ingest_rejects_undominated_a2a_provenance \<longleftrightarrow> passes_from fixture
     [spawn root_id SRC,
      spawn root_id A1,
      add_taint SRC Restricted,
      refuses ProvenanceNotDominated (\<lambda>k. kernel_ingest vec_store k A1 (Some SRC) Public Attested)]"

definition test_settle_success_absorbs_both_dimensions_and_closes :: bool where
  "test_settle_success_absorbs_both_dimensions_and_closes \<longleftrightarrow> passes_from fixture
     [spawn root_id A1,
      add_pending INV (fixture_permitted ''a1'' (fixture_snap Restricted Untrusted Untrusted Sensitive Untrusted vs_new)),
      accepts (settle_inv Success None),
      holds (\<lambda>s. vm_get_cloned (pending s) INV = None),
      holds (\<lambda>s. vm_set_contains (taint_levels s) A1 Sensitive),
      holds (\<lambda>s. vm_set_contains (integ_levels s) A1 Untrusted)]"

definition test_settle_rejects_blocked_pending_record :: bool where
  "test_settle_rejects_blocked_pending_record \<longleftrightarrow> passes_from fixture
     [spawn root_id A1,
      add_pending INV ((fixture_permitted ''a1'' (fixture_snap Restricted Untrusted Untrusted Sensitive Untrusted vs_new))\<lparr>disposition_of := Blocked\<rparr>),
      refuses BlockedPending (settle_inv Success None)]"

definition test_settle_ambiguous_quarantines_and_absorbs_nothing :: bool where
  "test_settle_ambiguous_quarantines_and_absorbs_nothing \<longleftrightarrow> passes_from fixture
     [spawn root_id A1,
      add_pending INV (fixture_permitted ''a1'' (fixture_snap Restricted Untrusted Untrusted Sensitive Untrusted vs_new)),
      accepts (settle_inv Ambiguous None),
      holds (\<lambda>s. case vm_get_cloned (pending s) INV of Some x \<Rightarrow> quarantined x | None \<Rightarrow> False),
      holds (\<lambda>s. \<not> vm_set_contains (taint_levels s) A1 Sensitive)]"

definition test_quarantined_settles_only_with_scoped_one_use_attestation :: bool where
  "test_quarantined_settles_only_with_scoped_one_use_attestation \<longleftrightarrow> passes_from fixture
     [spawn root_id A1,
      add_pending INV ((fixture_permitted ''a1'' (fixture_snap Restricted Untrusted Untrusted Sensitive Untrusted vs_new))\<lparr>quarantined := True\<rparr>),
      refuses ResolutionAttestationInvalid (settle_inv Success None),
      accepts (settle_inv Success (Some \<lparr>ra_id = ATT1, ra_inv = INV, ra_outcome = Success\<rparr>)),
      holds (\<lambda>s. vm_get_cloned (pending s) INV = None),
      holds (\<lambda>s. vs_contains (consumed_attestations s) ATT1)]"

definition test_non_quarantined_settlement_forbids_an_attestation :: bool where
  "test_non_quarantined_settlement_forbids_an_attestation \<longleftrightarrow> passes_from fixture
     [spawn root_id A1,
      add_pending INV (fixture_permitted ''a1'' (fixture_snap Restricted Untrusted Untrusted Public Attested vs_new)),
      refuses NotQuarantined (settle_inv Success (Some \<lparr>ra_id = ATT1, ra_inv = INV, ra_outcome = Success\<rparr>))]"

definition test_begin_allow_pends_a_permitted_plain_record :: bool where
  "test_begin_allow_pends_a_permitted_plain_record \<longleftrightarrow> passes_from fixture
     [grow_tool TOOL,
      spawn root_id A1,
      accepts (begin_a1 (fixture_snap Restricted Untrusted Untrusted Public Attested vs_new) vs_new),
      holds (\<lambda>s. case vm_get_cloned (pending s) INV of Some x \<Rightarrow> disposition_of x = Permitted \<and> admission x = Plain | None \<Rightarrow> False),
      holds (\<lambda>s. vs_contains (consumed_ids s) INV)]"

definition test_begin_rejects_replayed_invocation_id :: bool where
  "test_begin_rejects_replayed_invocation_id \<longleftrightarrow> passes_from fixture
     [grow_tool TOOL,
      spawn root_id A1,
      accepts (begin_a1 (fixture_snap Restricted Untrusted Untrusted Public Attested vs_new) vs_new),
      accepts (settle_inv Success None),
      refuses InvocationReplayed (begin_a1 (fixture_snap Restricted Untrusted Untrusted Public Attested vs_new) vs_new)]"

definition test_enforce_inspection_creates_challenge_then_resolves_to_inspected_permit :: bool where
  "test_enforce_inspection_creates_challenge_then_resolves_to_inspected_permit \<longleftrightarrow> passes_from fixture
     [grow_tool TOOL,
      spawn root_id A1,
      reconfigure banded_background,
      accepts (begin_a1 (fixture_snap Restricted Untrusted Untrusted Sensitive Attested network_egress) network_egress),
      holds (\<lambda>s. vm_contains_key (challenges s) INV),
      holds (\<lambda>s. \<not> vm_contains_key (pending s) INV),
      accepts (inspect_inv \<lparr>ia_id = ATT1, ia_inv = INV, ia_challenge = ChallengeId ''c'', ia_args_hash = ContentHash ''ah'',
        ia_policy_digest = PolicyDigest ''d'', ia_positive = True\<rparr>),
      holds (\<lambda>s. case vm_get_cloned (pending s) INV of Some x \<Rightarrow> disposition_of x = Permitted \<and> admission x = Inspected ATT1 | None \<Rightarrow> False),
      holds (\<lambda>s. \<not> vm_contains_key (challenges s) INV),
      holds (\<lambda>s. vs_contains (consumed_attestations s) ATT1)]"

definition test_scope_mismatched_attestation_leaves_challenge_open :: bool where
  "test_scope_mismatched_attestation_leaves_challenge_open \<longleftrightarrow> passes_from fixture
     [grow_tool TOOL,
      spawn root_id A1,
      reconfigure banded_background,
      accepts (begin_a1 (fixture_snap Restricted Untrusted Untrusted Sensitive Attested network_egress) network_egress),
      refuses ChallengeScopeMismatch (inspect_inv \<lparr>ia_id = ATT1, ia_inv = INV, ia_challenge = ChallengeId ''WRONG'', ia_args_hash = ContentHash ''ah'',
        ia_policy_digest = PolicyDigest ''d'', ia_positive = True\<rparr>),
      holds (\<lambda>s. vm_contains_key (challenges s) INV),
      holds (\<lambda>s. \<not> vs_contains (consumed_attestations s) ATT1)]"

definition open_challenge :: "kernel_event list test_step list" where
  "open_challenge =
     [grow_tool TOOL, spawn root_id A1, reconfigure banded_background,
      accepts (begin_a1 (fixture_snap Restricted Untrusted Untrusted Sensitive Attested network_egress) network_egress)]"

definition positive_att :: inspection_attestation where
  "positive_att =
     \<lparr>ia_id = ATT1, ia_inv = INV, ia_challenge = ChallengeId ''c'', ia_args_hash = ContentHash ''ah'',
        ia_policy_digest = PolicyDigest ''d'', ia_positive = True\<rparr>"

definition test_monitor_mode_deny_pends_a_bypassed_record :: bool where
  "test_monitor_mode_deny_pends_a_bypassed_record \<longleftrightarrow> passes_from (kernel_new monitor_background deny_all [])
     [grow_tool TOOL,
      spawn root_id A1,
      accepts (begin_a1 (fixture_snap Restricted Untrusted Untrusted Public Attested vs_new) vs_new),
      holds (\<lambda>s. case vm_get_cloned (pending s) INV of Some x \<Rightarrow> disposition_of x = MonitorBypassed \<and> admission x = Bypassed | None \<Rightarrow> False)]"

definition test_one_use_attestation_replay_rejected_challenge_survives :: bool where
  "test_one_use_attestation_replay_rejected_challenge_survives \<longleftrightarrow> passes_from fixture (open_challenge @
     [patch (\<lambda>s. s\<lparr>consumed_attestations := vs_insert (consumed_attestations s) ATT1\<rparr>),
      refuses AttestationConsumed (inspect_inv positive_att),
      holds (\<lambda>s. vm_contains_key (challenges s) INV)])"

definition test_positive_attestation_denied_by_live_gate_closes_fail_closed :: bool where
  "test_positive_attestation_denied_by_live_gate_closes_fail_closed \<longleftrightarrow> passes_from fixture (open_challenge @
     [reconfigure fixture_background,
      accepts (inspect_inv positive_att),
      holds (\<lambda>s. \<not> vm_contains_key (pending s) INV),
      holds (\<lambda>s. \<not> vm_contains_key (challenges s) INV),
      holds (\<lambda>s. vs_contains (consumed_attestations s) ATT1)])"

definition test_begin_authorizer_denied_is_typed_in_enforce :: bool where
  "test_begin_authorizer_denied_is_typed_in_enforce \<longleftrightarrow> passes_from (kernel_new fixture_background deny_all [])
     [grow_tool TOOL,
      spawn root_id A1,
      refuses AuthorizerDenied (begin_a1 (fixture_snap Restricted Untrusted Untrusted Public Attested vs_new) vs_new)]"

definition test_grant_crossing_is_root_only :: bool where
  "test_grant_crossing_is_root_only \<longleftrightarrow> passes_from fixture
     [spawn root_id A1,
      spawn root_id (AgentId ''a2''),
      refuses NotRoot (\<lambda>k. kernel_grant_crossing vec_store k A1 (AgentId ''a2'') (AssignmentDigest ''d'') 1)]"

definition test_grant_crossing_is_idempotent_set_to_n :: bool where
  "test_grant_crossing_is_idempotent_set_to_n \<longleftrightarrow> passes_from fixture
     [spawn root_id A1,
      accepts (\<lambda>k. kernel_grant_crossing vec_store k root_id A1 (AssignmentDigest ''d'') 2),
      accepts (\<lambda>k. kernel_grant_crossing vec_store k root_id A1 (AssignmentDigest ''d'') 2),
      holds (\<lambda>s. case vm_get_cloned (crossing_grants s) \<lparr>ck_agent = A1, ck_assignment = AssignmentDigest ''d''\<rparr> of Some x \<Rightarrow> remaining x = 2 \<and> provisioned x = 2 | None \<Rightarrow> False)]"

definition test_cascade_revoke_after_parent_gone :: bool where
  "test_cascade_revoke_after_parent_gone \<longleftrightarrow> passes_from fixture
     [spawn root_id (AgentId ''p''),
      spawn (AgentId ''p'') (AgentId ''c''),
      accepts (\<lambda>k. kernel_revoke vec_store k root_id (AgentId ''p'')),
      holds (\<lambda>s. vs_contains (agent_active s) (AgentId ''c'')),
      refuses AgentHasChildren (\<lambda>k. kernel_delegate vec_store k root_id (AgentId ''p'')),
      accepts (\<lambda>k. kernel_cascade_revoke vec_store k (AgentId ''c'') (AgentId ''p'')),
      holds (\<lambda>s. \<not> vs_contains (agent_active s) (AgentId ''c''))]"

definition test_unregister_blocked_by_pending_reference :: bool where
  "test_unregister_blocked_by_pending_reference \<longleftrightarrow> passes_from fixture
     [grow_tool TOOL,
      add_pending INV (fixture_permitted ''a'' (fixture_snap Restricted Untrusted Untrusted Public Attested vs_new)),
      refuses ToolInUse (\<lambda>k. kernel_unregister_tool vec_store k TOOL)]"

definition test_event_store_failure_leaves_state_and_sequence_unchanged :: bool where
  "test_event_store_failure_leaves_state_and_sequence_unchanged \<longleftrightarrow>
     (case kernel_register_tool fail_store (kernel_new fixture_background allow_all []) TOOL of
        (Inl e, k) \<Rightarrow> e = EventStoreError \<and> k_sequence k = 0 \<and> vs_is_empty (tool_registered (k_state k))
      | (Inr ev, k) \<Rightarrow> False)"

definition test_all_events_reach_the_store :: bool where
  "test_all_events_reach_the_store \<longleftrightarrow> passes_from fixture
     [grow_tool TOOL,
      spawn root_id A1,
      (\<lambda>k. if length (k_events k) = 2 then Some k else None)]"

definition two_agents :: "kernel_event list test_step list" where
  "two_agents = [spawn root_id SRC, spawn root_id RCV]"

definition fixture_cross :: "string \<Rightarrow> fallback \<Rightarrow> conformance_attestation option \<Rightarrow> cross_input" where
  "fixture_cross crossing fb ev =
     \<lparr>x_src = SRC, x_rcv = RCV, x_crossing = CrossingId crossing, x_output_hash = ContentHash ''out'',
      x_descriptor = ContentHash ''desc'', x_fallback = fb, t_integ = Attested, t_conf = Some Public,
      x_assignment = AssignmentDigest ''asg'', x_evidence = ev, released_conf = Public,
      released_integ = Attested\<rparr>"

definition fixture_evidence :: conformance_attestation where
  "fixture_evidence =
     \<lparr>ca_id = ATT1, ca_output = ContentHash ''out'', ca_src = SRC, ca_rcv = RCV,
      ca_descriptor = ContentHash ''desc'', ca_assignment = AssignmentDigest ''asg'', ca_positive = True\<rparr>"

definition test_endorsed_cross_releases_bounded_pair_and_decrements_grant :: bool where
  "test_endorsed_cross_releases_bounded_pair_and_decrements_grant \<longleftrightarrow> passes_from fixture (two_agents @
     [accepts (\<lambda>k. kernel_grant_crossing vec_store k root_id RCV (AssignmentDigest ''asg'') 2),
      accepts (\<lambda>k. kernel_cross_output vec_store k (fixture_cross ''x1'' FbFail (Some fixture_evidence))),
      holds (\<lambda>s. vm_set_contains (taint_levels s) RCV Public),
      holds (\<lambda>s. vm_set_contains (integ_levels s) RCV Attested),
      holds (\<lambda>s. case vm_get_cloned (crossing_grants s) \<lparr>ck_agent = RCV, ck_assignment = AssignmentDigest ''asg''\<rparr> of Some x \<Rightarrow> remaining x = 1 | None \<Rightarrow> False),
      holds (\<lambda>s. vs_contains (consumed_crossings s) (CrossingId ''x1'')),
      holds (\<lambda>s. vs_contains (consumed_attestations s) ATT1)])"

definition test_unendorsed_fallback_releases_source_labels :: bool where
  "test_unendorsed_fallback_releases_source_labels \<longleftrightarrow> passes_from fixture (two_agents @
     [add_taint SRC Sensitive,
      add_integ SRC Standard,
      accepts (\<lambda>k. kernel_cross_output vec_store k (fixture_cross ''x1'' ReleaseUnendorsed None\<lparr>t_conf := None\<rparr>)),
      holds (\<lambda>s. vm_set_contains (taint_levels s) RCV Sensitive),
      holds (\<lambda>s. vm_set_contains (integ_levels s) RCV Standard),
      holds (\<lambda>s. vs_contains (consumed_crossings s) (CrossingId ''x1''))])"

definition test_fail_fallback_releases_nothing_but_consumes_crossing :: bool where
  "test_fail_fallback_releases_nothing_but_consumes_crossing \<longleftrightarrow> passes_from fixture (two_agents @
     [add_taint SRC Sensitive,
      accepts (\<lambda>k. kernel_cross_output vec_store k (fixture_cross ''x1'' FbFail None)),
      holds (\<lambda>s. \<not> vm_set_contains (taint_levels s) RCV Sensitive),
      holds (\<lambda>s. vs_contains (consumed_crossings s) (CrossingId ''x1''))])"

definition test_crossing_id_is_one_use :: bool where
  "test_crossing_id_is_one_use \<longleftrightarrow> passes_from fixture (two_agents @
     [accepts (\<lambda>k. kernel_cross_output vec_store k (fixture_cross ''x1'' FbFail None)),
      refuses CrossingReplayed (\<lambda>k. kernel_cross_output vec_store k (fixture_cross ''x1'' FbFail None))])"

definition test_source_with_pending_work_cannot_cross :: bool where
  "test_source_with_pending_work_cannot_cross \<longleftrightarrow> passes_from fixture (two_agents @
     [add_pending INV (fixture_permitted ''src'' (fixture_snap Restricted Untrusted Untrusted Public Attested vs_new)),
      refuses SourceInFlight (\<lambda>k. kernel_cross_output vec_store k (fixture_cross ''x1'' FbFail None))])"

definition test_enforce_refuses_release_that_breaks_a_receiver_permit :: bool where
  "test_enforce_refuses_release_that_breaks_a_receiver_permit \<longleftrightarrow> passes_from fixture (two_agents @
     [add_pending (InvocationId ''rinv'') (fixture_permitted ''rcv'' (fixture_snap Public Untrusted Untrusted Public Attested vs_new)),
      add_taint SRC Sensitive,
      refuses CrossingHoldFailed (\<lambda>k. kernel_cross_output vec_store k (fixture_cross ''x1'' ReleaseUnendorsed None\<lparr>t_conf := None\<rparr>))])"

definition test_non_declassifying_endorsement_must_dominate_source_taint :: bool where
  "test_non_declassifying_endorsement_must_dominate_source_taint \<longleftrightarrow> passes_from fixture (two_agents @
     [accepts (\<lambda>k. kernel_grant_crossing vec_store k root_id RCV (AssignmentDigest ''asg'') 1),
      add_taint SRC Sensitive,
      refuses CrossingBoundViolated (\<lambda>k. kernel_cross_output vec_store k (fixture_cross ''x1'' FbFail (Some fixture_evidence)
        \<lparr>t_conf := None, released_conf := Public\<rparr>))])"

subsection \<open>The suite\<close>

definition kernel_unit_tests :: "bool list" where
  "kernel_unit_tests =
     [test_structural_lifecycle_sequences_and_mutates,
      test_ingest_permitted_with_no_pending_absorbs_pair,
      test_ingest_refused_in_enforce_when_clearance_hold_fails,
      test_ingest_monitor_bypass_demotes_and_absorbs,
      test_ingest_rejects_undominated_a2a_provenance,
      test_settle_success_absorbs_both_dimensions_and_closes,
      test_settle_rejects_blocked_pending_record,
      test_settle_ambiguous_quarantines_and_absorbs_nothing,
      test_quarantined_settles_only_with_scoped_one_use_attestation,
      test_non_quarantined_settlement_forbids_an_attestation,
      test_begin_allow_pends_a_permitted_plain_record,
      test_begin_rejects_replayed_invocation_id,
      test_enforce_inspection_creates_challenge_then_resolves_to_inspected_permit,
      test_scope_mismatched_attestation_leaves_challenge_open,
      test_monitor_mode_deny_pends_a_bypassed_record,
      test_one_use_attestation_replay_rejected_challenge_survives,
      test_positive_attestation_denied_by_live_gate_closes_fail_closed,
      test_begin_authorizer_denied_is_typed_in_enforce,
      test_grant_crossing_is_root_only,
      test_grant_crossing_is_idempotent_set_to_n,
      test_cascade_revoke_after_parent_gone,
      test_unregister_blocked_by_pending_reference,
      test_event_store_failure_leaves_state_and_sequence_unchanged,
      test_all_events_reach_the_store,
      test_endorsed_cross_releases_bounded_pair_and_decrements_grant,
      test_unendorsed_fallback_releases_source_labels,
      test_fail_fallback_releases_nothing_but_consumes_crossing,
      test_crossing_id_is_one_use,
      test_source_with_pending_work_cannot_cross,
      test_enforce_refuses_release_that_breaks_a_receiver_permit,
      test_non_declassifying_endorsement_must_dominate_source_taint]"

lemma passes_structural_lifecycle_sequences_and_mutates: test_structural_lifecycle_sequences_and_mutates
  by code_simp

lemma passes_ingest_permitted_with_no_pending_absorbs_pair: test_ingest_permitted_with_no_pending_absorbs_pair
  by code_simp

lemma passes_ingest_refused_in_enforce_when_clearance_hold_fails: test_ingest_refused_in_enforce_when_clearance_hold_fails
  by code_simp

lemma passes_ingest_monitor_bypass_demotes_and_absorbs: test_ingest_monitor_bypass_demotes_and_absorbs
  by code_simp

lemma passes_ingest_rejects_undominated_a2a_provenance: test_ingest_rejects_undominated_a2a_provenance
  by code_simp

lemma passes_settle_success_absorbs_both_dimensions_and_closes: test_settle_success_absorbs_both_dimensions_and_closes
  by code_simp

lemma passes_settle_rejects_blocked_pending_record: test_settle_rejects_blocked_pending_record
  by code_simp

lemma passes_settle_ambiguous_quarantines_and_absorbs_nothing: test_settle_ambiguous_quarantines_and_absorbs_nothing
  by code_simp

lemma passes_quarantined_settles_only_with_scoped_one_use_attestation: test_quarantined_settles_only_with_scoped_one_use_attestation
  by code_simp

lemma passes_non_quarantined_settlement_forbids_an_attestation: test_non_quarantined_settlement_forbids_an_attestation
  by code_simp

lemma passes_begin_allow_pends_a_permitted_plain_record: test_begin_allow_pends_a_permitted_plain_record
  by code_simp

lemma passes_begin_rejects_replayed_invocation_id: test_begin_rejects_replayed_invocation_id
  by code_simp

lemma passes_enforce_inspection_creates_challenge_then_resolves_to_inspected_permit: test_enforce_inspection_creates_challenge_then_resolves_to_inspected_permit
  by code_simp

lemma passes_scope_mismatched_attestation_leaves_challenge_open: test_scope_mismatched_attestation_leaves_challenge_open
  by code_simp

lemma passes_monitor_mode_deny_pends_a_bypassed_record: test_monitor_mode_deny_pends_a_bypassed_record
  by code_simp

lemma passes_one_use_attestation_replay_rejected_challenge_survives: test_one_use_attestation_replay_rejected_challenge_survives
  by code_simp

lemma passes_positive_attestation_denied_by_live_gate_closes_fail_closed: test_positive_attestation_denied_by_live_gate_closes_fail_closed
  by code_simp

lemma passes_begin_authorizer_denied_is_typed_in_enforce: test_begin_authorizer_denied_is_typed_in_enforce
  by code_simp

lemma passes_grant_crossing_is_root_only: test_grant_crossing_is_root_only
  by code_simp

lemma passes_grant_crossing_is_idempotent_set_to_n: test_grant_crossing_is_idempotent_set_to_n
  by code_simp

lemma passes_cascade_revoke_after_parent_gone: test_cascade_revoke_after_parent_gone
  by code_simp

lemma passes_unregister_blocked_by_pending_reference: test_unregister_blocked_by_pending_reference
  by code_simp

lemma passes_event_store_failure_leaves_state_and_sequence_unchanged: test_event_store_failure_leaves_state_and_sequence_unchanged
  by code_simp

lemma passes_all_events_reach_the_store: test_all_events_reach_the_store
  by code_simp

lemma passes_endorsed_cross_releases_bounded_pair_and_decrements_grant: test_endorsed_cross_releases_bounded_pair_and_decrements_grant
  by code_simp

lemma passes_unendorsed_fallback_releases_source_labels: test_unendorsed_fallback_releases_source_labels
  by code_simp

lemma passes_fail_fallback_releases_nothing_but_consumes_crossing: test_fail_fallback_releases_nothing_but_consumes_crossing
  by code_simp

lemma passes_crossing_id_is_one_use: test_crossing_id_is_one_use
  by code_simp

lemma passes_source_with_pending_work_cannot_cross: test_source_with_pending_work_cannot_cross
  by code_simp

lemma passes_enforce_refuses_release_that_breaks_a_receiver_permit: test_enforce_refuses_release_that_breaks_a_receiver_permit
  by code_simp

lemma passes_non_declassifying_endorsement_must_dominate_source_taint: test_non_declassifying_endorsement_must_dominate_source_taint
  by code_simp

lemma kernel_unit_tests_pass: "list_all (\<lambda>b. b) kernel_unit_tests"
  by (simp add: kernel_unit_tests_def passes_structural_lifecycle_sequences_and_mutates
      passes_ingest_permitted_with_no_pending_absorbs_pair
      passes_ingest_refused_in_enforce_when_clearance_hold_fails
      passes_ingest_monitor_bypass_demotes_and_absorbs
      passes_ingest_rejects_undominated_a2a_provenance
      passes_settle_success_absorbs_both_dimensions_and_closes
      passes_settle_rejects_blocked_pending_record
      passes_settle_ambiguous_quarantines_and_absorbs_nothing
      passes_quarantined_settles_only_with_scoped_one_use_attestation
      passes_non_quarantined_settlement_forbids_an_attestation
      passes_begin_allow_pends_a_permitted_plain_record
      passes_begin_rejects_replayed_invocation_id
      passes_enforce_inspection_creates_challenge_then_resolves_to_inspected_permit
      passes_scope_mismatched_attestation_leaves_challenge_open
      passes_monitor_mode_deny_pends_a_bypassed_record
      passes_one_use_attestation_replay_rejected_challenge_survives
      passes_positive_attestation_denied_by_live_gate_closes_fail_closed
      passes_begin_authorizer_denied_is_typed_in_enforce
      passes_grant_crossing_is_root_only
      passes_grant_crossing_is_idempotent_set_to_n
      passes_cascade_revoke_after_parent_gone
      passes_unregister_blocked_by_pending_reference
      passes_event_store_failure_leaves_state_and_sequence_unchanged
      passes_all_events_reach_the_store
      passes_endorsed_cross_releases_bounded_pair_and_decrements_grant
      passes_unendorsed_fallback_releases_source_labels
      passes_fail_fallback_releases_nothing_but_consumes_crossing
      passes_crossing_id_is_one_use
      passes_source_with_pending_work_cannot_cross
      passes_enforce_refuses_release_that_breaks_a_receiver_permit
      passes_non_declassifying_endorsement_must_dominate_source_taint)

end
