(* ===== verification/Core_Unit_Tests.thy ===== *)
theory Core_Unit_Tests
  imports Kernel_Unit_Tests
begin

text \<open>
  The unit tests of the kernel's data and state (\<open>types.rs\<close>, \<open>capability.rs\<close>, \<open>collections.rs\<close>,
  \<open>background.rs\<close> and \<open>state.rs\<close>), each a conjunction of its assertions. \<open>to_string\<close> of an identity
  is its text, and a \<open>let mut\<close> that is reassigned is a chain of \<open>let\<close>s.
\<close>

subsection \<open>Types\<close>

definition test_conf_level_le :: bool where
  "test_conf_level_le \<longleftrightarrow>
     conf_le Public Public \<and>
     conf_le Public Restricted \<and>
     \<not> conf_le Restricted Sensitive"

definition test_conf_level_ordering :: bool where
  "test_conf_level_ordering \<longleftrightarrow>
     Public < Internal \<and>
     Internal < Sensitive \<and>
     Sensitive < Restricted"

definition test_integ_level_le :: bool where
  "test_integ_level_le \<longleftrightarrow>
     integ_le Untrusted Standard \<and>
     integ_le Standard Trusted \<and>
     integ_le Trusted Attested \<and>
     \<not> integ_le Standard Untrusted \<and>
     \<not> integ_le Attested Trusted"

definition test_integ_level_ordering :: bool where
  "test_integ_level_ordering \<longleftrightarrow>
     Untrusted < Standard \<and>
     Standard < Trusted \<and>
     Trusted < Attested"

definition test_integ_level_display :: bool where
  "test_integ_level_display \<longleftrightarrow>
     integ_display Untrusted = ''untrusted'' \<and>
     integ_display Attested = ''attested''"

definition test_agent_id_root :: bool where
  "test_agent_id_root \<longleftrightarrow>
     root_id = AgentId ''root''"

definition test_agent_id_display :: bool where
  "test_agent_id_display \<longleftrightarrow>
     agent_str (AgentId ''test-agent'') = ''test-agent''"

definition test_tool_id_display :: bool where
  "test_tool_id_display \<longleftrightarrow>
     tool_str (ToolId ''read_file'') = ''read_file''"

definition test_egress_kind_display :: bool where
  "test_egress_kind_display \<longleftrightarrow>
     egress_display EgNetworkExternal = ''network_external'' \<and>
     egress_display EgIpc = ''ipc''"

definition test_contained_iff_permitted :: bool where
  "test_contained_iff_permitted \<longleftrightarrow>
     (let snap = fixture_snap Restricted Untrusted Untrusted Public Attested vs_new;
          p = \<lparr>pi_agent = AgentId ''a'', pi_policy = snap, pi_egress = vs_new, admission = Plain,
            disposition_of = Permitted, pi_authorized = True, quarantined = False\<rparr>;
          q = p\<lparr>disposition_of := MonitorBypassed\<rparr>;
          r = q\<lparr>admission := Inspected (AttestationId ''att'')\<rparr>
      in contained p \<and> \<not> vouched p \<and> \<not> contained q \<and> vouched r)"

subsection \<open>Capabilities\<close>

definition test_cap_kind_all_variants_count :: bool where
  "test_cap_kind_all_variants_count \<longleftrightarrow>
     length cap_all = 15"

definition test_cap_kind_display_roundtrip :: bool where
  "test_cap_kind_display_roundtrip \<longleftrightarrow>
     list_all (\<lambda>kind. cap_from_catalog_name (cap_as_str kind) = Some kind) cap_all"

definition test_cap_kind_unknown_returns_none :: bool where
  "test_cap_kind_unknown_returns_none \<longleftrightarrow>
     cap_from_catalog_name ''nonexistent'' = None"

subsection \<open>Collections\<close>

definition test_map_insert_get_contains :: bool where
  "test_map_insert_get_contains \<longleftrightarrow>
     (let m = vm_new :: (string, u32) vec_map;
          n = vm_insert (vm_insert m ''a'' 1) ''b'' 2
      in vm_is_empty m \<and> vm_len n = 2 \<and> vm_contains_key n ''a'' \<and>
         vm_get n ''b'' = Some 2 \<and> vm_get n ''z'' = None)"

definition test_map_insert_is_last_write_wins_and_unique :: bool where
  "test_map_insert_is_last_write_wins_and_unique \<longleftrightarrow>
     (let m = vm_insert (vm_insert (vm_new :: (string, u32) vec_map) ''a'' 1) ''a'' 9
      in vm_len m = 1 \<and> vm_get m ''a'' = Some 9)"

definition test_map_remove :: bool where
  "test_map_remove \<longleftrightarrow>
     (let m = vm_remove (vm_insert (vm_insert (vm_new :: (string, u32) vec_map) ''a'' 1) ''b'' 2) ''a''
      in \<not> vm_contains_key m ''a'' \<and> vm_contains_key m ''b'' \<and> vm_len m = 1)"

definition test_map_index_access :: bool where
  "test_map_index_access \<longleftrightarrow>
     (let m = vm_insert (vm_new :: (string, u32) vec_map) ''a'' 1
      in vm_key_at m 0 = ''a'' \<and> vm_val_at m 0 = 1)"

definition test_set_insert_contains_unique :: bool where
  "test_set_insert_contains_unique \<longleftrightarrow>
     (let s = vs_new :: u32 vec_set;
          t = vs_insert (vs_insert (vs_insert s 1) 1) 2
      in vs_is_empty s \<and> vs_len t = 2 \<and> vs_contains t 1 \<and> \<not> vs_contains t 3)"

definition test_set_remove_and_union :: bool where
  "test_set_remove_and_union \<longleftrightarrow>
     (let a = vs_remove (vs_insert (vs_insert (vs_new :: u32 vec_set) 1) 2) 1;
          b = vs_insert (vs_insert vs_new 2) 3;
          c = vs_union_with a b
      in \<not> vs_contains a 1 \<and> vs_contains c 2 \<and> vs_contains c 3 \<and> vs_len c = 2)"

subsection \<open>Background theory\<close>

definition test_absent_ceiling_denies_both_bands :: bool where
  "test_absent_ceiling_denies_both_bands \<longleftrightarrow>
     \<not> flow_allows fixture_background Public EgNetworkExternal \<and>
     \<not> flow_inspects fixture_background Public EgNetworkExternal"

definition test_defaults_to_enforce_and_root :: bool where
  "test_defaults_to_enforce_and_root \<longleftrightarrow>
     bg_mode fixture_background = Enforce \<and>
     root_agent fixture_background = root_id"

definition test_mode_and_root_overridable :: bool where
  "test_mode_and_root_overridable \<longleftrightarrow>
     (let bg = builder_build (set_root_agent (set_mode builder_new Monitor) (AgentId ''op''))
      in bg_mode bg = Monitor \<and> root_agent bg = AgentId ''op'')"

definition test_ceiling_bands_bound_the_two_relations :: bool where
  "test_ceiling_bands_bound_the_two_relations \<longleftrightarrow>
     flow_allows banded_background Public EgNetworkExternal \<and>
     flow_allows banded_background Internal EgNetworkExternal \<and>
     \<not> flow_allows banded_background Sensitive EgNetworkExternal \<and>
     flow_inspects banded_background Sensitive EgNetworkExternal \<and>
     \<not> flow_inspects banded_background Restricted EgNetworkExternal \<and>
     \<not> flow_allows banded_background Public EgIpc"

definition test_empty_inspect_band_is_coherent :: bool where
  "test_empty_inspect_band_is_coherent \<longleftrightarrow>
     (let bg = builder_build (set_egress_ceilings builder_new EgIpc (Some Sensitive) (Some Internal))
      in flow_allows bg Internal EgIpc \<and> \<not> flow_allows bg Restricted EgIpc \<and>
         \<not> flow_inspects bg Restricted EgIpc)"

subsection \<open>State\<close>

definition state_pending :: "disposition \<Rightarrow> conf_level \<Rightarrow> integ_level \<Rightarrow> pending_invocation" where
  "state_pending d oc oi =
     \<lparr>pi_agent = A1, pi_policy = fixture_snap Restricted Untrusted Untrusted oc oi vs_new,
      pi_egress = vs_new, admission = Plain, disposition_of = d, pi_authorized = True, quarantined = False\<rparr>"

definition with_pending :: "string \<Rightarrow> disposition \<Rightarrow> conf_level \<Rightarrow> integ_level \<Rightarrow> kernel_state" where
  "with_pending i d oc oi =
     initial_state\<lparr>pending := vm_insert (pending initial_state) (InvocationId i) (state_pending d oc oi)\<rparr>"

definition test_initial_state_has_root_active_with_all_caps :: bool where
  "test_initial_state_has_root_active_with_all_caps \<longleftrightarrow>
     vs_contains (agent_active initial_state) root_id \<and>
     (case vm_get (agent_cap initial_state) root_id of
        Some root_caps \<Rightarrow> list_all (\<lambda>kind. vs_contains root_caps kind) cap_all
      | None \<Rightarrow> False)"

definition test_initial_state_is_empty_everywhere_else :: bool where
  "test_initial_state_is_empty_everywhere_else \<longleftrightarrow>
     vm_is_empty (agent_parent initial_state) \<and>
     vm_is_empty (taint_levels initial_state) \<and>
     vm_is_empty (integ_levels initial_state) \<and>
     vm_is_empty (pending initial_state) \<and>
     vm_is_empty (challenges initial_state) \<and>
     vs_is_empty (consumed_ids initial_state) \<and>
     vs_is_empty (consumed_attestations initial_state) \<and>
     vs_is_empty (consumed_crossings initial_state) \<and>
     vm_is_empty (crossing_grants initial_state) \<and>
     vs_is_empty (tool_registered initial_state)"

definition test_state_version_is_five :: bool where
  "test_state_version_is_five \<longleftrightarrow>
     STATE_VERSION = 5"

definition test_speculative_taint_empty_for_clean_agent :: bool where
  "test_speculative_taint_empty_for_clean_agent \<longleftrightarrow>
     vs_is_empty (speculative_taint initial_state A1)"

definition test_speculative_taint_includes_pending_output_conf :: bool where
  "test_speculative_taint_includes_pending_output_conf \<longleftrightarrow>
     vs_contains (speculative_taint (with_pending ''inv-1'' Permitted Sensitive Attested) A1) Sensitive"

definition test_speculative_taint_includes_bypassed_but_contained_filters_it :: bool where
  "test_speculative_taint_includes_bypassed_but_contained_filters_it \<longleftrightarrow>
     (let s = (with_pending ''inv-b'' MonitorBypassed Restricted Untrusted)
      in vs_contains (speculative_taint s A1) Restricted \<and>
         \<not> vs_contains (speculative_taint_contained s A1) Restricted)"

definition test_speculative_integ_includes_pending_output_integ :: bool where
  "test_speculative_integ_includes_pending_output_integ \<longleftrightarrow>
     vs_contains (speculative_integ (with_pending ''inv-1'' Permitted Public Untrusted) A1) Untrusted"

definition test_speculative_integ_includes_held_levels :: bool where
  "test_speculative_integ_includes_held_levels \<longleftrightarrow>
     vs_contains (speculative_integ
       (initial_state\<lparr>integ_levels := vm_insert_into (integ_levels initial_state) A1 Standard\<rparr>) A1) Standard"

subsection \<open>The suite\<close>

definition core_unit_tests :: "bool list" where
  "core_unit_tests =
     [test_conf_level_le,
      test_conf_level_ordering,
      test_integ_level_le,
      test_integ_level_ordering,
      test_integ_level_display,
      test_agent_id_root,
      test_agent_id_display,
      test_tool_id_display,
      test_egress_kind_display,
      test_contained_iff_permitted,
      test_cap_kind_all_variants_count,
      test_cap_kind_display_roundtrip,
      test_cap_kind_unknown_returns_none,
      test_map_insert_get_contains,
      test_map_insert_is_last_write_wins_and_unique,
      test_map_remove,
      test_map_index_access,
      test_set_insert_contains_unique,
      test_set_remove_and_union,
      test_absent_ceiling_denies_both_bands,
      test_defaults_to_enforce_and_root,
      test_mode_and_root_overridable,
      test_ceiling_bands_bound_the_two_relations,
      test_empty_inspect_band_is_coherent,
      test_initial_state_has_root_active_with_all_caps,
      test_initial_state_is_empty_everywhere_else,
      test_state_version_is_five,
      test_speculative_taint_empty_for_clean_agent,
      test_speculative_taint_includes_pending_output_conf,
      test_speculative_taint_includes_bypassed_but_contained_filters_it,
      test_speculative_integ_includes_pending_output_integ,
      test_speculative_integ_includes_held_levels]"

lemma passes_conf_level_le: test_conf_level_le
  by code_simp

lemma passes_conf_level_ordering: test_conf_level_ordering
  by code_simp

lemma passes_integ_level_le: test_integ_level_le
  by code_simp

lemma passes_integ_level_ordering: test_integ_level_ordering
  by code_simp

lemma passes_integ_level_display: test_integ_level_display
  by code_simp

lemma passes_agent_id_root: test_agent_id_root
  by code_simp

lemma passes_agent_id_display: test_agent_id_display
  by code_simp

lemma passes_tool_id_display: test_tool_id_display
  by code_simp

lemma passes_egress_kind_display: test_egress_kind_display
  by code_simp

lemma passes_contained_iff_permitted: test_contained_iff_permitted
  by code_simp

lemma passes_cap_kind_all_variants_count: test_cap_kind_all_variants_count
  by code_simp

lemma passes_cap_kind_display_roundtrip: test_cap_kind_display_roundtrip
  by code_simp

lemma passes_cap_kind_unknown_returns_none: test_cap_kind_unknown_returns_none
  by code_simp

lemma passes_map_insert_get_contains: test_map_insert_get_contains
  by code_simp

lemma passes_map_insert_is_last_write_wins_and_unique: test_map_insert_is_last_write_wins_and_unique
  by code_simp

lemma passes_map_remove: test_map_remove
  by code_simp

lemma passes_map_index_access: test_map_index_access
  by code_simp

lemma passes_set_insert_contains_unique: test_set_insert_contains_unique
  by code_simp

lemma passes_set_remove_and_union: test_set_remove_and_union
  by code_simp

lemma passes_absent_ceiling_denies_both_bands: test_absent_ceiling_denies_both_bands
  by code_simp

lemma passes_defaults_to_enforce_and_root: test_defaults_to_enforce_and_root
  by code_simp

lemma passes_mode_and_root_overridable: test_mode_and_root_overridable
  by code_simp

lemma passes_ceiling_bands_bound_the_two_relations: test_ceiling_bands_bound_the_two_relations
  by code_simp

lemma passes_empty_inspect_band_is_coherent: test_empty_inspect_band_is_coherent
  by code_simp

lemma passes_initial_state_has_root_active_with_all_caps: test_initial_state_has_root_active_with_all_caps
  by code_simp

lemma passes_initial_state_is_empty_everywhere_else: test_initial_state_is_empty_everywhere_else
  by code_simp

lemma passes_state_version_is_five: test_state_version_is_five
  by code_simp

lemma passes_speculative_taint_empty_for_clean_agent: test_speculative_taint_empty_for_clean_agent
  by code_simp

lemma passes_speculative_taint_includes_pending_output_conf: test_speculative_taint_includes_pending_output_conf
  by code_simp

lemma passes_speculative_taint_includes_bypassed_but_contained_filters_it: test_speculative_taint_includes_bypassed_but_contained_filters_it
  by code_simp

lemma passes_speculative_integ_includes_pending_output_integ: test_speculative_integ_includes_pending_output_integ
  by code_simp

lemma passes_speculative_integ_includes_held_levels: test_speculative_integ_includes_held_levels
  by code_simp

lemma core_unit_tests_pass: "list_all (\<lambda>b. b) core_unit_tests"
  by (simp add: core_unit_tests_def passes_conf_level_le
      passes_conf_level_ordering
      passes_integ_level_le
      passes_integ_level_ordering
      passes_integ_level_display
      passes_agent_id_root
      passes_agent_id_display
      passes_tool_id_display
      passes_egress_kind_display
      passes_contained_iff_permitted
      passes_cap_kind_all_variants_count
      passes_cap_kind_display_roundtrip
      passes_cap_kind_unknown_returns_none
      passes_map_insert_get_contains
      passes_map_insert_is_last_write_wins_and_unique
      passes_map_remove
      passes_map_index_access
      passes_set_insert_contains_unique
      passes_set_remove_and_union
      passes_absent_ceiling_denies_both_bands
      passes_defaults_to_enforce_and_root
      passes_mode_and_root_overridable
      passes_ceiling_bands_bound_the_two_relations
      passes_empty_inspect_band_is_coherent
      passes_initial_state_has_root_active_with_all_caps
      passes_initial_state_is_empty_everywhere_else
      passes_state_version_is_five
      passes_speculative_taint_empty_for_clean_agent
      passes_speculative_taint_includes_pending_output_conf
      passes_speculative_taint_includes_bypassed_but_contained_filters_it
      passes_speculative_integ_includes_pending_output_integ
      passes_speculative_integ_includes_held_levels)

end
