(* ===== verification/Wire_Unit_Tests.thy ===== *)
theory Wire_Unit_Tests
  imports Conformance_Soundness Native_Lifetime
begin

text \<open>
  The unit tests of the native crate's data: \<open>enums.rs\<close>, \<open>event.rs\<close>, \<open>wire.rs\<close>, \<open>state.rs\<close>,
  \<open>limits.rs\<close> and \<open>chain.rs\<close>, each a conjunction of its assertions. The tests of \<open>chain.rs\<close> take
  the hash function as an argument.
\<close>

subsection \<open>Vocabulary and actions\<close>

definition test_capability_vocabulary_roundtrips_in_fixed_order :: bool where
  "test_capability_vocabulary_roundtrips_in_fixed_order \<longleftrightarrow>
     map (\<lambda>kind. cap_into_kernel (cap_from_kernel kind)) cap_all = cap_all"

definition test_admission_with_attestation_roundtrips :: bool where
  "test_admission_with_attestation_roundtrips \<longleftrightarrow>
     (let verdict = Inspected (AttestationId ''a'')
      in admission_into_kernel (admission_from_kernel verdict) = verdict)"

definition test_settlement_action_preserves_resolution_and_computed_fields :: bool where
  "test_settlement_action_preserves_resolution_and_computed_fields \<longleftrightarrow>
     action_from_kernel
       (ActSettleInvocation (InvocationId ''inv'') (AgentId ''agent'') Permitted Success Sensitive Trusted
         (Some (AttestationId ''resolution''))) =
     NActSettleInvocation ''inv'' ''agent'' PermittedN SuccessN SensitiveN TrustedN (Some ''resolution'')"

definition test_kernel_error_maps_to_closed_native_reason :: bool where
  "test_kernel_error_maps_to_closed_native_reason \<longleftrightarrow>
     error_from_kernel CrossingBoundViolated = NCrossingBoundViolated"

subsection \<open>Wire structs\<close>

definition wire_policy :: action_policy_snapshot_n where
  "wire_policy =
     \<lparr>pn_tool = ''tool'', pn_required_caps = [NCapFilesystemRead, NCapIpc], pn_conf_clearance = SensitiveN,
      pn_integ_floor = StandardN, pn_integ_inspect = UntrustedN, pn_output_conf = InternalN,
      pn_output_integ = TrustedN, pn_declared_egress = [NEgNetworkInternal, NEgIpc],
      pn_policy_digest = ''policy''\<rparr>"

definition wire_cross_input :: "conformance_attestation_n option \<Rightarrow> cross_input_n" where
  "wire_cross_input evidence =
     \<lparr>xn_src = ''source'', xn_rcv = ''receiver'', xn_crossing = ''crossing'', xn_output_hash = ''output'',
      xn_descriptor = ''descriptor'', xn_fallback = ReleaseUnendorsedN, xn_t_integ = TrustedN,
      xn_t_conf = map_option (\<lambda>_. InternalN) evidence, xn_assignment = ''assignment'',
      xn_evidence = evidence, xn_released_conf = InternalN, xn_released_integ = StandardN\<rparr>"

definition test_background_preserves_present_and_absent_ceilings :: bool where
  "test_background_preserves_present_and_absent_ceilings \<longleftrightarrow>
     (let bg = background_into_kernel
        \<lparr>bn_mode = MonitorN,
         bn_allow_ceiling = (\<lambda>_. Some None)(NEgNetworkExternal := Some (Some InternalN)),
         bn_inspect_ceiling = (\<lambda>_. Some None)(NEgNetworkExternal := Some (Some SensitiveN))\<rparr>
      in (bg_mode bg, root_agent bg, flow_allows bg Internal EgNetworkExternal,
          flow_allows bg Public EgNetworkInternal) =
         (Monitor, root_id, True, False))"

definition test_policy_roundtrips_without_losing_set_members :: bool where
  "test_policy_roundtrips_without_losing_set_members \<longleftrightarrow>
     policy_from_kernel (policy_into_kernel wire_policy) = wire_policy"

definition test_inspection_evidence_roundtrips :: bool where
  "test_inspection_evidence_roundtrips \<longleftrightarrow>
     (let value = \<lparr>ian_id = ''attestation'', ian_inv = ''invocation'', ian_challenge = ''challenge'',
        ian_args_hash = ''arguments'', ian_policy_digest = ''policy'', ian_positive = True\<rparr>
      in inspection_from_kernel (inspection_into_kernel value) = value)"

definition test_resolution_evidence_roundtrips :: bool where
  "test_resolution_evidence_roundtrips \<longleftrightarrow>
     (let value = \<lparr>ran_id = ''attestation'', ran_inv = ''invocation'', ran_outcome = FailureN\<rparr>
      in resolution_from_kernel (resolution_into_kernel value) = value)"

definition test_cross_input_roundtrips_present_optional_fields :: bool where
  "test_cross_input_roundtrips_present_optional_fields \<longleftrightarrow>
     (let value = wire_cross_input (Some \<lparr>can_id = ''attestation'', can_output = ''output'',
        can_src = ''source'', can_rcv = ''receiver'', can_descriptor = ''descriptor'',
        can_assignment = ''assignment'', can_positive = True\<rparr>)
      in cross_from_kernel (cross_into_kernel value) = value)"

definition test_cross_input_roundtrips_absent_optional_fields :: bool where
  "test_cross_input_roundtrips_absent_optional_fields \<longleftrightarrow>
     (let value = wire_cross_input None in cross_from_kernel (cross_into_kernel value) = value)"

subsection \<open>Observation\<close>

definition observed_policy :: "bool \<Rightarrow> string \<Rightarrow> action_policy_snapshot" where
  "observed_policy reverse suffix =
     \<lparr>aps_tool = ToolId (''tool-'' @ suffix),
      required_caps = vs_from_array (if reverse then [CapIpc, CapFilesystemRead] else [CapFilesystemRead, CapIpc]),
      conf_clearance = Sensitive, integ_floor = Standard, integ_inspect = Untrusted,
      output_conf = Internal, output_integ = Trusted,
      declared_egress = vs_from_array (if reverse then [EgIpc, EgNetworkExternal] else [EgNetworkExternal, EgIpc]),
      policy_digest = PolicyDigest (''policy-'' @ suffix)\<rparr>"

definition observed_pending :: "bool \<Rightarrow> string \<Rightarrow> pending_invocation" where
  "observed_pending reverse suffix =
     \<lparr>pi_agent = AgentId (''agent-'' @ suffix), pi_policy = observed_policy reverse suffix,
      pi_egress = vs_from_array (if reverse then [EgIpc, EgNetworkInternal] else [EgNetworkInternal, EgIpc]),
      admission = Inspected (AttestationId (''attestation-'' @ suffix)), disposition_of = MonitorBypassed,
      pi_authorized = False, quarantined = True\<rparr>"

definition observed_challenge :: "bool \<Rightarrow> string \<Rightarrow> challenge_scope" where
  "observed_challenge reverse suffix =
     \<lparr>cs_challenge = ChallengeId (''challenge-'' @ suffix), cs_agent = AgentId (''agent-'' @ suffix),
      cs_policy = observed_policy reverse suffix,
      cs_egress = vs_from_array (if reverse then [EgIpc, EgFilesystemWrite] else [EgFilesystemWrite, EgIpc]),
      cs_args_hash = ContentHash (''args-'' @ suffix), cs_authorized = True\<rparr>"

definition observed_state :: "bool \<Rightarrow> kernel_state" where
  "observed_state reverse =
     (let order = (if reverse then [''z'', ''a''] else [''a'', ''z''])
      in initial_state
        \<lparr>agent_active := vs_from_iter (map AgentId order),
         agent_parent := vm_from_iter (map (\<lambda>i. (AgentId i, AgentId (''parent-'' @ i))) order),
         agent_cap := vm_from_iter (map (\<lambda>i. (AgentId i,
           vs_from_array (if reverse then [CapIpc, CapFilesystemRead] else [CapFilesystemRead, CapIpc]))) order),
         taint_levels := vm_from_iter (map (\<lambda>i. (AgentId i,
           vs_from_array (if reverse then [Restricted, Public] else [Public, Restricted]))) order),
         integ_levels := vm_from_iter (map (\<lambda>i. (AgentId i,
           vs_from_array (if reverse then [Attested, Untrusted] else [Untrusted, Attested]))) order),
         pending := vm_from_iter (map (\<lambda>i. (InvocationId i, observed_pending reverse i)) order),
         challenges := vm_from_iter (map (\<lambda>i. (InvocationId i, observed_challenge reverse i)) order),
         consumed_ids := vs_from_iter (map InvocationId order),
         consumed_attestations := vs_from_iter (map AttestationId order),
         consumed_crossings := vs_from_iter (map CrossingId order),
         crossing_grants := vm_from_iter (map (\<lambda>i.
           (\<lparr>ck_agent = AgentId i, ck_assignment = AssignmentDigest (''assignment-'' @ i)\<rparr>,
            \<lparr>remaining = (if i = ''a'' then 1 else 2), provisioned = (if i = ''a'' then 3 else 4)\<rparr>)) order),
         tool_registered := vs_from_iter (map (\<lambda>i. ToolId (''tool-'' @ i)) order)\<rparr>)"

definition test_projection_is_equal_for_every_collection_family_across_insertion_orders :: bool where
  "test_projection_is_equal_for_every_collection_family_across_insertion_orders \<longleftrightarrow>
     state_from_kernel (observed_state False) = state_from_kernel (observed_state True)"

definition test_projection_preserves_all_fields_and_nested_semantics :: bool where
  "test_projection_preserves_all_fields_and_nested_semantics \<longleftrightarrow>
     (let expected_policy =
        \<lparr>pn_tool = ''tool-a'', pn_required_caps = [NCapFilesystemRead, NCapIpc],
         pn_conf_clearance = SensitiveN, pn_integ_floor = StandardN, pn_integ_inspect = UntrustedN,
         pn_output_conf = InternalN, pn_output_integ = TrustedN,
         pn_declared_egress = [NEgNetworkExternal, NEgIpc], pn_policy_digest = ''policy-a''\<rparr>
      in state_from_kernel (observed_state False) =
        \<lparr>zn_agent_active = [''a'', ''z''],
         zn_agent_parent = [(''a'', ''parent-a''), (''z'', ''parent-z'')],
         zn_agent_cap = [(''a'', [NCapFilesystemRead, NCapIpc]), (''z'', [NCapFilesystemRead, NCapIpc])],
         zn_taint_levels = [(''a'', [PublicN, RestrictedN]), (''z'', [PublicN, RestrictedN])],
         zn_integ_levels = [(''a'', [UntrustedN, AttestedN]), (''z'', [UntrustedN, AttestedN])],
         zn_pending =
           [(''a'', \<lparr>jn_agent = ''agent-a'', jn_policy = expected_policy,
              jn_egress = [NEgNetworkInternal, NEgIpc], jn_admission = InspectedN ''attestation-a'',
              jn_disposition = MonitorBypassedN, jn_authorized = False, jn_quarantined = True\<rparr>),
            (''z'', \<lparr>jn_agent = ''agent-z'',
              jn_policy = expected_policy\<lparr>pn_tool := ''tool-z'', pn_policy_digest := ''policy-z''\<rparr>,
              jn_egress = [NEgNetworkInternal, NEgIpc], jn_admission = InspectedN ''attestation-z'',
              jn_disposition = MonitorBypassedN, jn_authorized = False, jn_quarantined = True\<rparr>)],
         zn_challenges =
           [(''a'', \<lparr>sn_challenge = ''challenge-a'', sn_agent = ''agent-a'', sn_policy = expected_policy,
              sn_egress = [NEgFilesystemWrite, NEgIpc], sn_args_hash = ''args-a'', sn_authorized = True\<rparr>),
            (''z'', \<lparr>sn_challenge = ''challenge-z'', sn_agent = ''agent-z'',
              sn_policy = expected_policy\<lparr>pn_tool := ''tool-z'', pn_policy_digest := ''policy-z''\<rparr>,
              sn_egress = [NEgFilesystemWrite, NEgIpc], sn_args_hash = ''args-z'', sn_authorized = True\<rparr>)],
         zn_consumed_ids = [''a'', ''z''],
         zn_consumed_attestations = [''a'', ''z''],
         zn_consumed_crossings = [''a'', ''z''],
         zn_crossing_grants =
           [((''a'', ''assignment-a''), \<lparr>gn_remaining = 1, gn_provisioned = 3\<rparr>),
            ((''z'', ''assignment-z''), \<lparr>gn_remaining = 2, gn_provisioned = 4\<rparr>)],
         zn_tool_registered = [''tool-a'', ''tool-z'']\<rparr>)"

subsection \<open>Limits\<close>

definition test_capacity_profile_is_protocol_fixed :: bool where
  "test_capacity_profile_is_protocol_fixed \<longleftrightarrow>
     [MAX_OPAQUE_UTF8_BYTES, MAX_AGENTS, MAX_PARENT_OR_LABEL_KEYS, MAX_TOOLS, MAX_PENDING, MAX_CHALLENGES,
      MAX_CROSSING_GRANTS, MAX_CONSUMED_IDS, MAX_CONSUMED_ATTESTATIONS, MAX_CONSUMED_CROSSINGS,
      MAX_RETAINED_UTF8_BYTES, MAX_ACCEPTED_SEQUENCE, MAX_RECOVERY_ENVELOPES, MAX_REPLAY_CONTENT_BYTES,
      MAX_CAPABILITIES, MAX_EGRESS_KINDS, MAX_CONF_LEVELS, MAX_INTEG_LEVELS] =
     [1024, 4096, 4096, 1024, 4096, 4096, 16384, 65536, 65536, 65536, 16 * 1024 * 1024, 100000, 100000,
      64 * 1024 * 1024, 15, 4, 4, 4]"

definition test_checked_capacity_accepts_exact_limit_and_rejects_one_over :: bool where
  "test_checked_capacity_accepts_exact_limit_and_rejects_one_over \<longleftrightarrow>
     checked_capacity 4095 1 MAX_AGENTS = Inr 4096 \<and>
     checked_capacity 4096 1 MAX_AGENTS = Inl CapacityExceeded"

definition test_text_growth_accepts_exact_limit_and_rejects_one_over :: bool where
  "test_text_growth_accepts_exact_limit_and_rejects_one_over \<longleftrightarrow>
     (case text_budget_from_total (MAX_RETAINED_UTF8_BYTES - 1) of
        Inr exact \<Rightarrow>
          (case text_add exact ''x'' of
             Inr exact \<Rightarrow> text_add exact ''x'' = Inl CapacityExceeded
           | Inl e \<Rightarrow> False)
      | Inl e \<Rightarrow> False)"

definition test_preflight_checks_sequence_without_allocating_history :: bool where
  "test_preflight_checks_sequence_without_allocating_history \<longleftrightarrow>
     (let command = CmdRegisterTool ''tool''
      in preflight initial_state (of_nat MAX_ACCEPTED_SEQUENCE - 1) command = Inr () \<and>
         preflight initial_state (of_nat MAX_ACCEPTED_SEQUENCE) command = Inl SequenceExhausted)"

definition test_recovery_link_count_accepts_exact_limit_and_rejects_next :: bool where
  "test_recovery_link_count_accepts_exact_limit_and_rejects_next \<longleftrightarrow>
     check_recovery_link initial_state (of_nat MAX_RECOVERY_ENVELOPES - 1) = Inr () \<and>
     check_recovery_link initial_state (of_nat MAX_RECOVERY_ENVELOPES) = Inl SequenceExhausted"

definition test_preflight_accepts_maximum_u32_crossing_count :: bool where
  "test_preflight_accepts_maximum_u32_crossing_count \<longleftrightarrow>
     (let command = CmdGrantCrossing ''root'' ''agent'' ''assignment'' (- 1)
      in preflight initial_state 0 command = Inr ())"

definition test_preflight_rejects_one_over_opaque_limit :: bool where
  "test_preflight_rejects_one_over_opaque_limit \<longleftrightarrow>
     (let command = CmdRegisterTool (replicate (MAX_OPAQUE_UTF8_BYTES + 1) (CHR ''x''))
      in preflight initial_state 0 command = Inl CapacityExceeded)"

subsection \<open>The chain\<close>

text \<open>\<open>background()\<close> of these tests is \<open>vector_background\<close>.\<close>

definition test_genesis_pins_canonical_bytes_and_sha256 :: "hash_function \<Rightarrow> bool" where
  "test_genesis_pins_canonical_bytes_and_sha256 sha256 \<longleftrightarrow>
     hex (genesis_transcript vector_background) =
       ''455841524755530047454e45534953000000000500000004726f6f74010101000103010001020100000101'' \<and>
     hex (digest_bytes (genesis sha256 vector_background)) =
       ''909cf2b46d6f57257e56704813925e65f7a17584c4b682dedd360dc693321566''"

definition settlement_command :: "string \<Rightarrow> outcome_n \<Rightarrow> (string \<times> string \<times> outcome_n) option \<Rightarrow> command_n" where
  "settlement_command invocation out resolution =
     CmdSettleInvocation invocation out
       (map_option (\<lambda>(i, j, k). \<lparr>ran_id = i, ran_inv = j, ran_outcome = k\<rparr>) resolution)"

definition test_settlement_link_pins_authoritative_tag_bytes_and_sha256 :: "hash_function \<Rightarrow> bool" where
  "test_settlement_link_pins_authoritative_tag_bytes_and_sha256 sha256 \<longleftrightarrow>
     (let previous = DigestN (map (\<lambda>index. of_nat index) [0..<32]);
          command = settlement_command ''inv'' AmbiguousN (Some (''res'', ''inv'', FailureN));
          action = NActSettleInvocation ''inv'' ''agent'' MonitorBypassedN AmbiguousN SensitiveN TrustedN
            (Some ''res'')
      in hex (link_transcript previous 42 command action) =
           ''4558415247555300454e56454c4f50450000000005000102030405060708090a0b0c0d0e0f101112131415161718191a1b1c1d1e1f000000000000002a0a00000003696e7602010000000372657300000003696e76010a00000003696e76000000056167656e74020202020100000003726573'' \<and>
         hex (digest_bytes (link sha256 previous 42 command action)) =
           ''d3020216c7a8f595170d33a289efdce61ea505896c8892f1a0d489818146b751'')"

definition genesis_variant :: "bool \<Rightarrow> egress_kind_n \<Rightarrow> background_n" where
  "genesis_variant inspect egress =
     (let ceilings = (if inspect then bn_inspect_ceiling vector_background else bn_allow_ceiling vector_background);
          replacement = (case flatten (ceilings egress) of Some _ \<Rightarrow> None | None \<Rightarrow> Some PublicN);
          ceilings = ceilings(egress \<mapsto> replacement)
      in if inspect then vector_background\<lparr>bn_inspect_ceiling := ceilings\<rparr>
         else vector_background\<lparr>bn_allow_ceiling := ceilings\<rparr>)"

definition genesis_variants :: "background_n list" where
  "genesis_variants =
     vector_background\<lparr>bn_mode := EnforceN\<rparr> #
     concat (map (\<lambda>inspect. map (genesis_variant inspect) egress_all) [False, True])"

definition test_genesis_hash_changes_when_each_background_field_changes :: "hash_function \<Rightarrow> bool" where
  "test_genesis_hash_changes_when_each_background_field_changes sha256 \<longleftrightarrow>
     list_all (\<lambda>changed. genesis sha256 changed \<noteq> genesis sha256 vector_background) genesis_variants"

type_synonym link_input = "digest_n \<times> u64 \<times> command_n \<times> action_n"

definition sevens :: digest_n where "sevens = DigestN (replicate 32 7)"

definition settlement_baseline :: link_input where
  "settlement_baseline =
     (sevens, 42, settlement_command ''inv'' AmbiguousN (Some (''res'', ''inv'', FailureN)),
      NActSettleInvocation ''inv'' ''agent'' MonitorBypassedN AmbiguousN SensitiveN TrustedN (Some ''res''))"

definition settlement_variants :: "link_input list" where
  "settlement_variants =
     (let previous = sevens;
          command = settlement_command ''inv'' AmbiguousN (Some (''res'', ''inv'', FailureN));
          action = NActSettleInvocation ''inv'' ''agent'' MonitorBypassedN AmbiguousN SensitiveN TrustedN (Some ''res'')
      in [(DigestN (replicate 32 8), 42, command, action),
          (previous, 43, command, action),
          (previous, 42, settlement_command ''inv2'' AmbiguousN (Some (''res'', ''inv'', FailureN)), action),
          (previous, 42, settlement_command ''inv'' SuccessN (Some (''res'', ''inv'', FailureN)), action),
          (previous, 42, settlement_command ''inv'' AmbiguousN None, action),
          (previous, 42, settlement_command ''inv'' AmbiguousN (Some (''res2'', ''inv'', FailureN)), action),
          (previous, 42, settlement_command ''inv'' AmbiguousN (Some (''res'', ''inv2'', FailureN)), action),
          (previous, 42, settlement_command ''inv'' AmbiguousN (Some (''res'', ''inv'', SuccessN)), action),
          (previous, 42, command, NActSettleInvocation ''inv2'' ''agent'' MonitorBypassedN AmbiguousN SensitiveN TrustedN (Some ''res'')),
          (previous, 42, command, NActSettleInvocation ''inv'' ''agent2'' MonitorBypassedN AmbiguousN SensitiveN TrustedN (Some ''res'')),
          (previous, 42, command, NActSettleInvocation ''inv'' ''agent'' PermittedN AmbiguousN SensitiveN TrustedN (Some ''res'')),
          (previous, 42, command, NActSettleInvocation ''inv'' ''agent'' MonitorBypassedN FailureN SensitiveN TrustedN (Some ''res'')),
          (previous, 42, command, NActSettleInvocation ''inv'' ''agent'' MonitorBypassedN AmbiguousN RestrictedN TrustedN (Some ''res'')),
          (previous, 42, command, NActSettleInvocation ''inv'' ''agent'' MonitorBypassedN AmbiguousN SensitiveN AttestedN (Some ''res'')),
          (previous, 42, command, NActSettleInvocation ''inv'' ''agent'' MonitorBypassedN AmbiguousN SensitiveN TrustedN None),
          (previous, 42, command, NActSettleInvocation ''inv'' ''agent'' MonitorBypassedN AmbiguousN SensitiveN TrustedN (Some ''res2''))])"

definition link_input_transcript :: "link_input \<Rightarrow> byte list" where
  "link_input_transcript = (\<lambda>(previous, sequence, command, action). link_transcript previous sequence command action)"

definition test_settlement_hash_changes_when_each_link_field_changes :: "hash_function \<Rightarrow> bool" where
  "test_settlement_hash_changes_when_each_link_field_changes sha256 \<longleftrightarrow>
     (let digest = (\<lambda>(previous, sequence, command, action). link sha256 previous sequence command action)
      in list_all (\<lambda>changed. digest changed \<noteq> digest settlement_baseline) settlement_variants)"

definition sample_begin :: "cap_kind_n list \<Rightarrow> egress_kind_n list \<Rightarrow> egress_kind_n list \<Rightarrow> command_n" where
  "sample_begin required declared narrowed =
     CmdBeginInvocation ''agent'' ''inv'' ''challenge''
       \<lparr>pn_tool = ''tool'', pn_required_caps = required, pn_conf_clearance = RestrictedN,
        pn_integ_floor = StandardN, pn_integ_inspect = UntrustedN, pn_output_conf = InternalN,
        pn_output_integ = TrustedN, pn_declared_egress = declared, pn_policy_digest = ''policy''\<rparr>
       narrowed ''args'' True"

definition test_set_lists_hash_in_fixed_semantic_order :: "hash_function \<Rightarrow> bool" where
  "test_set_lists_hash_in_fixed_semantic_order sha256 \<longleftrightarrow>
     (let required = [NCapIpc, NCapFilesystemRead]; declared = [NEgIpc, NEgNetworkExternal]; narrowed = [NEgIpc, NEgNetworkExternal];
          first = sample_begin required declared narrowed;
          second = sample_begin (rev required) (rev declared) (rev narrowed);
          action = NActBeginInvocation ''agent'' ''inv'' ''tool'' AllowN True
      in link sha256 (DigestN (replicate 32 0)) 1 first action = link sha256 (DigestN (replicate 32 0)) 1 second action)"

subsection \<open>The tests pass\<close>

text \<open>
  What the tests of \<open>chain.rs\<close> need of SHA-256: its value on the two pinned transcripts, and that it
  separates the inputs these tests compare.
\<close>

definition pinned_value :: "hash_function \<Rightarrow> string \<Rightarrow> string \<Rightarrow> bool" where
  "pinned_value sha256 message value \<longleftrightarrow>
     (case bytes_of_hex message of Some bytes \<Rightarrow> hex (sha256 bytes) = value | None \<Rightarrow> False)"

definition chain_test_inputs :: "byte list list" where
  "chain_test_inputs =
     map genesis_transcript (vector_background # genesis_variants) @
     map link_input_transcript (settlement_baseline # settlement_variants)"

definition chain_test_hash :: "hash_function \<Rightarrow> bool" where
  "chain_test_hash sha256 \<longleftrightarrow>
     inj_on sha256 (set chain_test_inputs) \<and>
     pinned_value sha256
       ''455841524755530047454e45534953000000000500000004726f6f74010101000103010001020100000101''
       ''909cf2b46d6f57257e56704813925e65f7a17584c4b682dedd360dc693321566'' \<and>
     pinned_value sha256
       ''4558415247555300454e56454c4f50450000000005000102030405060708090a0b0c0d0e0f101112131415161718191a1b1c1d1e1f000000000000002a0a00000003696e7602010000000372657300000003696e76010a00000003696e76000000056167656e74020202020100000003726573''
       ''d3020216c7a8f595170d33a289efdce61ea505896c8892f1a0d489818146b751''"

lemma passes_capability_vocabulary_roundtrips_in_fixed_order: test_capability_vocabulary_roundtrips_in_fixed_order
  by code_simp

lemma passes_admission_with_attestation_roundtrips: test_admission_with_attestation_roundtrips
  by code_simp

lemma passes_settlement_action_preserves_resolution_and_computed_fields: test_settlement_action_preserves_resolution_and_computed_fields
  by code_simp

lemma passes_kernel_error_maps_to_closed_native_reason: test_kernel_error_maps_to_closed_native_reason
  by code_simp

lemma passes_background_preserves_present_and_absent_ceilings: test_background_preserves_present_and_absent_ceilings
  by code_simp

lemma passes_policy_roundtrips_without_losing_set_members: test_policy_roundtrips_without_losing_set_members
  by code_simp

lemma passes_inspection_evidence_roundtrips: test_inspection_evidence_roundtrips
  by code_simp

lemma passes_resolution_evidence_roundtrips: test_resolution_evidence_roundtrips
  by code_simp

lemma passes_cross_input_roundtrips_present_optional_fields: test_cross_input_roundtrips_present_optional_fields
  by code_simp

lemma passes_cross_input_roundtrips_absent_optional_fields: test_cross_input_roundtrips_absent_optional_fields
  by code_simp

lemma passes_projection_is_equal_for_every_collection_family_across_insertion_orders: test_projection_is_equal_for_every_collection_family_across_insertion_orders
  by code_simp

lemma passes_projection_preserves_all_fields_and_nested_semantics: test_projection_preserves_all_fields_and_nested_semantics
  by code_simp

lemma passes_capacity_profile_is_protocol_fixed: test_capacity_profile_is_protocol_fixed
  by (simp add: test_capacity_profile_is_protocol_fixed_def limit_defs MAX_ACCEPTED_SEQUENCE_def MAX_RECOVERY_ENVELOPES_def
      MAX_REPLAY_CONTENT_BYTES_def)

lemma passes_checked_capacity_accepts_exact_limit_and_rejects_one_over: test_checked_capacity_accepts_exact_limit_and_rejects_one_over
  by (simp add: test_checked_capacity_accepts_exact_limit_and_rejects_one_over_def checked_capacity_def limit_defs)

lemma passes_text_growth_accepts_exact_limit_and_rejects_one_over: test_text_growth_accepts_exact_limit_and_rejects_one_over
  by (simp add: test_text_growth_accepts_exact_limit_and_rejects_one_over_def text_budget_from_total_def
      evaluate_limits)

lemma passes_preflight_checks_sequence_without_allocating_history: test_preflight_checks_sequence_without_allocating_history
  by (simp add: test_preflight_checks_sequence_without_allocating_history_def evaluate_limits)

lemma passes_recovery_link_count_accepts_exact_limit_and_rejects_next: test_recovery_link_count_accepts_exact_limit_and_rejects_next
  by (simp add: test_recovery_link_count_accepts_exact_limit_and_rejects_next_def evaluate_limits
      MAX_RECOVERY_ENVELOPES_def)

lemma passes_preflight_accepts_maximum_u32_crossing_count: test_preflight_accepts_maximum_u32_crossing_count
  by (simp add: test_preflight_accepts_maximum_u32_crossing_count_def evaluate_limits)

lemma passes_preflight_rejects_one_over_opaque_limit: test_preflight_rejects_one_over_opaque_limit
  by (simp add: test_preflight_rejects_one_over_opaque_limit_def evaluate_limits del: replicate.simps)

text \<open>The two pinned transcripts as text, and the inputs that differ from the baseline they are compared with.\<close>

lemma pinned_genesis_hex:
  "hex (genesis_transcript vector_background) =
     ''455841524755530047454e45534953000000000500000004726f6f74010101000103010001020100000101''"
  by (simp add: genesis_vector hex_def hex_digit_def)

lemma pinned_link_hex:
  "hex (link_transcript (DigestN (map (\<lambda>index. of_nat index) [0..<32])) 42
       (settlement_command ''inv'' AmbiguousN (Some (''res'', ''inv'', FailureN)))
       (NActSettleInvocation ''inv'' ''agent'' MonitorBypassedN AmbiguousN SensitiveN TrustedN (Some ''res''))) =
     ''4558415247555300454e56454c4f50450000000005000102030405060708090a0b0c0d0e0f101112131415161718191a1b1c1d1e1f000000000000002a0a00000003696e7602010000000372657300000003696e76010a00000003696e76000000056167656e74020202020100000003726573''"
  by (simp only: settlement_command_def option.map prod.case settlement_vector) (simp add: hex_def hex_digit_def)

lemma genesis_variants_differ:
  "list_all (\<lambda>changed. genesis_transcript changed \<noteq> genesis_transcript vector_background) genesis_variants"
  by (simp add: genesis_transcript_inject background_view_def genesis_variants_def genesis_variant_def egress_all_def
      vector_background_def flatten_def fun_eq_iff split: egress_kind_n.split)

lemma settlement_variants_differ:
  "list_all (\<lambda>changed. link_input_transcript changed \<noteq> link_input_transcript settlement_baseline) settlement_variants"
  by (simp add: link_input_transcript_def settlement_baseline_def settlement_variants_def settlement_command_def
      sevens_def link_transcript_inject digest_wf_def u32_length_def Let_def)

lemma passes_genesis_pins:
  assumes "chain_test_hash sha256"
  shows "test_genesis_pins_canonical_bytes_and_sha256 sha256"
  using assms unfolding chain_test_hash_def test_genesis_pins_canonical_bytes_and_sha256_def pinned_value_def
  by (simp only: pinned_genesis_hex [symmetric] bytes_of_hex_hex option.case genesis_def digest_n.sel)

lemma passes_settlement_link_pins:
  assumes "chain_test_hash sha256"
  shows "test_settlement_link_pins_authoritative_tag_bytes_and_sha256 sha256"
  using assms
  unfolding chain_test_hash_def test_settlement_link_pins_authoritative_tag_bytes_and_sha256_def pinned_value_def
  by (simp only: pinned_link_hex [symmetric] bytes_of_hex_hex option.case link_def digest_n.sel Let_def)

lemma passes_genesis_changes:
  assumes "chain_test_hash sha256"
  shows "test_genesis_hash_changes_when_each_background_field_changes sha256"
proof -
  have inj: "inj_on sha256 (set chain_test_inputs)" using assms by (simp add: chain_test_hash_def)
  have "sha256 (genesis_transcript v) \<noteq> sha256 (genesis_transcript vector_background)"
    if "v \<in> set genesis_variants" for v
    using that genesis_variants_differ inj
    by (subst inj_on_eq_iff [OF inj]) (auto simp: chain_test_inputs_def list_all_iff)
  then show ?thesis
    by (simp add: test_genesis_hash_changes_when_each_background_field_changes_def genesis_def list_all_iff)
qed

lemma passes_settlement_changes:
  assumes "chain_test_hash sha256"
  shows "test_settlement_hash_changes_when_each_link_field_changes sha256"
proof -
  have inj: "inj_on sha256 (set chain_test_inputs)" using assms by (simp add: chain_test_hash_def)
  have "sha256 (link_input_transcript v) \<noteq> sha256 (link_input_transcript settlement_baseline)"
    if "v \<in> set settlement_variants" for v
    using that settlement_variants_differ
    by (subst inj_on_eq_iff [OF inj]) (auto simp: chain_test_inputs_def list_all_iff)
  moreover have "(\<lambda>(previous, sequence, command, action). link sha256 previous sequence command action) v =
      DigestN (sha256 (link_input_transcript v))" for v
    by (simp add: link_def link_input_transcript_def split: prod.split)
  ultimately show ?thesis
    by (simp add: test_settlement_hash_changes_when_each_link_field_changes_def list_all_iff)
qed

lemma passes_set_lists_order: "test_set_lists_hash_in_fixed_semantic_order sha256"
proof -
  have "link_transcript (DigestN (replicate 32 0)) 1
      (sample_begin [NCapIpc, NCapFilesystemRead] [NEgIpc, NEgNetworkExternal] [NEgIpc, NEgNetworkExternal])
      (NActBeginInvocation ''agent'' ''inv'' ''tool'' AllowN True) =
    link_transcript (DigestN (replicate 32 0)) 1
      (sample_begin [NCapFilesystemRead, NCapIpc] [NEgNetworkExternal, NEgIpc] [NEgNetworkExternal, NEgIpc])
      (NActBeginInvocation ''agent'' ''inv'' ''tool'' AllowN True)"
    by code_simp
  then show ?thesis
    by (simp add: test_set_lists_hash_in_fixed_semantic_order_def link_def)
qed

definition wire_unit_tests :: "bool list" where
  "wire_unit_tests =
     [test_capability_vocabulary_roundtrips_in_fixed_order,
      test_admission_with_attestation_roundtrips,
      test_settlement_action_preserves_resolution_and_computed_fields,
      test_kernel_error_maps_to_closed_native_reason,
      test_background_preserves_present_and_absent_ceilings,
      test_policy_roundtrips_without_losing_set_members,
      test_inspection_evidence_roundtrips,
      test_resolution_evidence_roundtrips,
      test_cross_input_roundtrips_present_optional_fields,
      test_cross_input_roundtrips_absent_optional_fields,
      test_projection_is_equal_for_every_collection_family_across_insertion_orders,
      test_projection_preserves_all_fields_and_nested_semantics,
      test_capacity_profile_is_protocol_fixed,
      test_checked_capacity_accepts_exact_limit_and_rejects_one_over,
      test_text_growth_accepts_exact_limit_and_rejects_one_over,
      test_preflight_checks_sequence_without_allocating_history,
      test_recovery_link_count_accepts_exact_limit_and_rejects_next,
      test_preflight_accepts_maximum_u32_crossing_count,
      test_preflight_rejects_one_over_opaque_limit]"

lemma wire_unit_tests_pass: "list_all (\<lambda>b. b) wire_unit_tests"
  by (simp add: wire_unit_tests_def passes_capability_vocabulary_roundtrips_in_fixed_order
      passes_admission_with_attestation_roundtrips
      passes_settlement_action_preserves_resolution_and_computed_fields
      passes_kernel_error_maps_to_closed_native_reason
      passes_background_preserves_present_and_absent_ceilings
      passes_policy_roundtrips_without_losing_set_members
      passes_inspection_evidence_roundtrips
      passes_resolution_evidence_roundtrips
      passes_cross_input_roundtrips_present_optional_fields
      passes_cross_input_roundtrips_absent_optional_fields
      passes_projection_is_equal_for_every_collection_family_across_insertion_orders
      passes_projection_preserves_all_fields_and_nested_semantics
      passes_capacity_profile_is_protocol_fixed
      passes_checked_capacity_accepts_exact_limit_and_rejects_one_over
      passes_text_growth_accepts_exact_limit_and_rejects_one_over
      passes_preflight_checks_sequence_without_allocating_history
      passes_recovery_link_count_accepts_exact_limit_and_rejects_next
      passes_preflight_accepts_maximum_u32_crossing_count
      passes_preflight_rejects_one_over_opaque_limit)

definition chain_unit_tests :: "hash_function \<Rightarrow> bool list" where
  "chain_unit_tests sha256 =
     [test_genesis_pins_canonical_bytes_and_sha256 sha256,
      test_settlement_link_pins_authoritative_tag_bytes_and_sha256 sha256,
      test_genesis_hash_changes_when_each_background_field_changes sha256,
      test_settlement_hash_changes_when_each_link_field_changes sha256,
      test_set_lists_hash_in_fixed_semantic_order sha256]"

lemma chain_unit_tests_pass: "chain_test_hash sha256 \<Longrightarrow> list_all (\<lambda>b. b) (chain_unit_tests sha256)"
  by (simp add: chain_unit_tests_def passes_genesis_pins passes_settlement_link_pins passes_genesis_changes
      passes_settlement_changes passes_set_lists_order)

end
