(* ===== verification/Instance_Unit_Tests.thy ===== *)
theory Instance_Unit_Tests
  imports Wire_Unit_Tests Instance_Concurrency Native_Lifetime
begin

text \<open>
  The unit tests of \<open>argus_nif/src/instance.rs\<close> on the model. A test takes the hash function; an
  \<open>unwrap\<close> is a case distinction whose other branch fails the test. A guard kept alive by a test
  holds the lock (\<open>hold\<close>), and a thread that panics while holding it leaves it poisoned (\<open>poison\<close>).
\<close>

subsection \<open>Steps and fixtures\<close>

definition unwrap_call :: "('e + 'a) \<times> 's \<Rightarrow> ('a \<Rightarrow> 's \<Rightarrow> bool) \<Rightarrow> bool" where
  "unwrap_call call rest = (case call of (Inr x, s) \<Rightarrow> rest x s | (Inl e, s) \<Rightarrow> False)"

definition instance_background :: background_n where
  "instance_background =
     \<lparr>bn_mode = EnforceN, bn_allow_ceiling = (\<lambda>_. Some None), bn_inspect_ceiling = (\<lambda>_. Some None)\<rparr>"

definition register_tool_n :: "string \<Rightarrow> command_n" where
  "register_tool_n tool = CmdRegisterTool tool"

definition live_triple :: "live_instance \<Rightarrow> instance_state option" where
  "live_triple live = (case mutex_try_lock (li_inner live) of Inr st \<Rightarrow> Some st | Inl e \<Rightarrow> None)"

definition recovery_triple :: "recovery_instance \<Rightarrow> instance_state option option" where
  "recovery_triple rec = (case mutex_try_lock (ri_inner rec) of Inr slot \<Rightarrow> Some slot | Inl e \<Rightarrow> None)"

definition assert_replay_failure ::
  "hash_function \<Rightarrow> recovery_instance \<Rightarrow> envelope_n \<Rightarrow> error_n \<Rightarrow> bool" where
  "assert_replay_failure sha256 rec envelope expected \<longleftrightarrow>
     (let before = recovery_triple rec; (result, rec') = recovery_replay sha256 rec envelope
      in before \<noteq> None \<and> (result, recovery_triple rec') = (Inl expected, before))"

definition edit_live :: "(instance_state \<Rightarrow> instance_state) \<Rightarrow> live_instance \<Rightarrow> live_instance" where
  "edit_live f live = live\<lparr>li_inner := (li_inner live)\<lparr>mx_data := f (mx_data (li_inner live))\<rparr>\<rparr>"

definition edit_recovery :: "(instance_state \<Rightarrow> instance_state) \<Rightarrow> recovery_instance \<Rightarrow> recovery_instance" where
  "edit_recovery f rec = rec\<lparr>ri_inner := (ri_inner rec)\<lparr>mx_data := map_option f (mx_data (ri_inner rec))\<rparr>\<rparr>"

definition hold_recovery :: "recovery_instance \<Rightarrow> recovery_instance" where
  "hold_recovery rec = rec\<lparr>ri_inner := (ri_inner rec)\<lparr>mx_held := True\<rparr>\<rparr>"

definition poison_recovery :: "recovery_instance \<Rightarrow> recovery_instance" where
  "poison_recovery rec = rec\<lparr>ri_inner := (ri_inner rec)\<lparr>mx_held := False, mx_poisoned := True\<rparr>\<rparr>"

abbreviation new_live :: "hash_function \<Rightarrow> live_instance" where
  "new_live sha256 \<equiv> live_new sha256 instance_background"

abbreviation new_recovery :: "hash_function \<Rightarrow> recovery_instance" where
  "new_recovery sha256 \<equiv> recovery_new sha256 instance_background"

abbreviation genesis_anchor :: "hash_function \<Rightarrow> chain_n" where
  "genesis_anchor sha256 \<equiv>
     \<lparr>cn_version = VERSION, cn_sequence = 0, cn_head = genesis sha256 instance_background\<rparr>"

abbreviation oversized :: string where
  "oversized \<equiv> replicate (MAX_OPAQUE_UTF8_BYTES + 1) (CHR ''x'')"

definition insert_oversized :: "instance_state \<Rightarrow> instance_state" where
  "insert_oversized st =
     st\<lparr>is_kernel := (is_kernel st)\<lparr>tool_registered := vs_insert (tool_registered (is_kernel st)) (ToolId oversized)\<rparr>\<rparr>"

subsection \<open>Live instances\<close>

definition test_new_instance_has_fixed_root_and_genesis_status :: "hash_function \<Rightarrow> bool" where
  "test_new_instance_has_fixed_root_and_genesis_status sha256 \<longleftrightarrow>
     (let expected_head = genesis sha256 instance_background; live = new_live sha256
      in (root_agent (li_background live), live_status live) =
         (root_id, Inr \<lparr>cn_version = VERSION, cn_sequence = 0, cn_head = expected_head\<rparr>))"

definition test_accepted_command_returns_complete_envelope_and_advances_once :: "hash_function \<Rightarrow> bool" where
  "test_accepted_command_returns_complete_envelope_and_advances_once sha256 \<longleftrightarrow>
     (let previous = genesis sha256 instance_background;
          command = register_tool_n ''tool'';
          action = NActRegisterTool ''tool'';
          digest = link sha256 previous 1 command action;
          (applied, live) = live_apply sha256 (new_live sha256) command
      in (applied, live_status live) =
         (Inr \<lparr>en_version = VERSION, en_sequence = 1, en_previous_digest = previous, en_digest = digest,
               en_command = command, en_action = action\<rparr>,
          Inr \<lparr>cn_version = VERSION, cn_sequence = 1, cn_head = digest\<rparr>))"

definition test_kernel_refusal_leaves_state_sequence_and_head_unchanged :: "hash_function \<Rightarrow> bool" where
  "test_kernel_refusal_leaves_state_sequence_and_head_unchanged sha256 \<longleftrightarrow>
     unwrap_call (live_apply sha256 (new_live sha256) (register_tool_n ''tool'')) (\<lambda>_ live.
       let before = live_triple live; (applied, live') = live_apply sha256 live (register_tool_n ''tool'')
       in before \<noteq> None \<and> (applied, live_triple live') = (Inl (NKernel NToolAlreadyRegistered), before))"

definition test_capacity_refusal_leaves_state_sequence_and_head_unchanged :: "hash_function \<Rightarrow> bool" where
  "test_capacity_refusal_leaves_state_sequence_and_head_unchanged sha256 \<longleftrightarrow>
     (let live = new_live sha256; before = live_triple live;
          (applied, live') = live_apply sha256 live (register_tool_n oversized)
      in before \<noteq> None \<and> (applied, live_triple live') = (Inl CapacityExceeded, before))"

definition test_sequence_refusal_leaves_state_sequence_and_head_unchanged :: "hash_function \<Rightarrow> bool" where
  "test_sequence_refusal_leaves_state_sequence_and_head_unchanged sha256 \<longleftrightarrow>
     (let live = edit_live (\<lambda>st. st\<lparr>is_sequence := of_nat MAX_ACCEPTED_SEQUENCE\<rparr>) (new_live sha256);
          before = live_triple live;
          (applied, live') = live_apply sha256 live (register_tool_n ''tool'')
      in before \<noteq> None \<and> (applied, live_triple live') = (Inl SequenceExhausted, before))"

definition test_state_observation_is_read_only :: "hash_function \<Rightarrow> bool" where
  "test_state_observation_is_read_only sha256 \<longleftrightarrow>
     (let live = new_live sha256
      in case live_triple live of
           Some before \<Rightarrow> live_state live = Inr (state_from_kernel (is_kernel before)) \<and> live_triple live = Some before
         | None \<Rightarrow> False)"

definition test_state_observation_rejects_capacity_excess_without_mutation :: "hash_function \<Rightarrow> bool" where
  "test_state_observation_rejects_capacity_excess_without_mutation sha256 \<longleftrightarrow>
     (let live = edit_live insert_oversized (new_live sha256)
      in case live_triple live of
           Some before \<Rightarrow> live_state live = Inl CapacityExceeded \<and> live_triple live = Some before
         | None \<Rightarrow> False)"

definition test_contention_returns_busy_without_waiting :: "hash_function \<Rightarrow> bool" where
  "test_contention_returns_busy_without_waiting sha256 \<longleftrightarrow>
     (let live = hold (new_live sha256)
      in (fst (live_apply sha256 live (register_tool_n ''tool'')), live_status live, live_state live) =
         (Inl InstanceBusy, Inl InstanceBusy, Inl InstanceBusy))"

definition test_poisoned_resource_returns_typed_error :: "hash_function \<Rightarrow> bool" where
  "test_poisoned_resource_returns_typed_error sha256 \<longleftrightarrow>
     (let live = poison (hold (new_live sha256))
      in (fst (live_apply sha256 live (register_tool_n ''tool'')), live_status live, live_state live) =
         (Inl ResourcePoisoned, Inl ResourcePoisoned, Inl ResourcePoisoned))"

definition test_empty_genesis_finalizes_into_a_live_instance :: "hash_function \<Rightarrow> bool" where
  "test_empty_genesis_finalizes_into_a_live_instance sha256 \<longleftrightarrow>
     (let expected = genesis_anchor sha256
      in and_then (fst (recovery_finalize (new_recovery sha256) expected)) live_status = Inr expected)"

definition test_successful_multi_link_replay_can_continue_live :: "hash_function \<Rightarrow> bool" where
  "test_successful_multi_link_replay_can_continue_live sha256 \<longleftrightarrow>
     unwrap_call (live_apply sha256 (new_live sha256) (register_tool_n ''tool'')) (\<lambda>first live.
     unwrap_call (live_apply sha256 live (CmdDelegate ''root'' ''agent'')) (\<lambda>second live.
     case live_status live of
       Inl e \<Rightarrow> False
     | Inr expected \<Rightarrow>
         unwrap_call (recovery_replay sha256 (new_recovery sha256) first) (\<lambda>_ rec.
         unwrap_call (recovery_replay sha256 rec second) (\<lambda>_ rec.
         unwrap_call (recovery_finalize rec expected) (\<lambda>recovered rec.
           let (applied, recovered) = live_apply sha256 recovered (register_tool_n ''next'');
               (applied', live) = live_apply sha256 live (register_tool_n ''next'')
           in applied = applied' \<and> live_triple live \<noteq> None \<and> live_triple recovered = live_triple live)))))"

subsection \<open>Replay\<close>

text \<open>\<open>LiveInstance::new(background()).apply(register_tool(t)).unwrap()\<close>, and the rest of the test.\<close>

abbreviation recorded :: "hash_function \<Rightarrow> string \<Rightarrow> (envelope_n \<Rightarrow> live_instance \<Rightarrow> bool) \<Rightarrow> bool" where
  "recorded sha256 tool rest \<equiv> unwrap_call (live_apply sha256 (new_live sha256) (register_tool_n tool)) rest"

definition test_wrong_background_rejects_first_predecessor_without_mutation :: "hash_function \<Rightarrow> bool" where
  "test_wrong_background_rejects_first_predecessor_without_mutation sha256 \<longleftrightarrow>
     recorded sha256 ''tool'' (\<lambda>envelope _.
       assert_replay_failure sha256 (recovery_new sha256 (instance_background\<lparr>bn_mode := MonitorN\<rparr>)) envelope
         PreviousDigestMismatch)"

definition test_wrong_envelope_version_does_not_commit :: "hash_function \<Rightarrow> bool" where
  "test_wrong_envelope_version_does_not_commit sha256 \<longleftrightarrow>
     recorded sha256 ''tool'' (\<lambda>envelope _.
       assert_replay_failure sha256 (new_recovery sha256) (envelope\<lparr>en_version := VERSION + 1\<rparr>) InvalidVersion)"

definition test_sequence_gap_does_not_commit :: "hash_function \<Rightarrow> bool" where
  "test_sequence_gap_does_not_commit sha256 \<longleftrightarrow>
     recorded sha256 ''tool'' (\<lambda>envelope _.
       assert_replay_failure sha256 (new_recovery sha256) (envelope\<lparr>en_sequence := en_sequence envelope + 1\<rparr>)
         SequenceMismatch)"

definition test_wrong_predecessor_does_not_commit :: "hash_function \<Rightarrow> bool" where
  "test_wrong_predecessor_does_not_commit sha256 \<longleftrightarrow>
     recorded sha256 ''tool'' (\<lambda>envelope _.
       assert_replay_failure sha256 (new_recovery sha256)
         (envelope\<lparr>en_previous_digest := DigestN (replicate 32 7)\<rparr>) PreviousDigestMismatch)"

definition test_wrong_semantic_action_does_not_commit :: "hash_function \<Rightarrow> bool" where
  "test_wrong_semantic_action_does_not_commit sha256 \<longleftrightarrow>
     recorded sha256 ''tool'' (\<lambda>envelope _.
       assert_replay_failure sha256 (new_recovery sha256) (envelope\<lparr>en_action := NActRegisterTool ''forged''\<rparr>)
         ActionMismatch)"

definition test_wrong_digest_does_not_commit :: "hash_function \<Rightarrow> bool" where
  "test_wrong_digest_does_not_commit sha256 \<longleftrightarrow>
     recorded sha256 ''tool'' (\<lambda>envelope _.
       assert_replay_failure sha256 (new_recovery sha256) (envelope\<lparr>en_digest := DigestN (replicate 32 9)\<rparr>)
         DigestMismatch)"

definition test_duplicate_link_is_rejected_by_prefix_sequence_without_mutation :: "hash_function \<Rightarrow> bool" where
  "test_duplicate_link_is_rejected_by_prefix_sequence_without_mutation sha256 \<longleftrightarrow>
     recorded sha256 ''tool'' (\<lambda>envelope _.
     unwrap_call (recovery_replay sha256 (new_recovery sha256) envelope) (\<lambda>_ rec.
       assert_replay_failure sha256 rec envelope SequenceMismatch))"

definition test_reordered_links_are_rejected_by_prefix_sequence_without_mutation :: "hash_function \<Rightarrow> bool" where
  "test_reordered_links_are_rejected_by_prefix_sequence_without_mutation sha256 \<longleftrightarrow>
     recorded sha256 ''first'' (\<lambda>first live.
     unwrap_call (live_apply sha256 live (register_tool_n ''second'')) (\<lambda>second live.
       assert_replay_failure sha256 (new_recovery sha256) second SequenceMismatch))"

definition test_deleted_link_is_rejected_as_a_sequence_gap_without_mutation :: "hash_function \<Rightarrow> bool" where
  "test_deleted_link_is_rejected_as_a_sequence_gap_without_mutation sha256 \<longleftrightarrow>
     recorded sha256 ''first'' (\<lambda>first live.
     unwrap_call (live_apply sha256 live (register_tool_n ''second'')) (\<lambda>second live.
     unwrap_call (live_apply sha256 live (register_tool_n ''third'')) (\<lambda>third live.
     unwrap_call (recovery_replay sha256 (new_recovery sha256) first) (\<lambda>_ rec.
       assert_replay_failure sha256 rec third SequenceMismatch))))"

definition test_inserted_link_makes_the_recorded_prefix_fail_without_mutation :: "hash_function \<Rightarrow> bool" where
  "test_inserted_link_makes_the_recorded_prefix_fail_without_mutation sha256 \<longleftrightarrow>
     recorded sha256 ''original'' (\<lambda>original _.
     recorded sha256 ''inserted'' (\<lambda>inserted _.
     unwrap_call (recovery_replay sha256 (new_recovery sha256) inserted) (\<lambda>_ rec.
       assert_replay_failure sha256 rec original SequenceMismatch)))"

definition next_envelope :: "hash_function \<Rightarrow> instance_state \<Rightarrow> u64 \<Rightarrow> string \<Rightarrow> envelope_n" where
  "next_envelope sha256 current sequence tool =
     (let command = register_tool_n tool; action = NActRegisterTool tool
      in \<lparr>en_version = VERSION, en_sequence = sequence, en_previous_digest = is_head current,
          en_digest = link sha256 (is_head current) sequence command action, en_command = command,
          en_action = action\<rparr>)"

definition test_replay_kernel_refusal_returns_closed_cause_without_mutation :: "hash_function \<Rightarrow> bool" where
  "test_replay_kernel_refusal_returns_closed_cause_without_mutation sha256 \<longleftrightarrow>
     recorded sha256 ''tool'' (\<lambda>first _.
     unwrap_call (recovery_replay sha256 (new_recovery sha256) first) (\<lambda>_ rec.
     case recovery_triple rec of
       Some (Some current) \<Rightarrow>
         assert_replay_failure sha256 rec (next_envelope sha256 current (is_sequence current + 1) ''tool'')
           (ReplayRefused NToolAlreadyRegistered)
     | _ \<Rightarrow> False))"

definition test_replay_state_capacity_refusal_does_not_commit :: "hash_function \<Rightarrow> bool" where
  "test_replay_state_capacity_refusal_does_not_commit sha256 \<longleftrightarrow>
     (let rec = edit_recovery insert_oversized (new_recovery sha256)
      in recorded sha256 ''tool'' (\<lambda>envelope _. assert_replay_failure sha256 rec envelope CapacityExceeded))"

definition test_replay_command_capacity_refusal_does_not_commit :: "hash_function \<Rightarrow> bool" where
  "test_replay_command_capacity_refusal_does_not_commit sha256 \<longleftrightarrow>
     (let rec = new_recovery sha256
      in case recovery_triple rec of
           Some (Some current) \<Rightarrow>
             assert_replay_failure sha256 rec (next_envelope sha256 current 1 oversized) CapacityExceeded
         | _ \<Rightarrow> False)"

definition test_replay_sequence_limit_refusal_does_not_commit :: "hash_function \<Rightarrow> bool" where
  "test_replay_sequence_limit_refusal_does_not_commit sha256 \<longleftrightarrow>
     (let rec = edit_recovery (\<lambda>st. st\<lparr>is_sequence := of_nat MAX_ACCEPTED_SEQUENCE\<rparr>) (new_recovery sha256)
      in recorded sha256 ''tool'' (\<lambda>envelope _. assert_replay_failure sha256 rec envelope SequenceExhausted))"

subsection \<open>Finalization\<close>

text \<open>A refused anchor, then the right one.\<close>

definition finalizes_after_refusal :: "hash_function \<Rightarrow> chain_n \<Rightarrow> error_n \<Rightarrow> bool" where
  "finalizes_after_refusal sha256 bad expected \<longleftrightarrow>
     (case recovery_finalize (new_recovery sha256) bad of
        (Inr live, rec) \<Rightarrow> False
      | (Inl e, rec) \<Rightarrow> e = expected \<and>
          (case and_then (fst (recovery_finalize rec (genesis_anchor sha256))) live_status of
             Inr status \<Rightarrow> cn_sequence status = 0
           | Inl e \<Rightarrow> False))"

definition test_final_version_mismatch_leaves_recovery_usable :: "hash_function \<Rightarrow> bool" where
  "test_final_version_mismatch_leaves_recovery_usable sha256 \<longleftrightarrow>
     finalizes_after_refusal sha256 ((genesis_anchor sha256)\<lparr>cn_version := VERSION + 1\<rparr>) InvalidVersion"

definition test_final_sequence_mismatch_leaves_recovery_usable :: "hash_function \<Rightarrow> bool" where
  "test_final_sequence_mismatch_leaves_recovery_usable sha256 \<longleftrightarrow>
     finalizes_after_refusal sha256 ((genesis_anchor sha256)\<lparr>cn_sequence := 1\<rparr>) FinalAnchorMismatch"

definition test_final_head_mismatch_leaves_recovery_usable :: "hash_function \<Rightarrow> bool" where
  "test_final_head_mismatch_leaves_recovery_usable sha256 \<longleftrightarrow>
     finalizes_after_refusal sha256 ((genesis_anchor sha256)\<lparr>cn_head := DigestN (replicate 32 4)\<rparr>) FinalAnchorMismatch"

definition test_successful_finalization_consumes_recovery_exactly_once :: "hash_function \<Rightarrow> bool" where
  "test_successful_finalization_consumes_recovery_exactly_once sha256 \<longleftrightarrow>
     unwrap_call (recovery_finalize (new_recovery sha256) (genesis_anchor sha256)) (\<lambda>_ rec.
       case recovery_finalize rec (genesis_anchor sha256) of
         (Inl e, _) \<Rightarrow> e = RecoveryConsumed
       | (Inr live, _) \<Rightarrow> False)"

definition test_replay_after_finalization_returns_recovery_consumed :: "hash_function \<Rightarrow> bool" where
  "test_replay_after_finalization_returns_recovery_consumed sha256 \<longleftrightarrow>
     unwrap_call (recovery_finalize (new_recovery sha256) (genesis_anchor sha256)) (\<lambda>_ rec.
     recorded sha256 ''tool'' (\<lambda>envelope _. assert_replay_failure sha256 rec envelope RecoveryConsumed))"

definition test_recovery_operations_return_busy_without_waiting_or_mutating :: "hash_function \<Rightarrow> bool" where
  "test_recovery_operations_return_busy_without_waiting_or_mutating sha256 \<longleftrightarrow>
     recorded sha256 ''tool'' (\<lambda>envelope _.
       let held = hold_recovery (new_recovery sha256);
           (replayed, rec) = recovery_replay sha256 held envelope;
           (finalized, rec') = recovery_finalize rec (genesis_anchor sha256)
       in replayed = Inl InstanceBusy \<and>
          (case finalized of Inl e \<Rightarrow> e = InstanceBusy | Inr live \<Rightarrow> False) \<and>
          mx_data (ri_inner rec') = mx_data (ri_inner held))"

definition test_poisoned_recovery_operations_return_typed_error :: "hash_function \<Rightarrow> bool" where
  "test_poisoned_recovery_operations_return_typed_error sha256 \<longleftrightarrow>
     (let rec = poison_recovery (hold_recovery (new_recovery sha256))
      in recorded sha256 ''tool'' (\<lambda>envelope _.
        fst (recovery_replay sha256 rec envelope) = Inl ResourcePoisoned \<and>
        (case fst (recovery_finalize rec (genesis_anchor sha256)) of Inl e \<Rightarrow> e = ResourcePoisoned | Inr live \<Rightarrow> False)))"

subsection \<open>The calls these tests make\<close>

text \<open>What the preflight and the kernel answer, computed once; the hash stays abstract.\<close>

definition delegated :: "string list \<Rightarrow> kernel_state" where
  "delegated names = (registered names)
     \<lparr>agent_active := VecSet [root_id, AgentId ''agent''], agent_parent := VecMap [(AgentId ''agent'', root_id)]\<rparr>"

lemma accepted_preflights:
  "preflight initial_state 0 (CmdRegisterTool ''tool'') = Inr ()"
  "preflight initial_state 0 (CmdRegisterTool ''first'') = Inr ()"
  "preflight initial_state 0 (CmdRegisterTool ''original'') = Inr ()"
  "preflight initial_state 0 (CmdRegisterTool ''inserted'') = Inr ()"
  "preflight (registered [''tool'']) 1 (CmdRegisterTool ''tool'') = Inr ()"
  "preflight (registered [''tool'']) 1 (CmdDelegate ''root'' ''agent'') = Inr ()"
  "preflight (registered [''first'']) 1 (CmdRegisterTool ''second'') = Inr ()"
  "preflight (registered [''first'', ''second'']) 2 (CmdRegisterTool ''third'') = Inr ()"
  "preflight (delegated [''tool'']) 2 (CmdRegisterTool ''next'') = Inr ()"
  by (simp_all add: evaluate_limits delegated_def)

lemma link_checks:
  "check_recovery_link initial_state 0 = Inr ()"
  "check_recovery_link initial_state 100000 = Inl SequenceExhausted"
  "check_recovery_link (registered [''tool'']) 1 = Inr ()"
  "check_recovery_link (registered [''first'']) 1 = Inr ()"
  "check_recovery_link (registered [''inserted'']) 1 = Inr ()"
  "check_state initial_state = Inr ()"
  by (simp_all add: evaluate_limits delegated_def)

lemma refused_preflights:
  "preflight initial_state 100000 c = Inl SequenceExhausted"
  "preflight initial_state 0 (CmdRegisterTool (replicate (Suc MAX_OPAQUE_UTF8_BYTES) (CHR ''x''))) = Inl CapacityExceeded"
  by (simp_all add: evaluate_limits delegated_def del: replicate.simps)

lemma oversized_state:
  "is_kernel st = initial_state \<Longrightarrow> check_state (is_kernel (insert_oversized st)) = Inl CapacityExceeded"
  by (simp add: insert_oversized_def evaluate_limits vs_insert_def vs_contains_iff del: replicate.simps)

lemma oversized_link:
  "is_kernel st = initial_state \<Longrightarrow>
     check_recovery_link (is_kernel (insert_oversized st)) n = Inl CapacityExceeded"
  by (simp add: check_recovery_link_def oversized_state)

lemma kernel_answers:
  "command_apply (CmdRegisterTool ''tool'') initial_state bg = Inr (registered [''tool''], NActRegisterTool ''tool'')"
  "command_apply (CmdRegisterTool ''first'') initial_state bg = Inr (registered [''first''], NActRegisterTool ''first'')"
  "command_apply (CmdRegisterTool ''original'') initial_state bg =
     Inr (registered [''original''], NActRegisterTool ''original'')"
  "command_apply (CmdRegisterTool ''inserted'') initial_state bg =
     Inr (registered [''inserted''], NActRegisterTool ''inserted'')"
  "command_apply (CmdRegisterTool ''tool'') (registered [''tool'']) bg = Inl NToolAlreadyRegistered"
  "command_apply (CmdDelegate ''root'' ''agent'') (registered [''tool'']) (background_into_kernel instance_background) =
     Inr (delegated [''tool''], NActDelegate ''root'' ''agent'')"
  "command_apply (CmdRegisterTool ''second'') (registered [''first'']) bg =
     Inr (registered [''first'', ''second''], NActRegisterTool ''second'')"
  "command_apply (CmdRegisterTool ''third'') (registered [''first'', ''second'']) bg =
     Inr (registered [''first'', ''second'', ''third''], NActRegisterTool ''third'')"
  "command_apply (CmdRegisterTool ''next'') (delegated [''tool'']) bg =
     Inr (delegated [''tool'', ''next''], NActRegisterTool ''next'')"
  by code_simp+

subsection \<open>The tests pass\<close>

text \<open>
  What the tests of \<open>instance.rs\<close> need of SHA-256: the two genesis digests differ and three digests
  are not the constant arrays that stand for a wrong one.
\<close>

definition instance_test_hash :: "hash_function \<Rightarrow> bool" where
  "instance_test_hash sha256 \<longleftrightarrow>
     sha256 (genesis_transcript instance_background) \<noteq>
       sha256 (genesis_transcript (instance_background\<lparr>bn_mode := MonitorN\<rparr>)) \<and>
     replicate 32 7 \<noteq> sha256 (genesis_transcript instance_background) \<and>
     replicate 32 4 \<noteq> sha256 (genesis_transcript instance_background) \<and>
     sha256 (link_transcript (genesis sha256 instance_background) 1 (CmdRegisterTool ''tool'') (NActRegisterTool ''tool'')) \<noteq>
       replicate 32 9"

lemma fixed_root: "root_agent (background_into_kernel instance_background) = root_id"
  by code_simp

lemmas run_calls = unwrap_call_def register_tool_n_def live_triple_def recovery_triple_def
  live_new_def live_from_state_def live_status_def live_state_def live_apply_def instance_initial_def recovery_new_def
  recovery_slot_def recovery_replay_def replay_check_def recovery_finalize_def apply_without_commit_def
  mutex_new_def mutex_try_lock_def locked_def checked_next_def Let_def
  accepted_preflights refused_preflights link_checks kernel_answers

lemmas run_edits = edit_live_def edit_recovery_def hold_def poison_def hold_recovery_def poison_recovery_def
  assert_replay_failure_def MAX_ACCEPTED_SEQUENCE_def VERSION_def

lemma passes_new_instance_has_fixed_root_and_genesis_status: "test_new_instance_has_fixed_root_and_genesis_status sha256"
  by (simp add: test_new_instance_has_fixed_root_and_genesis_status_def run_calls run_edits fixed_root del: replicate.simps)

lemma passes_accepted_command_returns_complete_envelope_and_advances_once: "test_accepted_command_returns_complete_envelope_and_advances_once sha256"
  by (simp add: test_accepted_command_returns_complete_envelope_and_advances_once_def run_calls run_edits del: replicate.simps)

lemma passes_kernel_refusal_leaves_state_sequence_and_head_unchanged: "test_kernel_refusal_leaves_state_sequence_and_head_unchanged sha256"
  by (simp add: test_kernel_refusal_leaves_state_sequence_and_head_unchanged_def run_calls run_edits next_envelope_def del: replicate.simps)

lemma passes_capacity_refusal_leaves_state_sequence_and_head_unchanged: "test_capacity_refusal_leaves_state_sequence_and_head_unchanged sha256"
  by (simp add: test_capacity_refusal_leaves_state_sequence_and_head_unchanged_def run_calls run_edits del: replicate.simps)

lemma passes_sequence_refusal_leaves_state_sequence_and_head_unchanged: "test_sequence_refusal_leaves_state_sequence_and_head_unchanged sha256"
  by (simp add: test_sequence_refusal_leaves_state_sequence_and_head_unchanged_def run_calls run_edits del: replicate.simps)

lemma passes_state_observation_is_read_only: "test_state_observation_is_read_only sha256"
  by (simp add: test_state_observation_is_read_only_def run_calls run_edits del: replicate.simps)

lemma passes_state_observation_rejects_capacity_excess_without_mutation: "test_state_observation_rejects_capacity_excess_without_mutation sha256"
  by (simp add: test_state_observation_rejects_capacity_excess_without_mutation_def run_calls run_edits oversized_state oversized_link del: replicate.simps)

lemma passes_contention_returns_busy_without_waiting: "test_contention_returns_busy_without_waiting sha256"
  by (simp add: test_contention_returns_busy_without_waiting_def run_calls run_edits del: replicate.simps)

lemma passes_poisoned_resource_returns_typed_error: "test_poisoned_resource_returns_typed_error sha256"
  by (simp add: test_poisoned_resource_returns_typed_error_def run_calls run_edits del: replicate.simps)

lemma passes_empty_genesis_finalizes_into_a_live_instance: "test_empty_genesis_finalizes_into_a_live_instance sha256"
  by (simp add: test_empty_genesis_finalizes_into_a_live_instance_def run_calls run_edits del: replicate.simps)

lemma passes_successful_multi_link_replay_can_continue_live: "test_successful_multi_link_replay_can_continue_live sha256"
  by (simp add: test_successful_multi_link_replay_can_continue_live_def run_calls run_edits del: replicate.simps)

lemma passes_wrong_background_rejects_first_predecessor_without_mutation: "instance_test_hash sha256 \<Longrightarrow> test_wrong_background_rejects_first_predecessor_without_mutation sha256"
  by (simp add: test_wrong_background_rejects_first_predecessor_without_mutation_def run_calls run_edits instance_test_hash_def genesis_def link_def del: replicate.simps)

lemma passes_wrong_envelope_version_does_not_commit: "test_wrong_envelope_version_does_not_commit sha256"
  by (simp add: test_wrong_envelope_version_does_not_commit_def run_calls run_edits del: replicate.simps)

lemma passes_sequence_gap_does_not_commit: "test_sequence_gap_does_not_commit sha256"
  by (simp add: test_sequence_gap_does_not_commit_def run_calls run_edits del: replicate.simps)

lemma passes_wrong_predecessor_does_not_commit: "instance_test_hash sha256 \<Longrightarrow> test_wrong_predecessor_does_not_commit sha256"
  by (simp add: test_wrong_predecessor_does_not_commit_def run_calls run_edits instance_test_hash_def genesis_def link_def del: replicate.simps)

lemma passes_wrong_semantic_action_does_not_commit: "test_wrong_semantic_action_does_not_commit sha256"
  by (simp add: test_wrong_semantic_action_does_not_commit_def run_calls run_edits del: replicate.simps)

lemma passes_wrong_digest_does_not_commit: "instance_test_hash sha256 \<Longrightarrow> test_wrong_digest_does_not_commit sha256"
  by (simp add: test_wrong_digest_does_not_commit_def run_calls run_edits instance_test_hash_def genesis_def link_def del: replicate.simps)

lemma passes_duplicate_link_is_rejected_by_prefix_sequence_without_mutation: "test_duplicate_link_is_rejected_by_prefix_sequence_without_mutation sha256"
  by (simp add: test_duplicate_link_is_rejected_by_prefix_sequence_without_mutation_def run_calls run_edits del: replicate.simps)

lemma passes_reordered_links_are_rejected_by_prefix_sequence_without_mutation: "test_reordered_links_are_rejected_by_prefix_sequence_without_mutation sha256"
  by (simp add: test_reordered_links_are_rejected_by_prefix_sequence_without_mutation_def run_calls run_edits del: replicate.simps)

lemma passes_deleted_link_is_rejected_as_a_sequence_gap_without_mutation: "test_deleted_link_is_rejected_as_a_sequence_gap_without_mutation sha256"
  by (simp add: test_deleted_link_is_rejected_as_a_sequence_gap_without_mutation_def run_calls run_edits del: replicate.simps)

lemma passes_inserted_link_makes_the_recorded_prefix_fail_without_mutation: "test_inserted_link_makes_the_recorded_prefix_fail_without_mutation sha256"
  by (simp add: test_inserted_link_makes_the_recorded_prefix_fail_without_mutation_def run_calls run_edits del: replicate.simps)

lemma passes_replay_kernel_refusal_returns_closed_cause_without_mutation: "test_replay_kernel_refusal_returns_closed_cause_without_mutation sha256"
  by (simp add: test_replay_kernel_refusal_returns_closed_cause_without_mutation_def run_calls run_edits next_envelope_def del: replicate.simps)

lemma passes_replay_state_capacity_refusal_does_not_commit: "test_replay_state_capacity_refusal_does_not_commit sha256"
  by (simp add: test_replay_state_capacity_refusal_does_not_commit_def run_calls run_edits oversized_state oversized_link del: replicate.simps)

lemma passes_replay_command_capacity_refusal_does_not_commit: "test_replay_command_capacity_refusal_does_not_commit sha256"
  by (simp add: test_replay_command_capacity_refusal_does_not_commit_def run_calls run_edits next_envelope_def del: replicate.simps)

lemma passes_replay_sequence_limit_refusal_does_not_commit: "test_replay_sequence_limit_refusal_does_not_commit sha256"
  by (simp add: test_replay_sequence_limit_refusal_does_not_commit_def run_calls run_edits del: replicate.simps)

lemma passes_final_version_mismatch_leaves_recovery_usable: "test_final_version_mismatch_leaves_recovery_usable sha256"
  by (simp add: test_final_version_mismatch_leaves_recovery_usable_def run_calls run_edits finalizes_after_refusal_def del: replicate.simps)

lemma passes_final_sequence_mismatch_leaves_recovery_usable: "test_final_sequence_mismatch_leaves_recovery_usable sha256"
  by (simp add: test_final_sequence_mismatch_leaves_recovery_usable_def run_calls run_edits finalizes_after_refusal_def del: replicate.simps)

lemma passes_final_head_mismatch_leaves_recovery_usable: "instance_test_hash sha256 \<Longrightarrow> test_final_head_mismatch_leaves_recovery_usable sha256"
  by (simp add: test_final_head_mismatch_leaves_recovery_usable_def run_calls run_edits finalizes_after_refusal_def instance_test_hash_def genesis_def link_def del: replicate.simps)

lemma passes_successful_finalization_consumes_recovery_exactly_once: "test_successful_finalization_consumes_recovery_exactly_once sha256"
  by (simp add: test_successful_finalization_consumes_recovery_exactly_once_def run_calls run_edits del: replicate.simps)

lemma passes_replay_after_finalization_returns_recovery_consumed: "test_replay_after_finalization_returns_recovery_consumed sha256"
  by (simp add: test_replay_after_finalization_returns_recovery_consumed_def run_calls run_edits del: replicate.simps)

lemma passes_recovery_operations_return_busy_without_waiting_or_mutating: "test_recovery_operations_return_busy_without_waiting_or_mutating sha256"
  by (simp add: test_recovery_operations_return_busy_without_waiting_or_mutating_def run_calls run_edits del: replicate.simps)

lemma passes_poisoned_recovery_operations_return_typed_error: "test_poisoned_recovery_operations_return_typed_error sha256"
  by (simp add: test_poisoned_recovery_operations_return_typed_error_def run_calls run_edits del: replicate.simps)

definition instance_unit_tests :: "hash_function \<Rightarrow> bool list" where
  "instance_unit_tests sha256 =
     [test_new_instance_has_fixed_root_and_genesis_status sha256,
      test_accepted_command_returns_complete_envelope_and_advances_once sha256,
      test_kernel_refusal_leaves_state_sequence_and_head_unchanged sha256,
      test_capacity_refusal_leaves_state_sequence_and_head_unchanged sha256,
      test_sequence_refusal_leaves_state_sequence_and_head_unchanged sha256,
      test_state_observation_is_read_only sha256,
      test_state_observation_rejects_capacity_excess_without_mutation sha256,
      test_contention_returns_busy_without_waiting sha256,
      test_poisoned_resource_returns_typed_error sha256,
      test_empty_genesis_finalizes_into_a_live_instance sha256,
      test_successful_multi_link_replay_can_continue_live sha256,
      test_wrong_background_rejects_first_predecessor_without_mutation sha256,
      test_wrong_envelope_version_does_not_commit sha256,
      test_sequence_gap_does_not_commit sha256,
      test_wrong_predecessor_does_not_commit sha256,
      test_wrong_semantic_action_does_not_commit sha256,
      test_wrong_digest_does_not_commit sha256,
      test_duplicate_link_is_rejected_by_prefix_sequence_without_mutation sha256,
      test_reordered_links_are_rejected_by_prefix_sequence_without_mutation sha256,
      test_deleted_link_is_rejected_as_a_sequence_gap_without_mutation sha256,
      test_inserted_link_makes_the_recorded_prefix_fail_without_mutation sha256,
      test_replay_kernel_refusal_returns_closed_cause_without_mutation sha256,
      test_replay_state_capacity_refusal_does_not_commit sha256,
      test_replay_command_capacity_refusal_does_not_commit sha256,
      test_replay_sequence_limit_refusal_does_not_commit sha256,
      test_final_version_mismatch_leaves_recovery_usable sha256,
      test_final_sequence_mismatch_leaves_recovery_usable sha256,
      test_final_head_mismatch_leaves_recovery_usable sha256,
      test_successful_finalization_consumes_recovery_exactly_once sha256,
      test_replay_after_finalization_returns_recovery_consumed sha256,
      test_recovery_operations_return_busy_without_waiting_or_mutating sha256,
      test_poisoned_recovery_operations_return_typed_error sha256]"

lemma instance_unit_tests_pass:
  "instance_test_hash sha256 \<Longrightarrow> list_all (\<lambda>b. b) (instance_unit_tests sha256)"
  by (simp add: instance_unit_tests_def passes_new_instance_has_fixed_root_and_genesis_status
      passes_accepted_command_returns_complete_envelope_and_advances_once
      passes_kernel_refusal_leaves_state_sequence_and_head_unchanged
      passes_capacity_refusal_leaves_state_sequence_and_head_unchanged
      passes_sequence_refusal_leaves_state_sequence_and_head_unchanged
      passes_state_observation_is_read_only
      passes_state_observation_rejects_capacity_excess_without_mutation
      passes_contention_returns_busy_without_waiting
      passes_poisoned_resource_returns_typed_error
      passes_empty_genesis_finalizes_into_a_live_instance
      passes_successful_multi_link_replay_can_continue_live
      passes_wrong_background_rejects_first_predecessor_without_mutation
      passes_wrong_envelope_version_does_not_commit
      passes_sequence_gap_does_not_commit
      passes_wrong_predecessor_does_not_commit
      passes_wrong_semantic_action_does_not_commit
      passes_wrong_digest_does_not_commit
      passes_duplicate_link_is_rejected_by_prefix_sequence_without_mutation
      passes_reordered_links_are_rejected_by_prefix_sequence_without_mutation
      passes_deleted_link_is_rejected_as_a_sequence_gap_without_mutation
      passes_inserted_link_makes_the_recorded_prefix_fail_without_mutation
      passes_replay_kernel_refusal_returns_closed_cause_without_mutation
      passes_replay_state_capacity_refusal_does_not_commit
      passes_replay_command_capacity_refusal_does_not_commit
      passes_replay_sequence_limit_refusal_does_not_commit
      passes_final_version_mismatch_leaves_recovery_usable
      passes_final_sequence_mismatch_leaves_recovery_usable
      passes_final_head_mismatch_leaves_recovery_usable
      passes_successful_finalization_consumes_recovery_exactly_once
      passes_replay_after_finalization_returns_recovery_consumed
      passes_recovery_operations_return_busy_without_waiting_or_mutating
      passes_poisoned_recovery_operations_return_typed_error)

end
