(* ===== verification/Integration_Tests.thy ===== *)
theory Integration_Tests
  imports Kernel_Unit_Tests Command_Dispatch
begin

text \<open>
  The integration tests of both crates on the model: the safety scenarios of
  \<open>argus-kernel/tests/safety_properties.rs\<close> on the driver and the tests of
  \<open>argus_nif/tests/dispatcher.rs\<close> on \<^const>\<open>command_apply\<close>. The tests that run the corpus are in
  \<open>Kernel_Conformance\<close>; \<open>argus-kernel/tests/public_api.rs\<close> only asks that its terms compile.
\<close>

subsection \<open>Safety scenarios of the driver\<close>

text \<open>\<open>NullStore\<close> counts the events and forgets them.\<close>

definition null_store :: "u64 event_append" where
  "null_store counted event = (Inr (), counted + 1)"

definition safety_kernel :: "u64 kernel" where
  "safety_kernel = kernel_new (builder_build builder_new) allow_all 0"

definition safety_snapshot ::
  "conf_level \<Rightarrow> integ_level \<Rightarrow> conf_level \<Rightarrow> integ_level \<Rightarrow> egress_kind vec_set \<Rightarrow> action_policy_snapshot" where
  "safety_snapshot clearance floor oc oi egr =
     \<lparr>aps_tool = ToolId ''tool'', required_caps = vs_new, conf_clearance = clearance,
      integ_floor = floor, integ_inspect = floor, output_conf = oc, output_integ = oi,
      declared_egress = egr, policy_digest = PolicyDigest ''d''\<rparr>"

abbreviation "AGENT \<equiv> AgentId ''a''"

abbreviation "with_agent steps \<equiv>
  accepts (\<lambda>k. kernel_register_tool null_store k (ToolId ''tool'')) #
  accepts (\<lambda>k. kernel_delegate null_store k root_id AGENT) # steps"

abbreviation "absorbs l i \<equiv> accepts (\<lambda>k. kernel_ingest null_store k AGENT None l i)"

abbreviation "begins snap egr \<equiv>
  (\<lambda>k. kernel_begin_invocation null_store k AGENT INV (ChallengeId ''c'') snap egr (ContentHash ''ah''))"

definition test_ingested_untrusted_content_cannot_drive_a_trusted_floor_tool :: bool where
  "test_ingested_untrusted_content_cannot_drive_a_trusted_floor_tool \<longleftrightarrow> passes_from safety_kernel
     (with_agent
       [absorbs Public Untrusted,
        refuses IntegrityFloorDenied
          (begins (safety_snapshot Restricted Trusted Public Attested vs_new) vs_new),
        holds (\<lambda>s. \<not> vm_contains_key (pending s) INV)])"

definition test_sensitive_taint_cannot_egress_on_an_unceilinged_channel :: bool where
  "test_sensitive_taint_cannot_egress_on_an_unceilinged_channel \<longleftrightarrow> passes_from safety_kernel
     (with_agent
       [absorbs Sensitive Attested,
        refuses FlowGateBlocked
          (begins (safety_snapshot Restricted Untrusted Public Attested (vs_from_array [EgNetworkExternal]))
            (vs_from_array [EgNetworkExternal]))])"

definition test_clean_agent_admits_and_settles :: bool where
  "test_clean_agent_admits_and_settles \<longleftrightarrow> passes_from safety_kernel
     (with_agent
       [accepts (begins (safety_snapshot Restricted Untrusted Sensitive Attested vs_new) vs_new),
        holds (\<lambda>s. case vm_get_cloned (pending s) INV of
            Some rec \<Rightarrow> disposition_of rec = Permitted | None \<Rightarrow> False),
        accepts (\<lambda>k. kernel_settle_invocation null_store k INV Success None),
        holds (\<lambda>s. vm_get_cloned (pending s) INV = None),
        holds (\<lambda>s. vm_set_contains (taint_levels s) AGENT Sensitive)])"

subsection \<open>Dispatching wire commands\<close>

definition default_background :: background_theory where
  "default_background = builder_build builder_new"

text \<open>\<open>.expect(..)\<close>: the test goes on with the accepted value.\<close>

definition expect_state ::
  "kernel_error + kernel_state \<times> kernel_action \<Rightarrow> (kernel_state \<Rightarrow> bool) \<Rightarrow> bool" where
  "expect_state r rest = (case r of Inr (s, action) \<Rightarrow> rest s | Inl e \<Rightarrow> False)"

definition with_crossing_agents :: "(kernel_state \<Rightarrow> bool) \<Rightarrow> bool" where
  "with_crossing_agents rest =
     expect_state (delegate initial_state default_background root_id (AgentId ''source'')) (\<lambda>s.
     expect_state (delegate s default_background root_id (AgentId ''receiver'')) rest)"

definition cross_command :: "string \<Rightarrow> fallback_n \<Rightarrow> command_n" where
  "cross_command crossing fb = CmdCrossOutput
     \<lparr>xn_src = ''source'', xn_rcv = ''receiver'', xn_crossing = crossing, xn_output_hash = ''output'',
      xn_descriptor = ''descriptor'', xn_fallback = fb, xn_t_integ = TrustedN,
      xn_t_conf = Some InternalN, xn_assignment = ''assignment'', xn_evidence = None,
      xn_released_conf = InternalN, xn_released_integ = StandardN\<rparr>"

definition test_register_tool_dispatches_to_the_kernel_transition :: bool where
  "test_register_tool_dispatches_to_the_kernel_transition \<longleftrightarrow>
     (case command_apply (CmdRegisterTool ''tool:v1:hash'') initial_state default_background of
        Inr (s, action) \<Rightarrow>
          vs_contains (tool_registered s) (ToolId ''tool:v1:hash'') \<and> action = NActRegisterTool ''tool:v1:hash''
      | Inl e \<Rightarrow> False)"

definition test_duplicate_registration_returns_the_closed_kernel_error :: bool where
  "test_duplicate_registration_returns_the_closed_kernel_error \<longleftrightarrow>
     (let command = CmdRegisterTool ''tool:v1:hash'' in
      case command_apply command initial_state default_background of
        Inr (s, action) \<Rightarrow> command_apply command s default_background = Inl NToolAlreadyRegistered
      | Inl e \<Rightarrow> False)"

definition test_cross_output_without_a_grant_uses_the_declared_fail_branch :: bool where
  "test_cross_output_without_a_grant_uses_the_declared_fail_branch \<longleftrightarrow>
     with_crossing_agents (\<lambda>s.
       case command_apply (cross_command ''crossing'' FbFailN) s default_background of
         Inr (s, action) \<Rightarrow>
           vs_contains (consumed_crossings s) (CrossingId ''crossing'') \<and>
           action = NActCrossOutput ''source'' ''receiver'' ''crossing'' BrFailN PermittedN
       | Inl e \<Rightarrow> False)"

text \<open>\<open>matches!(action, ActionN::CrossOutput(CrossOutputActionN { branch, .. }))\<close>\<close>

fun crosses_by :: "cross_branch_n \<Rightarrow> kernel_error_n + kernel_state \<times> action_n \<Rightarrow> bool" where
  "crosses_by branch (Inr (s, NActCrossOutput src rcv x b d)) \<longleftrightarrow> b = branch"
| "crosses_by branch _ \<longleftrightarrow> False"

definition test_cross_output_with_an_exhausted_grant_uses_the_unendorsed_fallback :: bool where
  "test_cross_output_with_an_exhausted_grant_uses_the_unendorsed_fallback \<longleftrightarrow>
     with_crossing_agents (\<lambda>s.
     expect_state (grant_crossing s default_background root_id (AgentId ''receiver'')
       (AssignmentDigest ''assignment'') 0) (\<lambda>s.
     crosses_by UnendorsedN (command_apply (cross_command ''exhausted'' ReleaseUnendorsedN) s default_background)))"

definition test_cross_output_with_a_revoked_grant_uses_the_fail_fallback :: bool where
  "test_cross_output_with_a_revoked_grant_uses_the_fail_fallback \<longleftrightarrow>
     with_crossing_agents (\<lambda>s.
     expect_state (grant_crossing s default_background root_id (AgentId ''receiver'')
       (AssignmentDigest ''assignment'') 1) (\<lambda>s.
     expect_state (revoke s default_background root_id (AgentId ''receiver'')) (\<lambda>s.
     expect_state (delegate s default_background root_id (AgentId ''receiver'')) (\<lambda>s.
     crosses_by BrFailN (command_apply (cross_command ''revoked'' FbFailN) s default_background)))))"

definition integration_tests :: "bool list" where
  "integration_tests =
     [test_ingested_untrusted_content_cannot_drive_a_trusted_floor_tool,
      test_sensitive_taint_cannot_egress_on_an_unceilinged_channel,
      test_clean_agent_admits_and_settles,
      test_register_tool_dispatches_to_the_kernel_transition,
      test_duplicate_registration_returns_the_closed_kernel_error,
      test_cross_output_without_a_grant_uses_the_declared_fail_branch,
      test_cross_output_with_an_exhausted_grant_uses_the_unendorsed_fallback,
      test_cross_output_with_a_revoked_grant_uses_the_fail_fallback]"

lemma safety_scenarios_pass:
  test_ingested_untrusted_content_cannot_drive_a_trusted_floor_tool
  test_sensitive_taint_cannot_egress_on_an_unceilinged_channel
  test_clean_agent_admits_and_settles
  by code_simp+

lemma dispatcher_tests_pass:
  test_register_tool_dispatches_to_the_kernel_transition
  test_duplicate_registration_returns_the_closed_kernel_error
  test_cross_output_without_a_grant_uses_the_declared_fail_branch
  test_cross_output_with_an_exhausted_grant_uses_the_unendorsed_fallback
  test_cross_output_with_a_revoked_grant_uses_the_fail_fallback
  by code_simp+

lemma integration_tests_pass: "list_all (\<lambda>passed. passed) integration_tests"
  by (simp add: integration_tests_def safety_scenarios_pass dispatcher_tests_pass)

end
