(* ===== verification/Unit_Tests.thy ===== *)
theory Unit_Tests
  imports Core_Unit_Tests Instance_Unit_Tests Integration_Tests
begin

text \<open>
  The modelled unit and integration tests of both crates pass on the model. They validate the
  definitions on fixed inputs; the properties of the development are proved elsewhere. The tests of
  \<open>chain.rs\<close> and \<open>instance.rs\<close> hash; \<open>chain_test_hash\<close> and \<open>instance_test_hash\<close> state what they need of SHA-256.
\<close>

text \<open>
  Evidence that the definitions compute what the code computes: the model passes the unit tests of the
  kernel crate, the safety scenarios and the dispatcher tests beside the crates, and the unit tests of
  the native crate for any hash function that has the two pinned SHA-256 values and separates the
  inputs these tests compare.
\<close>

lemma unit_tests_pass:
  assumes "chain_test_hash sha256" "instance_test_hash sha256"
  shows "list_all (\<lambda>passed. passed)
    (kernel_unit_tests @ core_unit_tests @ integration_tests @ wire_unit_tests @ chain_unit_tests sha256 @
     instance_unit_tests sha256)"
  using kernel_unit_tests_pass core_unit_tests_pass wire_unit_tests_pass chain_unit_tests_pass [OF assms(1)]
    instance_unit_tests_pass [OF assms(2)] integration_tests_pass
  by simp

text \<open>A hash function with the pinned values that is the identity elsewhere.\<close>

definition pinned_genesis_digest :: "byte list" where
  "pinned_genesis_digest =
     [144, 156, 242, 180, 109, 111, 87, 37, 126, 86, 112, 72, 19, 146, 94, 101, 247, 161, 117,
      132, 196, 182, 130, 222, 221, 54, 13, 198, 147, 50, 21, 102]"

definition pinned_link_digest :: "byte list" where
  "pinned_link_digest =
     [211, 2, 2, 22, 199, 168, 245, 149, 23, 13, 51, 162, 137, 239, 220, 230, 30, 165, 5, 137,
      108, 136, 146, 241, 160, 212, 137, 129, 129, 70, 183, 81]"

definition pinned_hash :: hash_function where
  "pinned_hash bytes =
     (if bytes = genesis_transcript vector_background then pinned_genesis_digest
      else if bytes = link_transcript (DigestN (map (\<lambda>index. of_nat index) [0..<32])) 42
        (settlement_command ''inv'' AmbiguousN (Some (''res'', ''inv'', FailureN)))
        (NActSettleInvocation ''inv'' ''agent'' MonitorBypassedN AmbiguousN SensitiveN TrustedN (Some ''res''))
      then pinned_link_digest
      else bytes)"

lemma pinned_heads: "hd pinned_genesis_digest = 144" "hd pinned_link_digest = 211"
  by (simp_all add: pinned_genesis_digest_def pinned_link_digest_def)

lemma pinned_digest_hex:
  "hex pinned_genesis_digest = ''909cf2b46d6f57257e56704813925e65f7a17584c4b682dedd360dc693321566''"
  "hex pinned_link_digest = ''d3020216c7a8f595170d33a289efdce61ea505896c8892f1a0d489818146b751''"
  by (simp_all add: pinned_genesis_digest_def pinned_link_digest_def hex_def hex_digit_def)

lemma pinned_hash_inj: "inj_on pinned_hash {bytes. hd bytes = 69}"
  using pinned_heads by (auto simp: inj_on_def pinned_hash_def split: if_splits)

lemma transcripts_start: "hd (genesis_transcript bg) = 69" "hd (link_transcript p n c a) = 69"
    "hd (link_input_transcript l) = 69"
  by (simp_all add: genesis_transcript_def write_genesis_def GENESIS_DOMAIN_def link_transcript_def
      write_link_def ENVELOPE_DOMAIN_def as_bytes_def link_input_transcript_def split: prod.split)

lemma pinned_hash_transcripts:
  "pinned_hash (genesis_transcript vector_background) = pinned_genesis_digest"
  "pinned_hash (link_transcript (DigestN (map (\<lambda>index. of_nat index) [0..<32])) 42
     (settlement_command ''inv'' AmbiguousN (Some (''res'', ''inv'', FailureN)))
     (NActSettleInvocation ''inv'' ''agent'' MonitorBypassedN AmbiguousN SensitiveN TrustedN (Some ''res''))) =
     pinned_link_digest"
  "bg_view \<noteq> background_view vector_background \<Longrightarrow> background_view bg = bg_view \<Longrightarrow>
     pinned_hash (genesis_transcript bg) = genesis_transcript bg"
  by (auto simp: pinned_hash_def domains_differ domains_differ [symmetric] genesis_transcript_inject)

lemma pinned_hash_chain: "chain_test_hash pinned_hash"
proof -
  have "inj_on pinned_hash (set chain_test_inputs)"
    by (rule inj_on_subset [OF pinned_hash_inj])
      (auto simp: chain_test_inputs_def transcripts_start)
  then show ?thesis
    unfolding chain_test_hash_def pinned_value_def
    by (simp only: pinned_genesis_hex [symmetric] pinned_link_hex [symmetric] bytes_of_hex_hex option.case
        pinned_hash_transcripts(1,2) pinned_digest_hex simp_thms)
qed

lemma pinned_hash_instance: "instance_test_hash pinned_hash"
proof -
  let ?mode = "\<lambda>m. instance_background\<lparr>bn_mode := m\<rparr>"
  have view: "background_view instance_background \<noteq> background_view vector_background"
    "background_view (?mode MonitorN) \<noteq> background_view vector_background"
    "background_view instance_background \<noteq> background_view (?mode MonitorN)"
    by (auto simp: background_view_def instance_background_def vector_background_def flatten_def fun_eq_iff
        intro!: exI [of _ NEgNetworkExternal])
  note hash = pinned_hash_transcripts(3) [OF view(1) refl] pinned_hash_transcripts(3) [OF view(2) refl]
  have heads: "hd (replicate 32 7 :: byte list) = 7" "hd (replicate 32 4 :: byte list) = 4"
    "hd (replicate 32 9 :: byte list) = 9"
    by simp_all
  have "replicate 32 7 \<noteq> genesis_transcript bg" "replicate 32 4 \<noteq> genesis_transcript bg" for bg
    using heads transcripts_start(1) [of bg] by (auto dest: arg_cong [where f = hd])
  moreover have "pinned_hash (link_transcript p n c a) \<noteq> replicate 32 9" for p n c a
  proof -
    have "hd (pinned_hash (link_transcript p n c a)) \<in> {69, 144, 211}"
      using pinned_heads transcripts_start(2) [of p n c a] by (simp add: pinned_hash_def)
    with heads show ?thesis by auto
  qed
  ultimately show ?thesis
    using view(3) by (simp add: instance_test_hash_def hash genesis_transcript_inject)
qed

lemma pinned_hash_passes: "test_wrong_digest_does_not_commit pinned_hash"
  using unit_tests_pass [OF pinned_hash_chain pinned_hash_instance]
  by (simp add: instance_unit_tests_def)

end
