(* ===== verification/Spec2Isabelle.thy ===== *)
theory Spec2Isabelle
  imports Kernel_Effects Conformance_Properties Conformance_Recovery Kernel_Conformance Native_Resources
    Unit_Tests
begin

text \<open>
  A verification development for \<open>argus\<close>, the information-flow kernel of the repository, and for the
  native service built around it. The kernel decides which agents may invoke tools, absorb labelled
  data and release it across compartments; the native service applies commands to a kernel state,
  bounds its size, chains every accepted step by SHA-256 and recovers an instance by replaying
  recorded envelopes. Rust sources are under \<open>src/argus/crates/argus-kernel/src\<close> (K below) and
  \<open>src/ex_argus/native/argus_nif/src\<close> (N below).

  How the parts interact. A caller owns a \<open>BackgroundTheory\<close> (ceilings, mode, root). A transition
  is a pure function from state, background and input to a rejection or to the next state with the
  action to record. Two clients call the transitions: the driver \<open>Kernel\<close> (K/kernel.rs), which asks
  an authorizer for a verdict, appends the event to a store and only then commits; and the native
  instances (N/instance.rs), which decode a wire command (N/command.rs, N/wire.rs, N/enums.rs), check
  the capacity profile (N/limits.rs), transition, link the step into the chain (N/chain.rs) and
  commit under a tried mutex. An observer reads the state as sorted lists (N/state.rs).

  Theories, in dependency order.
    \<^item> \<open>Kernel_Prelude\<close>: results (a Rust \<open>Result\<close> is \<open>'e + 'a\<close>), the \<open>while i < len\<close> index loop
      as a recursion on the index, fact collections. \<open>Transition_Systems\<close>: runs of a
      labelled step relation and the interfaces under which they are used.
    \<^item> \<open>Vec_Collections\<close> (K/collections.rs): \<open>VecMap\<close> and \<open>VecSet\<close> over lists, loop by loop, with the
      interfaces \<open>set_interface\<close> and \<open>map_interface\<close>. \<open>Kernel_Types\<close> (K/types.rs, K/capability.rs),
      \<open>Kernel_Events\<close> (K/event.rs, K/error.rs), \<open>Kernel_Background\<close> (K/background.rs),
      \<open>Kernel_State\<close> (K/state.rs).
    \<^item> \<open>Transitions_Structural\<close>, \<open>Transitions_Flow\<close>, \<open>Transitions_Invoke\<close>, \<open>Transitions_Cross\<close>
      (K/transitions.rs): the twelve transitions, guards and updates in source order.
    \<^item> \<open>Kernel_Spec\<close>: the transitions over sets and maps, as guards in order of precedence and an
      effect. \<open>Kernel_Refinement\<close>: \<open>abs_state\<close> commutes with every transition, errors included.
      \<open>Spec_Invariants\<close>: the safety invariants and their preservation by each action.
      \<open>Kernel_Reach\<close>: the kernel's step relation, what holds of reachable states, and the same
      steps with their call, from which the identifiers they use are read.
      \<open>Kernel_Wf\<close>: no duplicate keys or elements. \<open>Kernel_Effects\<close>: effects of one step.
      \<open>Kernel_Scenario\<close>: a concrete session the witnesses use.
    \<^item> \<open>Kernel_Driver\<close> (K/kernel.rs, K/traits.rs): the stateful driver; its log replays to its state.
    \<^item> \<open>Wire_Enums\<close> (N/enums.rs), \<open>Wire_Types\<close> (N/wire.rs, N/event.rs, N/error.rs),
      \<open>Command_Dispatch\<close> (N/command.rs): the wire data and both directions of its conversions.
    \<^item> \<open>Capacity_Limits\<close> (N/limits.rs): bounds, preflight and recovery checks. \<open>Capacity_Checks\<close>
      reads them as inequalities, \<open>Capacity_Growth\<close> bounds what each transition adds,
      \<open>Capacity_Closure\<close> puts both together.
    \<^item> \<open>Canonical_Bytes\<close> and \<open>Chain_Transcript\<close> (N/chain.rs): the byte transcripts of genesis and
      links, injective field by field (\<open>canonical_code\<close>), with two recorded byte strings.
    \<^item> \<open>State_Projection\<close> (N/state.rs): the sorted observation of a state.
    \<^item> \<open>Native_Instance\<close> (N/instance.rs): live and recovery instances over a tried mutex.
      \<open>Native_History\<close>: the step relation \<open>extends\<close> both share. \<open>Native_Lifetime\<close>: why an instance
      stops, and when. \<open>Native_Resources\<close>: the exported functions over the table of resources.
      \<open>History_Integrity\<close>: what the head of a chain commits to.
      \<open>Instance_Concurrency\<close>: interleaved calls on one resource.
    \<^item> \<open>Conformance_Schema\<close> and \<open>Conformance_Checks\<close> (src/ex_argus/priv/conformance/v4_schema.rs): the
      data of the shared corpus and its validation. \<open>Conformance_Harness\<close> (N/conformance_tests.rs): the
      loop that executes a case on a live instance and recovers its prefixes.
      \<open>Conformance_Soundness\<close>: what executes also validates. \<open>Conformance_Recovery\<close>: the goldens, the
      boundaries behind the parser, and the altered recovery vectors, proved for every history.
      \<open>Kernel_Conformance\<close> (K/../tests/v4_conformance_vectors.rs): the kernel's own run of the corpus on
      the pure transitions, and how it compares with the native one.
    \<^item> \<open>Kernel_Unit_Tests\<close> (the tests of K/kernel.rs), \<open>Core_Unit_Tests\<close> (of K/types.rs,
      K/capability.rs, K/collections.rs, K/background.rs, K/state.rs), \<open>Wire_Unit_Tests\<close> (of N/enums.rs,
      N/event.rs, N/wire.rs, N/state.rs, N/limits.rs, N/chain.rs) and \<open>Instance_Unit_Tests\<close> (of
      N/instance.rs): the crates' own tests as definitions \<open>test_<name>\<close>, each evaluated on the model;
      \<open>Integration_Tests\<close>: the scenarios of K/../tests/safety_properties.rs and N/../tests/dispatcher.rs.
      \<open>Unit_Tests\<close> puts them together. They are evidence on fixed inputs that the definitions
      compute what the code computes, and no property rests on them.
    \<^item> \<open>Service_Properties\<close> holds the properties of the driver and the service,
      \<open>Conformance_Properties\<close> those of the corpus; the properties of the kernel are below.

  Lemma groups below: safety of every reachable state; refinement of the specification; outcomes and
  refusals of single transitions; effects on labels, grants and compartments.

  Interfaces. Collections: \<open>set_interface\<close>, \<open>map_interface\<close>, interpreted on the vector code. Step
  relations: \<open>invariant_system\<close>, \<open>simulation\<close>, \<open>refined_invariant\<close>, \<open>growing_history\<close> and
  \<open>one_use\<close>, interpreted on the kernel (\<open>Kernel_Reach\<close>), the driver, the native
  instances, the concurrent calls and the executions of the corpus. Transcripts: \<open>canonical_code\<close>, interpreted on every wire writer.

  Parameters. The authorizer and the event store are the traits of K/traits.rs: arbitrary
  functions, the store with a state of its own. SHA-256 (crate \<open>sha2\<close>) is an arbitrary function on
  byte lists; theorems that would need collision resistance name the colliding transcripts instead, and
  only the crates' own tests assume values of it (two pinned digests, and that the inputs they compare
  have different digests). The handles of Rustler's \<open>ResourceArc\<close> come from an arbitrary function that
  returns no handle twice. A poisoned or busy mutex is a value of the lock.

  Bounds. No fuel is used: every loop of the sources runs over a finite vector. \<open>u64\<close> grants and
  sequence numbers are 64-bit words; \<open>usize\<close> counts of the capacity profile are naturals, with
  \<open>checked_add\<close> failing at \<open>2 ^ 64\<close>; strings are character lists, one character per UTF-8 byte.

  Not modelled: the term encoders and decoders and the NIF registration that rustler's derive macros
  generate (third party); JSON parsing of the corpus (serde); \<open>Debug\<close> and \<open>Clone\<close> derivations; the
  Elixir front end, which is another program around the service; the two assertions on Rustler type
  identities, the tests that altered corpus text does not parse (serde) and the test that the exported
  names compile; and the repository's own Lean development.
\<close>

section \<open>Safety of every reachable state\<close>

text \<open>
  C1. Flow confinement: in every state the kernel reaches, each confidentiality level an agent
  holds may flow to every egress channel of the agent's permitted pending invocations; a level in
  the inspect band is tolerated only when an inspection vouched for that invocation.
\<close>

theorem flow_confinement:
  assumes "reachable bg s" "vm_get (pending s) i = Some j" "contained j"
    "vm_set_contains (taint_levels s) (pi_agent j) l" "vs_contains (pi_egress j) e"
  shows "flow_allows bg l e \<or> (flow_inspects bg l e \<and> vouched j)"
  using reach_confined [OF assms(1)] assms(2-5)
  by (auto simp: confined_def tolerates_def spec_conf_def flow_pass_def vec_simps)

theorem flow_confinement_witness:
  "flow_inspects (demo_bg Enforce) Sensitive EgNetworkExternal \<and>
   \<not> flow_allows (demo_bg Enforce) Sensitive EgNetworkExternal"
proof -
  let ?j = "demo_record helper (Inspected (AttestationId ''x1'')) Permitted"
  have "flow_allows (demo_bg Enforce) Sensitive EgNetworkExternal \<or>
      (flow_inspects (demo_bg Enforce) Sensitive EgNetworkExternal \<and> vouched ?j)"
  proof (rule flow_confinement [OF demo_inspected_reachable demo_pending(3)])
    show "contained ?j" by code_simp
    show "vm_set_contains (taint_levels demo_inspected) (pi_agent ?j) Sensitive" by code_simp
    show "vs_contains (pi_egress ?j) EgNetworkExternal" by code_simp
  qed
  moreover have "\<not> flow_allows (demo_bg Enforce) Sensitive EgNetworkExternal" by code_simp
  ultimately show ?thesis by blast
qed

text \<open>
  C2. Integrity confinement: each integrity level an agent holds clears the frozen floor of every
  permitted pending invocation of that agent, or lies in its inspect band with the invocation
  vouched for.
\<close>

theorem integrity_confinement:
  assumes "reachable bg s" "vm_get (pending s) i = Some j" "contained j"
    "vm_set_contains (integ_levels s) (pi_agent j) l"
  shows "integ_le (integ_floor (pi_policy j)) l \<or>
    (integ_le (integ_inspect (pi_policy j)) l \<and> vouched j)"
  using reach_confined [OF assms(1)] assms(2-4)
  by (auto simp: confined_def tolerates_def spec_integ_def integ_pass_def vec_simps integ_le_iff)

theorem integrity_confinement_witness:
  "integ_le (integ_inspect demo_policy) Untrusted \<and> \<not> integ_le (integ_floor demo_policy) Untrusted"
proof -
  let ?j = "demo_record helper (Inspected (AttestationId ''x1'')) Permitted"
  have "integ_le (integ_floor (pi_policy ?j)) Untrusted \<or>
      (integ_le (integ_inspect (pi_policy ?j)) Untrusted \<and> vouched ?j)"
  proof (rule integrity_confinement [OF demo_inspected_reachable demo_pending(3)])
    show "contained ?j" by code_simp
    show "vm_set_contains (integ_levels demo_inspected) (pi_agent ?j) Untrusted" by code_simp
  qed
  moreover have "\<not> integ_le (integ_floor demo_policy) Untrusted" by code_simp
  ultimately show ?thesis by (simp add: demo_record_def)
qed

text \<open>
  C3. Clearance confinement: every level in an agent's contained speculative taint (held, or to be
  absorbed from one of its permitted pending invocations) is within the frozen clearance of every
  permitted pending invocation of that agent.
\<close>

theorem clearance_confinement:
  assumes "reachable bg s" "vm_get (pending s) i = Some j" "contained j"
    "vs_contains (speculative_taint_contained s (pi_agent j)) l"
  shows "conf_le l (conf_clearance (pi_policy j))"
  using reach_confined [OF assms(1)] assms(2-4)
  by (auto simp: confined_def tolerates_def spec_conf_def vec_simps conf_le_iff
      set_speculative_taint_contained)

theorem clearance_confinement_witness:
  "conf_le Internal (conf_clearance (pi_policy (demo_record worker Plain Permitted)))"
proof (rule clearance_confinement [OF demo_reachable [OF order_refl] demo_pending(1)])
  show "contained (demo_record worker Plain Permitted)" by code_simp
  show "vs_contains (speculative_taint_contained (demo_state Enforce 10)
      (pi_agent (demo_record worker Plain Permitted))) Internal" by code_simp
qed

text \<open>
  C4. Pairwise compatibility: any two permitted pending invocations of one agent (a pair with
  itself included) tolerate each other's frozen output, in both dimensions, so one may settle
  without invalidating the other.
\<close>

theorem pending_compatible:
  assumes "reachable bg s" "vm_get (pending s) i1 = Some j1" "vm_get (pending s) i2 = Some j2"
    "pi_agent j1 = pi_agent j2" "contained j1" "contained j2"
  shows "conf_le (output_conf (pi_policy j1)) (conf_clearance (pi_policy j2)) \<and>
    (\<forall>e \<in> set (items (pi_egress j2)).
       flow_allows bg (output_conf (pi_policy j1)) e \<or>
       (flow_inspects bg (output_conf (pi_policy j1)) e \<and> vouched j2)) \<and>
    (integ_le (integ_floor (pi_policy j2)) (output_integ (pi_policy j1)) \<or>
       (integ_le (integ_inspect (pi_policy j2)) (output_integ (pi_policy j1)) \<and> vouched j2))"
proof -
  have "output_conf (pi_policy j1) \<in> spec_conf contained (abs_state s) (pi_agent j2)"
    "output_integ (pi_policy j1) \<in> spec_integ contained (abs_state s) (pi_agent j2)"
    using assms(2,4,5) by (auto simp: spec_conf_def spec_integ_def)
  with reach_confined [OF assms(1)] assms(3,6) show ?thesis
    by (auto simp: confined_def tolerates_def flow_pass_def integ_pass_def conf_le_iff integ_le_iff)
qed

theorem pending_compatible_witness:
  "conf_le (output_conf demo_policy) (conf_clearance demo_policy)"
proof -
  let ?j = "demo_record worker Plain Permitted"
  have "contained ?j" by code_simp
  with pending_compatible [OF demo_reachable [OF order_refl] demo_pending(1) demo_pending(1) refl]
  have "conf_le (output_conf (pi_policy ?j)) (conf_clearance (pi_policy ?j))" by blast
  then show ?thesis by (simp add: demo_record_def)
qed

text \<open>
  C5. Default deny: a permitted pending invocation was approved by the authorizer, its agent holds
  every capability the frozen policy requires and is active and not the root, its tool is
  registered, its invocation id is consumed, and its egress narrows and covers the declaration.
\<close>

theorem default_deny:
  assumes "reachable bg s" "vm_get (pending s) i = Some j"
  shows "(contained j \<longrightarrow> pi_authorized j \<and>
      (\<forall>c \<in> set (items (required_caps (pi_policy j))). vm_set_contains (agent_cap s) (pi_agent j) c)) \<and>
    vs_contains (agent_active s) (pi_agent j) \<and> pi_agent j \<noteq> root_agent bg \<and>
    vs_contains (tool_registered s) (aps_tool (pi_policy j)) \<and> vs_contains (consumed_ids s) i \<and>
    egress_narrows (pi_egress j) (declared_egress (pi_policy j)) \<and>
    egress_covers (declared_egress (pi_policy j)) (pi_egress j)"
  using reach_records [OF assms(1)] reach_owned [OF assms(1)] assms(2)
  by (auto simp: records_ok_def record_ok_def owned_ok_def vec_simps abs_egress_ok)

theorem default_deny_witness:
  "vm_set_contains (agent_cap (demo_state Enforce 10)) worker CapNetworkEgress"
  using default_deny [OF demo_reachable [OF order_refl] demo_pending(1)]
  by (simp add: demo_record_def demo_policy_def contained_def)

text \<open>
  C12. Open challenges are well scoped: they occur in enforce mode only, no pending record shares
  their invocation id, that id is consumed, their agent is active and not the root, the tool is
  registered, the integrity band is coherent, and the egress is narrowed and covered.
\<close>

theorem challenge_scoped:
  assumes "reachable bg s" "vm_get (challenges s) i = Some c"
  shows "bg_mode bg = Enforce \<and> \<not> vm_contains_key (pending s) i \<and> vs_contains (consumed_ids s) i \<and>
    vs_contains (agent_active s) (cs_agent c) \<and> cs_agent c \<noteq> root_agent bg \<and>
    vs_contains (tool_registered s) (aps_tool (cs_policy c)) \<and> cs_authorized c \<and>
    integ_le (integ_inspect (cs_policy c)) (integ_floor (cs_policy c)) \<and>
    egress_narrows (cs_egress c) (declared_egress (cs_policy c)) \<and>
    egress_covers (declared_egress (cs_policy c)) (cs_egress c)"
  using reach_challenges [OF assms(1)] reach_owned [OF assms(1)] assms(2)
  by (auto simp: challenges_ok_def challenge_ok_def owned_ok_def vec_simps vm_contains_key_iff
      abs_egress_ok integ_le_iff)

theorem challenge_scoped_witness:
  "vs_contains (consumed_ids (demo_state Enforce 10)) (InvocationId ''2'')"
  using challenge_scoped [OF demo_reachable [OF order_refl] demo_challenge] by blast

text \<open>
  C7. Monitor-mode effects stay in monitor mode: under enforcement every pending record is
  permitted and none was admitted by a bypass; a record is never stored as blocked in any mode;
  and an inspected admission names consumed evidence.
\<close>

theorem enforcement_has_no_bypass:
  assumes "reachable bg s" "vm_get (pending s) i = Some j"
  shows "(bg_mode bg = Enforce \<longrightarrow> disposition_of j = Permitted \<and> admission j \<noteq> Bypassed) \<and>
    disposition_of j \<noteq> Blocked \<and>
    (\<forall>t. admission j = Inspected t \<longrightarrow> vs_contains (consumed_attestations s) t)"
  using reach_records [OF assms(1)] assms(2)
  by (auto simp: records_ok_def record_ok_def contained_def vec_simps)

theorem enforcement_has_no_bypass_witness:
  "vs_contains (consumed_attestations demo_inspected) (AttestationId ''x1'')"
  using enforcement_has_no_bypass [OF demo_inspected_reachable demo_pending(3)]
  by (simp add: demo_record_def)

text \<open>
  C8. Revocation is clean: an agent that is not active holds no capability, no label, no pending
  record, no open challenge and no crossing grant.
\<close>

theorem revocation_clean:
  assumes "reachable bg s" "\<not> vs_contains (agent_active s) a"
  shows "\<not> vm_set_contains (agent_cap s) a c \<and> \<not> vm_set_contains (taint_levels s) a l \<and>
    \<not> vm_set_contains (integ_levels s) a li \<and>
    (\<forall>i j. vm_get (pending s) i = Some j \<longrightarrow> pi_agent j \<noteq> a) \<and>
    (\<forall>i sc. vm_get (challenges s) i = Some sc \<longrightarrow> cs_agent sc \<noteq> a) \<and>
    vm_get (crossing_grants s) \<lparr>ck_agent = a, ck_assignment = d\<rparr> = None"
proof -
  have "owned_ok (abs_state s)" by (rule reach_owned [OF assms(1)])
  moreover have "a \<notin> set (items (agent_active s))" using assms(2) by (simp add: vec_simps)
  ultimately show ?thesis
    by (fastforce simp: owned_ok_def vec_simps)
qed

theorem revocation_clean_witness:
  "\<not> vm_set_contains (taint_levels (demo_state Enforce 10)) (AgentId ''ghost'') Restricted"
proof -
  have "\<not> vs_contains (agent_active (demo_state Enforce 10)) (AgentId ''ghost'')" by code_simp
  from revocation_clean [OF demo_reachable [OF order_refl] this] show ?thesis by blast
qed

text \<open>
  C9. The delegation forest: the root is active, has no parent and holds every capability; exactly the
  other active agents have a parent edge; following parent edges never cycles, and leads from every
  active agent to the root or to an ancestor that was revoked while its children stayed active; and a
  child holds no capability that its parent lacks while the parent is active.
\<close>

theorem delegation_forest:
  assumes "reachable bg s"
  shows "vs_contains (agent_active s) (root_agent bg) \<and>
    vm_set_contains (agent_cap s) (root_agent bg) cap \<and>
    (\<forall>a. vm_contains_key (agent_parent s) a \<longleftrightarrow> vs_contains (agent_active s) a \<and> a \<noteq> root_agent bg) \<and>
    (\<forall>a. (a, a) \<notin> {(c, p). vm_get (agent_parent s) c = Some p}\<^sup>+) \<and>
    (\<forall>a. vs_contains (agent_active s) a \<longrightarrow>
       (a, root_agent bg) \<in> {(c, p). vm_get (agent_parent s) c = Some p}\<^sup>* \<or>
       (\<exists>b. (a, b) \<in> {(c, p). vm_get (agent_parent s) c = Some p}\<^sup>+ \<and> \<not> vs_contains (agent_active s) b)) \<and>
    (\<forall>c p. vm_get (agent_parent s) c = Some p \<longrightarrow> vs_contains (agent_active s) p \<longrightarrow>
       vm_set_contains (agent_cap s) c k \<longrightarrow> vm_set_contains (agent_cap s) p k)"
proof -
  let ?E = "{(c, p). vm_get (agent_parent s) c = Some p}" and ?A = "set (items (agent_active s))"
  have tree: "root_agent bg \<in> ?A" "dom (vm_get (agent_parent s)) = ?A - {root_agent bg}" "acyclic ?E"
    "vm_elems (agent_cap s) (root_agent bg) = UNIV"
    using reach_tree [OF assms] by (auto simp: tree_ok_def forest_def)
  have caps: "k \<in> vm_elems (agent_cap s) p"
    if "vm_get (agent_parent s) c = Some p" "p \<in> ?A" "k \<in> vm_elems (agent_cap s) c" for c p k
    using reach_tree [OF assms] that by (simp add: tree_ok_def) blast
  have "(a, root_agent bg) \<in> ?E\<^sup>* \<or> (\<exists>b. (a, b) \<in> ?E\<^sup>+ \<and> b \<notin> ?A)" if "a \<in> ?A" for a
    by (rule parent_chain [OF tree(3) _ that]) (use tree(2) in auto)
  moreover have "vm_contains_key (agent_parent s) a \<longleftrightarrow> a \<in> ?A \<and> a \<noteq> root_agent bg" for a
    using tree(2) by (auto simp: vm_contains_key_iff)
  ultimately show ?thesis
    using tree(1,3,4) caps by (auto simp: acyclic_def vec_simps)
qed

theorem delegation_forest_witness:
  "vm_contains_key (agent_parent (demo_state Enforce 10)) worker \<and>
   vm_set_contains (agent_cap (demo_state Enforce 10)) root_id CapCredentials"
proof -
  have "vs_contains (agent_active (demo_state Enforce 10)) worker" by code_simp
  then show ?thesis
    using delegation_forest [OF demo_reachable [of 10 Enforce], of CapCredentials]
    by (simp add: root_id_def)
qed

text \<open>
  C10. Identifiers are one-use along every run: no invocation id is begun twice; no attestation id is
  consumed twice, be it by an inspection, a quarantine resolution or the evidence of an endorsed
  crossing; no crossing id is spent twice; and each of them was not in its consumed history before the
  run and is in it afterwards.
\<close>

theorem identifiers_used_once:
  assumes "run (called bg) s calls s'"
  shows "(distinct (List.map_filter begun_id calls) \<and> (\<forall>i \<in> set (List.map_filter begun_id calls).
       \<not> vs_contains (consumed_ids s) i \<and> vs_contains (consumed_ids s') i)) \<and>
    (distinct (List.map_filter attested_id calls) \<and> (\<forall>t \<in> set (List.map_filter attested_id calls).
       \<not> vs_contains (consumed_attestations s) t \<and> vs_contains (consumed_attestations s') t)) \<and>
    (distinct (List.map_filter crossed_id calls) \<and> (\<forall>x \<in> set (List.map_filter crossed_id calls).
       \<not> vs_contains (consumed_crossings s) x \<and> vs_contains (consumed_crossings s') x))"
  using begins.used_run [OF assms] attestations.used_run [OF assms] crossings.used_run [OF assms]
  by (auto simp: vec_simps)

theorem identifiers_used_once_witness:
  "List.map_filter attested_id demo_evidence_calls = [AttestationId ''x1'', AttestationId ''x2''] \<and>
   \<not> vs_contains (consumed_attestations (demo_state Enforce 10)) (AttestationId ''x2'') \<and>
   vs_contains (consumed_attestations demo_crossed) (AttestationId ''x2'')"
proof -
  have used: "List.map_filter attested_id demo_evidence_calls = [AttestationId ''x1'', AttestationId ''x2'']"
    by code_simp
  show ?thesis
    using identifiers_used_once [OF demo_evidence_run] unfolding used by simp
qed

section \<open>The transitions implement their specification\<close>

text \<open>
  C11. All twelve transitions implement their specification: read through the abstraction to sets and
  maps, each gives the same error, state and recorded action as the guards of its specification in
  their order of precedence. For the gate of \<open>begin_invocation\<close> and \<open>authorize_inspected\<close> the
  specification is a list of quantified checks, for the label-moving transitions an update of label sets.
\<close>

theorem transitions_refine:
  "abs_result (begin_invocation s bg a ivk ch p egr ah auth) =
     spec_begin bg a ivk ch p egr ah auth (abs_state s) \<and>
   abs_result (authorize_inspected s bg ivk ia) = spec_authorize bg ivk ia (abs_state s) \<and>
   abs_result (ingest s bg b src l i) = spec_ingest bg b src l i (abs_state s) \<and>
   abs_result (settle_invocation s ivk out att) = spec_settle ivk out att (abs_state s) \<and>
   abs_result (cross_output s bg q) = spec_cross bg q (abs_state s) \<and>
   abs_result (register_tool s t) = spec_register t (abs_state s) \<and>
   abs_result (unregister_tool s t) = spec_unregister t (abs_state s) \<and>
   abs_result (delegate s bg pa ca) = spec_delegate bg pa ca (abs_state s) \<and>
   abs_result (grant_capability s pa ca k) = spec_grant_capability pa ca k (abs_state s) \<and>
   abs_result (grant_crossing s bg pa ca d n) = spec_grant_crossing bg pa ca d n (abs_state s) \<and>
   abs_result (revoke s bg pa ca) = spec_revoke bg pa ca (abs_state s) \<and>
   abs_result (cascade_revoke s bg ca pa) = spec_cascade_revoke bg ca pa (abs_state s)"
  by (intro conjI begin_refines authorize_refines ingest_refines settle_refines cross_refines)
    (simp_all add: kernel_refines)

section \<open>What each transition does\<close>

text \<open>
  C14. The verdict of an admission is computed from the gate and selects exactly one effect: a plain
  permitted record on \<open>Allow\<close>, a challenge on \<open>InspectionRequired\<close> under enforcement, a
  bypassed record in monitor mode. Whatever the verdict, the invocation id, which was unused, is
  consumed; every other collection is untouched.
\<close>

theorem begin_outcome:
  assumes "begin_invocation s bg a ivk ch p egr ah auth = Inr (s', act)"
  shows "\<exists>v. act = ActBeginInvocation a ivk (aps_tool p) v auth \<and>
    (v = Allow \<longleftrightarrow> gate bg True (abs_state s) a p egr auth) \<and>
    (v = Deny \<longleftrightarrow> \<not> gate bg False (abs_state s) a p egr auth) \<and>
    (v = Deny \<longrightarrow> bg_mode bg = Monitor) \<and>
    vm_get (pending s') =
      (if v = Allow then (vm_get (pending s))(ivk \<mapsto> \<lparr>pi_agent = a, pi_policy = p, pi_egress = egr,
         admission = Plain, disposition_of = Permitted, pi_authorized = auth, quarantined = False\<rparr>)
       else if bg_mode bg = Monitor then (vm_get (pending s))(ivk \<mapsto> \<lparr>pi_agent = a, pi_policy = p,
         pi_egress = egr, admission = Bypassed, disposition_of = MonitorBypassed,
         pi_authorized = auth, quarantined = False\<rparr>)
       else vm_get (pending s)) \<and>
    vm_get (challenges s') =
      (if v = InspectionRequired \<and> bg_mode bg = Enforce
       then (vm_get (challenges s))(ivk \<mapsto> \<lparr>cs_challenge = ch, cs_agent = a, cs_policy = p,
         cs_egress = egr, cs_args_hash = ah, cs_authorized = auth\<rparr>)
       else vm_get (challenges s)) \<and>
    \<not> vs_contains (consumed_ids s) ivk \<and>
    set (items (consumed_ids s')) = insert ivk (set (items (consumed_ids s))) \<and>
    set (items (agent_active s')) = set (items (agent_active s)) \<and>
    vm_get (agent_parent s') = vm_get (agent_parent s) \<and>
    vm_elems (agent_cap s') = vm_elems (agent_cap s) \<and>
    vm_elems (taint_levels s') = vm_elems (taint_levels s) \<and>
    vm_elems (integ_levels s') = vm_elems (integ_levels s) \<and>
    set (items (consumed_attestations s')) = set (items (consumed_attestations s)) \<and>
    set (items (consumed_crossings s')) = set (items (consumed_crossings s)) \<and>
    vm_get (crossing_grants s') = vm_get (crossing_grants s) \<and>
    set (items (tool_registered s')) = set (items (tool_registered s))"
proof -
  let ?v = "spec_verdict bg (abs_state s) a p egr auth"
  have eq: "spec_begin bg a ivk ch p egr ah auth (abs_state s) = Inr (abs_state s', act)"
    by (rule refined_Inr [OF assms begin_refines])
  then have "act = ActBeginInvocation a ivk (aps_tool p) ?v auth" "\<not> (?v = Deny \<and> bg_mode bg = Enforce)"
    "\<not> vs_contains (consumed_ids s) ivk"
    by (auto simp: spec_defs guarded_Inr_iff Let_def vec_simps)
  moreover have "?v = Allow \<longleftrightarrow> gate bg True (abs_state s) a p egr auth"
    "?v = Deny \<longleftrightarrow> \<not> gate bg False (abs_state s) a p egr auth"
    by (auto simp: spec_verdict_def gate_strict)
  moreover have "abs_state s' =
      (if ?v = Allow then abs_state s\<lparr>pend := (vm_get (pending s))(ivk \<mapsto> \<lparr>pi_agent = a, pi_policy = p,
         pi_egress = egr, admission = Plain, disposition_of = Permitted, pi_authorized = auth,
         quarantined = False\<rparr>)\<rparr>
       else if bg_mode bg = Monitor
       then abs_state s\<lparr>pend := (vm_get (pending s))(ivk \<mapsto> \<lparr>pi_agent = a, pi_policy = p, pi_egress = egr,
         admission = Bypassed, disposition_of = MonitorBypassed, pi_authorized = auth,
         quarantined = False\<rparr>)\<rparr>
       else abs_state s\<lparr>chal := (vm_get (challenges s))(ivk \<mapsto> \<lparr>cs_challenge = ch, cs_agent = a,
         cs_policy = p, cs_egress = egr, cs_args_hash = ah, cs_authorized = auth\<rparr>)\<rparr>)
      \<lparr>used_ids := insert ivk (set (items (consumed_ids s)))\<rparr>"
    using eq by (simp add: spec_defs guarded_Inr_iff Let_def)
  note fields = abs_fields_eq [OF this]
  ultimately show ?thesis
    by (intro exI [of _ ?v]; cases ?v; cases "bg_mode bg") (simp_all add: fields)
qed

theorem begin_outcome_witness:
  "\<exists>v. v = InspectionRequired \<and>
     ok_action (demo_begin Enforce (demo_state Enforce 9) helper ''2'') =
       ActBeginInvocation helper (InvocationId ''2'') mailer v True"
proof -
  have "succeeds (demo_begin Enforce (demo_state Enforce 9) helper ''2'')" by code_simp
  from begin_outcome [OF succeeds_eq [OF this, unfolded demo_begin_def]]
  have "\<exists>v. ok_action (demo_begin Enforce (demo_state Enforce 9) helper ''2'') =
      ActBeginInvocation helper (InvocationId ''2'') mailer v True"
    by (auto simp: demo_begin_def demo_policy_def)
  moreover have "ok_action (demo_begin Enforce (demo_state Enforce 9) helper ''2'') =
      ActBeginInvocation helper (InvocationId ''2'') mailer InspectionRequired True" by code_simp
  ultimately show ?thesis by auto
qed

text \<open>
  C15. A refused admission names the most specific failing check: each gate error occurs only under
  enforcement, and exactly when the checks before it (capability, authorizer, clearance, flow) hold
  and its own fails.
\<close>

theorem begin_refusal:
  assumes "begin_invocation s bg a ivk ch p egr ah auth = Inl e"
    "e \<in> {CapabilityMissing, AuthorizerDenied, ClearanceDenied, FlowGateBlocked, IntegrityFloorDenied}"
  shows "bg_mode bg = Enforce \<and>
    (e = CapabilityMissing \<longleftrightarrow> \<not> check_capability s a p) \<and>
    (e = AuthorizerDenied \<longleftrightarrow> check_capability s a p \<and> \<not> auth) \<and>
    (e = ClearanceDenied \<longleftrightarrow> check_capability s a p \<and> auth \<and> \<not> check_clearance s a p) \<and>
    (e = FlowGateBlocked \<longleftrightarrow> check_capability s a p \<and> auth \<and> check_clearance s a p \<and>
       \<not> check_flow s bg a p egr False) \<and>
    (e = IntegrityFloorDenied \<longrightarrow> check_capability s a p \<and> auth \<and> check_clearance s a p \<and>
       check_flow s bg a p egr False \<and> \<not> check_integ s a p False)"
  using assms check_flow_strict [of s bg a p egr] check_integ_strict [of s a p]
  by (cases "bg_mode bg") (auto simp: begin_invocation_def Let_def split: if_splits)

theorem begin_refusal_witness:
  "\<not> check_capability (demo_state Enforce 3) worker demo_policy"
proof -
  have "begin_invocation (demo_state Enforce 3) (demo_bg Enforce) worker (InvocationId ''1'')
      (ChallengeId ''1'') demo_policy demo_egress (ContentHash ''args'') True = Inl CapabilityMissing"
    by code_simp
  from begin_refusal [OF this] show ?thesis by simp
qed

text \<open>
  C16. Resolving a challenge: the attestation matches the open challenge in invocation, challenge,
  arguments and policy, and was fresh; the challenge closes and the attestation is consumed
  whatever the verdict; the invocation becomes pending exactly when the inspection is positive and
  the gate, evaluated again on the current state, admits it. Labels do not change.
\<close>

theorem authorize_outcome:
  assumes "authorize_inspected s bg ivk att = Inr (s', act)"
  shows "\<exists>sc admitted. vm_get (challenges s) ivk = Some sc \<and>
    ia_inv att = ivk \<and> ia_challenge att = cs_challenge sc \<and> ia_args_hash att = cs_args_hash sc \<and>
    ia_policy_digest att = policy_digest (cs_policy sc) \<and>
    \<not> vs_contains (consumed_attestations s) (ia_id att) \<and>
    act = ActAuthorizeInspected ivk (ia_id att) admitted \<and>
    (admitted \<longleftrightarrow> ia_positive att \<and> spec_admits bg ivk sc (abs_state s)) \<and>
    vm_get (pending s') = (if admitted then (vm_get (pending s))(ivk \<mapsto>
      \<lparr>pi_agent = cs_agent sc, pi_policy = cs_policy sc, pi_egress = cs_egress sc,
       admission = Inspected (ia_id att), disposition_of = Permitted,
       pi_authorized = cs_authorized sc, quarantined = False\<rparr>) else vm_get (pending s)) \<and>
    vm_get (challenges s') = (vm_get (challenges s))(ivk := None) \<and>
    vs_contains (consumed_attestations s') (ia_id att) \<and>
    taint_levels s' = taint_levels s \<and> integ_levels s' = integ_levels s"
proof -
  obtain sc where sc: "vm_get (challenges s) ivk = Some sc"
    using assms by (auto simp: authorize_inspected_def split: option.splits)
  show ?thesis
    using assms sc
    by (intro exI [of _ sc] exI [of _ "ia_positive att \<and> authorize_admits s bg ivk sc"])
      (auto simp: authorize_inspected_def Let_def vec_simps abs_admits split: if_splits)
qed

theorem authorize_outcome_witness:
  "vm_get (challenges demo_inspected) (InvocationId ''2'') = None"
  using authorize_outcome [OF succeeds_eq [OF demo_inspected_succeeds]]
  by (auto simp: demo_inspected_def)

text \<open>
  C17. Quarantine: a quarantined record settles exactly when the outcome is not ambiguous and the
  caller presents a resolution attestation for this invocation and outcome that was not used
  before; without one, or with an ambiguous outcome, the state is unchanged and the error says so.
\<close>

theorem quarantine_resolution:
  assumes "vm_get (pending s) i = Some j" "vs_contains (agent_active s) (pi_agent j)"
    "disposition_of j \<noteq> Blocked" "quarantined j"
  shows "((\<exists>s' act. settle_invocation s i out att = Inr (s', act)) \<longleftrightarrow>
      out \<noteq> Ambiguous \<and> (\<exists>r. att = Some r \<and> ra_inv r = i \<and> ra_outcome r = out \<and>
        \<not> vs_contains (consumed_attestations s) (ra_id r))) \<and>
    settle_invocation s i Ambiguous att = Inl QuarantineResolutionRequired \<and>
    (out \<noteq> Ambiguous \<longrightarrow> settle_invocation s i out None = Inl ResolutionAttestationInvalid)"
  using assms by (auto simp: settle_invocation_def Let_def split: option.splits if_splits)

definition demo_quarantined :: kernel_state where
  "demo_quarantined =
     ok_state (settle_invocation (demo_state Enforce 10) (InvocationId ''1'') Ambiguous None)"

theorem quarantine_resolution_witness:
  "settle_invocation demo_quarantined (InvocationId ''1'') Ambiguous None =
     Inl QuarantineResolutionRequired"
proof -
  let ?j = "demo_record worker Plain Permitted\<lparr>quarantined := True\<rparr>"
  have "vm_get (pending demo_quarantined) (InvocationId ''1'') = Some ?j" by code_simp
  moreover have "vs_contains (agent_active demo_quarantined) (pi_agent ?j)" by code_simp
  moreover have "disposition_of ?j \<noteq> Blocked" "quarantined ?j" by code_simp+
  ultimately show ?thesis using quarantine_resolution by blast
qed

text \<open>
  C18. Settlement: a definite outcome removes the record and adds exactly its frozen output to the
  owner's labels; an ambiguous one keeps it quarantined and adds nothing. Labels of other agents
  never change, and settling a record that was not permitted demotes all the owner's records.
\<close>

theorem settle_outcome:
  assumes "settle_invocation s i out att = Inr (s', act)" "vm_get (pending s) i = Some j"
  shows "vm_elems (taint_levels s') = (if out = Ambiguous then vm_elems (taint_levels s)
      else (vm_elems (taint_levels s))(pi_agent j :=
        insert (output_conf (pi_policy j)) (vm_elems (taint_levels s) (pi_agent j)))) \<and>
    vm_elems (integ_levels s') = (if out = Ambiguous then vm_elems (integ_levels s)
      else (vm_elems (integ_levels s))(pi_agent j :=
        insert (output_integ (pi_policy j)) (vm_elems (integ_levels s) (pi_agent j)))) \<and>
    vm_get (pending s') = (\<lambda>k. map_option (\<lambda>r. if \<not> contained j \<and> pi_agent r = pi_agent j
        then r\<lparr>disposition_of := MonitorBypassed\<rparr> else r)
      (((vm_get (pending s))(i := (if out = Ambiguous then Some (j\<lparr>quarantined := True\<rparr>) else None))) k)) \<and>
    vm_get (challenges s') = vm_get (challenges s) \<and>
    vm_get (crossing_grants s') = vm_get (crossing_grants s)"
  unfolding abs_fields_eq [OF settle_effect [OF assms]] demote_all_def demote_owned_def demote_def
    add_labels_def
  by (cases "contained j"; cases "out = Ambiguous") (simp_all add: option.map_ident fun_eq_iff)

theorem settle_outcome_witness:
  "vm_get (pending (ok_state (settle_invocation (demo_state Enforce 10) (InvocationId ''1'') Success None)))
     (InvocationId ''1'') = None"
proof -
  have "succeeds (settle_invocation (demo_state Enforce 10) (InvocationId ''1'') Success None)"
    by code_simp
  from settle_outcome [OF succeeds_eq [OF this] demo_pending(1)] show ?thesis by simp
qed

text \<open>
  C19. Ingestion adds exactly the given pair to the agent's labels. Under enforcement it happens
  only when every pending record of the agent tolerates the pair; in monitor mode it may happen
  otherwise, and then every pending record of the agent is demoted. Provenance from another agent
  must dominate that agent's labels.
\<close>

theorem ingest_outcome:
  assumes "ingest s bg a src l i = Inr (s', act)"
  shows "vm_elems (taint_levels s') = (vm_elems (taint_levels s))(a := insert l (vm_elems (taint_levels s) a)) \<and>
    vm_elems (integ_levels s') = (vm_elems (integ_levels s))(a := insert i (vm_elems (integ_levels s) a)) \<and>
    (holds_of bg (abs_state s) a {l} {i} \<longrightarrow> vm_get (pending s') = vm_get (pending s)) \<and>
    (\<not> holds_of bg (abs_state s) a {l} {i} \<longrightarrow> bg_mode bg = Monitor \<and>
       vm_get (pending s') = (\<lambda>k. map_option (\<lambda>r. if pi_agent r = a
         then r\<lparr>disposition_of := MonitorBypassed\<rparr> else r) (vm_get (pending s) k))) \<and>
    (\<forall>b. src = Some b \<longrightarrow> (\<forall>x \<in> vm_elems (taint_levels s) b. x \<le> l) \<and>
       (\<forall>y \<in> vm_elems (integ_levels s) b. i \<le> y))"
  using ingest_effect(2-4) [OF assms]
  unfolding abs_fields_eq [OF ingest_effect(1) [OF assms]] abs_ingest_holds demote_all_def
    demote_owned_def demote_def add_labels_def
  by (cases "ingest_holds s bg a l i") (simp_all add: provenance_dominated_iff)

theorem ingest_outcome_witness:
  "Restricted \<in> vm_elems (taint_levels (ok_state (ingest (demo_state Enforce 2) (demo_bg Enforce) worker
     (Some helper) Restricted Untrusted))) worker"
proof -
  have "succeeds (ingest (demo_state Enforce 2) (demo_bg Enforce) worker (Some helper) Restricted Untrusted)"
    by code_simp
  from ingest_outcome [OF succeeds_eq [OF this]] show ?thesis by simp
qed

text \<open>
  C20. The crossing trichotomy: exactly one branch fires, determined by the evidence, the grant and
  the declared fallback. Only the receiver's labels change, by the released pair, by the source's
  labels, or not at all; the crossing id is consumed on every branch; the evidence and one use of
  the grant are consumed on the endorsed branch only.
\<close>

theorem crossing_trichotomy:
  assumes "cross_output s bg q = Inr (s', act)"
  shows "\<exists>b d. act = ActCrossOutput (x_src q) (x_rcv q) (x_crossing q) b d \<and>
    (b = Endorsed \<longleftrightarrow> spec_endorsed q (abs_state s)) \<and>
    (b = Unendorsed \<longleftrightarrow> \<not> spec_endorsed q (abs_state s) \<and> x_fallback q = ReleaseUnendorsed) \<and>
    (b = Endorsed \<longrightarrow> spec_bounds_ok q (abs_state s)) \<and>
    vm_elems (taint_levels s') = (vm_elems (taint_levels s))(x_rcv q :=
      vm_elems (taint_levels s) (x_rcv q) \<union>
      (case b of Endorsed \<Rightarrow> {released_conf q}
       | Unendorsed \<Rightarrow> vm_elems (taint_levels s) (x_src q) | BrFail \<Rightarrow> {})) \<and>
    vm_elems (integ_levels s') = (vm_elems (integ_levels s))(x_rcv q :=
      vm_elems (integ_levels s) (x_rcv q) \<union>
      (case b of Endorsed \<Rightarrow> {released_integ q}
       | Unendorsed \<Rightarrow> vm_elems (integ_levels s) (x_src q) | BrFail \<Rightarrow> {})) \<and>
    \<not> vs_contains (consumed_crossings s) (x_crossing q) \<and>
    vs_contains (consumed_crossings s') (x_crossing q) \<and>
    (d = MonitorBypassed \<longrightarrow> bg_mode bg = Monitor) \<and>
    (b \<noteq> Endorsed \<longrightarrow> vm_get (crossing_grants s') = vm_get (crossing_grants s) \<and>
       set (items (consumed_attestations s')) = set (items (consumed_attestations s)))"
proof -
  let ?b = "select_branch s q" and ?ok = "cross_holds s bg q (select_branch s q)"
  note eff = cross_effect [OF assms]
  note fields = abs_fields_eq [OF eff(1)]
  have release: "spec_release q (abs_state s) ?b =
      ((case ?b of Endorsed \<Rightarrow> {released_conf q}
        | Unendorsed \<Rightarrow> vm_elems (taint_levels s) (x_src q) | BrFail \<Rightarrow> {}),
       (case ?b of Endorsed \<Rightarrow> {released_integ q}
        | Unendorsed \<Rightarrow> vm_elems (integ_levels s) (x_src q) | BrFail \<Rightarrow> {}))"
    by (cases ?b) (simp_all add: spec_release_def)
  have branch: "?b = Endorsed \<longleftrightarrow> spec_endorsed q (abs_state s)"
    "?b = Unendorsed \<longleftrightarrow> \<not> spec_endorsed q (abs_state s) \<and> x_fallback q = ReleaseUnendorsed"
    by (auto simp: abs_branch [symmetric] spec_branch_def)
  show ?thesis
    using eff(2-6) branch
    by (intro exI [of _ ?b] exI [of _ "if ?ok then Permitted else MonitorBypassed"])
      (simp add: fields vec_simps demote_all_def add_labels_def release abs_bounds_ok)
qed

definition demo_crossing :: "fallback \<Rightarrow> conformance_attestation option \<Rightarrow> cross_input" where
  "demo_crossing fb e =
     \<lparr>x_src = helper, x_rcv = worker, x_crossing = CrossingId ''c1'',
      x_output_hash = ContentHash ''o'', x_descriptor = ContentHash ''r'', x_fallback = fb,
      t_integ = Trusted, t_conf = Some Internal, x_assignment = AssignmentDigest ''d'',
      x_evidence = e, released_conf = Internal, released_integ = Standard\<rparr>"

definition demo_evidence :: conformance_attestation where
  "demo_evidence =
     \<lparr>ca_id = AttestationId ''e1'', ca_output = ContentHash ''o'', ca_src = helper, ca_rcv = worker,
      ca_descriptor = ContentHash ''r'', ca_assignment = AssignmentDigest ''d'', ca_positive = True\<rparr>"

theorem crossing_trichotomy_witness:
  "CrossingId ''c1'' \<in> set (items (consumed_crossings
     (ok_state (cross_output (demo_state Enforce 10) (demo_bg Enforce) (demo_crossing FbFail None)))))"
proof -
  have "succeeds (cross_output (demo_state Enforce 10) (demo_bg Enforce) (demo_crossing FbFail None))"
    by code_simp
  from crossing_trichotomy [OF succeeds_eq [OF this]] show ?thesis
    by (auto simp: vec_simps demo_crossing_def)
qed

text \<open>
  C21. Labels are never laundered: as long as an agent stays active, every step of the kernel keeps
  all the confidentiality and integrity levels it holds.
\<close>

theorem labels_monotone:
  assumes "kstep bg s act s'" "vs_contains (agent_active s) a" "vs_contains (agent_active s') a"
  shows "(vm_set_contains (taint_levels s) a l \<longrightarrow> vm_set_contains (taint_levels s') a l) \<and>
    (vm_set_contains (integ_levels s) a i \<longrightarrow> vm_set_contains (integ_levels s') a i)"
  using spec_step_labels [OF kstep_refines [OF assms(1)], of a] assms(2,3)
  by (auto simp: vec_simps)

theorem labels_monotone_witness:
  "vm_set_contains (taint_levels (demo_state Enforce 10)) worker Internal"
proof -
  have "kstep (demo_bg Enforce) (demo_state Enforce 9)
      (ok_action ((demo_calls Enforce ! 9) (demo_state Enforce 9))) (demo_state Enforce 10)"
    using demo_step [of 9 Enforce] by simp
  moreover have "vs_contains (agent_active (demo_state Enforce 9)) worker" by code_simp
  moreover have "vs_contains (agent_active (demo_state Enforce 10)) worker" by code_simp
  moreover have "vm_set_contains (taint_levels (demo_state Enforce 9)) worker Internal" by code_simp
  ultimately show ?thesis using labels_monotone by blast
qed

text \<open>
  C22. Grant conservation: a step leaves the grant at a key as it is, destroys it, provisions it
  anew (the root's \<open>grant_crossing\<close> only), or takes one of its remaining uses (an endorsed
  crossing into its holder only); in reachable states no grant has more remaining than provisioned
  uses and only active agents hold one.
\<close>

theorem grant_conservation:
  assumes "reachable bg s" "kstep bg s act s'"
  shows "grant_change act k (vm_get (crossing_grants s) k) (vm_get (crossing_grants s') k) \<and>
    (\<forall>g. vm_get (crossing_grants s') k = Some g \<longrightarrow>
       remaining g \<le> provisioned g \<and> vs_contains (agent_active s') (ck_agent k))"
  using spec_step_grants [OF kstep_refines [OF assms(2)], of k]
    reach_grants [OF reachable_step [OF assms]] reach_owned [OF reachable_step [OF assms]]
  by (auto simp: grants_ok_def owned_ok_def vec_simps)

theorem grant_conservation_witness:
  "vs_contains (agent_active (demo_state Enforce 8)) worker"
proof -
  have g: "vm_get (crossing_grants (demo_state Enforce 8))
      \<lparr>ck_agent = worker, ck_assignment = AssignmentDigest ''d''\<rparr> = Some \<lparr>remaining = 2, provisioned = 2\<rparr>"
    by code_simp
  have "kstep (demo_bg Enforce) (demo_state Enforce 7)
      (ok_action ((demo_calls Enforce ! 7) (demo_state Enforce 7))) (demo_state Enforce 8)"
    using demo_step [of 7 Enforce] by simp
  from grant_conservation [OF demo_reachable [of 7] this] g show ?thesis by fastforce
qed

text \<open>
  An endorsed crossing takes exactly one use of the receiver's grant, without wrapping below
  zero, and burns its evidence, so the same evidence never endorses again.
\<close>

lemma endorsed_crossing_spends:
  assumes "cross_output s bg q = Inr (s', ActCrossOutput src rcv x Endorsed d)"
  shows "\<exists>g e. vm_get (crossing_grants s) \<lparr>ck_agent = x_rcv q, ck_assignment = x_assignment q\<rparr> = Some g \<and>
    vm_get (crossing_grants s') =
      (vm_get (crossing_grants s))(\<lparr>ck_agent = x_rcv q, ck_assignment = x_assignment q\<rparr> \<mapsto>
        g\<lparr>remaining := remaining g - 1\<rparr>) \<and>
    unat (remaining g - 1) + 1 = unat (remaining g) \<and>
    x_evidence q = Some e \<and> evidence_matches q e \<and>
    \<not> vs_contains (consumed_attestations s) (ca_id e) \<and>
    vs_contains (consumed_attestations s') (ca_id e) \<and> \<not> endorsed_ok s' q"
proof -
  note eff = cross_effect [OF assms]
  have b: "select_branch s q = Endorsed" using eff(2) by simp
  then obtain e g where e: "x_evidence q = Some e" "evidence_matches q e"
      "ca_id e \<notin> set (items (consumed_attestations s))"
    and g: "vm_get (crossing_grants s) \<lparr>ck_agent = x_rcv q, ck_assignment = x_assignment q\<rparr> = Some g"
      "remaining g > 0"
    by (auto simp: select_branch_def endorsed_ok_iff split: if_splits fallback.splits)
  have used: "ca_id e \<in> set (items (consumed_attestations s'))"
    using b e(1) unfolding abs_fields_eq [OF eff(1)] by simp
  have "unat (remaining g - 1) + 1 = unat (remaining g)"
    using g(2) by (simp add: unat_minus_one word_greater_zero_iff unat_gt_0)
  then show ?thesis
    using b e g used
    by (intro exI [of _ g] exI [of _ e])
      (auto simp: abs_fields_eq(11) [OF eff(1)] spend_grant_def vec_simps endorsed_ok_iff)
qed

text \<open>
  A new agent starts with an empty compartment below its grantor: no capability, label, pending
  record, challenge or grant; nobody else's labels, capabilities or parent change.
\<close>

lemma delegate_fresh:
  assumes "delegate s bg p c = Inr (s', act)"
  shows "vs_contains (agent_active s) p \<and> \<not> vs_contains (agent_active s) c \<and>
    vs_contains (agent_active s') c \<and> vm_get (agent_parent s') = (vm_get (agent_parent s))(c \<mapsto> p) \<and>
    vm_elems (agent_cap s') = (vm_elems (agent_cap s))(c := {}) \<and>
    vm_elems (taint_levels s') = (vm_elems (taint_levels s))(c := {}) \<and>
    vm_elems (integ_levels s') = (vm_elems (integ_levels s))(c := {}) \<and>
    (\<forall>i j. vm_get (pending s') i = Some j \<longleftrightarrow> vm_get (pending s) i = Some j \<and> pi_agent j \<noteq> c) \<and>
    (\<forall>i sc. vm_get (challenges s') i = Some sc \<longleftrightarrow> vm_get (challenges s) i = Some sc \<and> cs_agent sc \<noteq> c) \<and>
    vm_get (crossing_grants s') \<lparr>ck_agent = c, ck_assignment = d\<rparr> = None"
  using delegate_effect(2-4) [OF assms]
  by (simp add: abs_fields_eq [OF delegate_effect(1) [OF assms]] clear_compartment_def vec_simps)

text \<open>
  C25. Both revocations destroy exactly the target's compartment: it is inactive, without parent
  edge, capabilities, labels, records, challenges and grants; the records of all other agents, the
  registered tools and the three consumed histories stay as they are.
\<close>

theorem revocation_destroys:
  assumes "revoke s bg p a = Inr (s', act) \<or> cascade_revoke s bg a p = Inr (s', act)"
  shows "set (items (agent_active s')) = set (items (agent_active s)) - {a} \<and>
    vm_get (agent_parent s') = (vm_get (agent_parent s))(a := None) \<and>
    vm_elems (agent_cap s') = (vm_elems (agent_cap s))(a := {}) \<and>
    vm_elems (taint_levels s') = (vm_elems (taint_levels s))(a := {}) \<and>
    vm_elems (integ_levels s') = (vm_elems (integ_levels s))(a := {}) \<and>
    (\<forall>i j. vm_get (pending s') i = Some j \<longleftrightarrow> vm_get (pending s) i = Some j \<and> pi_agent j \<noteq> a) \<and>
    (\<forall>i sc. vm_get (challenges s') i = Some sc \<longleftrightarrow> vm_get (challenges s) i = Some sc \<and> cs_agent sc \<noteq> a) \<and>
    (\<forall>k. vm_get (crossing_grants s') k = (if ck_agent k = a then None else vm_get (crossing_grants s) k)) \<and>
    set (items (consumed_ids s')) = set (items (consumed_ids s)) \<and>
    set (items (consumed_attestations s')) = set (items (consumed_attestations s)) \<and>
    set (items (consumed_crossings s')) = set (items (consumed_crossings s)) \<and>
    set (items (tool_registered s')) = set (items (tool_registered s)) \<and> a \<noteq> root_agent bg"
proof -
  have eff: "abs_state s' = deactivate a (abs_state s)" and root: "a \<noteq> root_agent bg"
    using assms by (auto dest: revoke_effect(1,4) cascade_revoke_effect(1,4))
  show ?thesis
    using root by (simp add: abs_fields_eq [OF eff] deactivate_def clear_compartment_def)
qed

theorem revocation_destroys_witness:
  "vm_get (pending (ok_state (revoke (demo_state Enforce 10) (demo_bg Enforce) root_id worker)))
     (InvocationId ''1'') = None"
proof -
  let ?r = "revoke (demo_state Enforce 10) (demo_bg Enforce) root_id worker"
  have "succeeds ?r" by code_simp
  from revocation_destroys [OF disjI1 [OF succeeds_eq [OF this]]] demo_pending(1)
  have "vm_get (pending (ok_state ?r)) (InvocationId ''1'') \<noteq> Some j" for j
    by (auto simp: demo_record_def)
  then show ?thesis by (meson not_None_eq)
qed

text \<open>
  Five rejection reasons of \<open>KernelError\<close> are never given by a transition: the pairwise
  conflict, the negative inspection, the missing and the exhausted grant, and the event store error
  (which only the driver passes on).
\<close>

lemma unused_rejections:
  assumes "r \<in> {register_tool s t, unregister_tool s t, delegate s bg p c, grant_capability s p c k,
      grant_crossing s bg p c dg n, revoke s bg p c, cascade_revoke s bg c p, ingest s bg c src l i,
      settle_invocation s ivk out att, begin_invocation s bg c ivk ch pol egr ah auth,
      authorize_inspected s bg ivk ia, cross_output s bg q}"
    "r = Inl e"
  shows "e \<notin> {PairwiseConflict, InspectionNegative, GrantMissing, GrantExhausted, EventStoreError}"
proof -
  have "e \<notin> unused_errors"
    using assms(1) by (elim insertE emptyE) (rule errors_used, use assms(2) in simp)+
  then show ?thesis by (simp add: unused_errors_def)
qed

text \<open>
  C27. The representation invariant: the initial state has no duplicate key or element in any
  collection, and every transition on duplicate-free inputs keeps it so.
\<close>

theorem no_duplicates:
  assumes "r \<in> {register_tool s t, unregister_tool s t, delegate s bg p c, grant_capability s p c k,
      grant_crossing s bg p c dg n, revoke s bg p c, cascade_revoke s bg c p, ingest s bg c src l i,
      settle_invocation s ivk out att, begin_invocation s bg c ivk ch pol egr ah auth,
      authorize_inspected s bg ivk ia, cross_output s bg q}"
    "r = Inr (s', act)" "state_wf s" "policy_wf pol" "vs_wf egr"
  shows "state_wf s' \<and> state_wf initial_state"
proof -
  note wf = wf_register wf_unregister wf_delegate wf_grant_capability wf_grant_crossing wf_revoke
    wf_cascade_revoke wf_ingest wf_settle wf_begin wf_authorize wf_cross
  have "state_wf s'"
    using assms(1) [unfolded assms(2)]
    by (elim insertE emptyE) (drule sym, erule wf, (fact assms(3-5))+)+
  then show ?thesis by (simp add: wf_initial)
qed

theorem no_duplicates_witness:
  "state_wf (ok_state (begin_invocation (demo_state Enforce 8) (demo_bg Enforce) worker (InvocationId ''1'')
     (ChallengeId ''1'') demo_policy demo_egress (ContentHash ''args'') True))"
proof -
  have ok: "succeeds (begin_invocation (demo_state Enforce 8) (demo_bg Enforce) worker (InvocationId ''1'')
      (ChallengeId ''1'') demo_policy demo_egress (ContentHash ''args'') True)"
    and wf: "state_wf (demo_state Enforce 8)" "policy_wf demo_policy" "vs_wf demo_egress"
    by code_simp+
  show ?thesis
    by (rule no_duplicates [THEN conjunct1, OF _ succeeds_eq [OF ok] wf]) (rule insertI1 | rule insertI2)+
qed

end
